theory Spec2Isabelle
  imports Main "HOL-Library.AList"
begin

section \<open>Data model of the monitor-workspace mapping engine\<close>

text \<open>
  The extension class of \<^verbatim>\<open>extension.js\<close> keeps its data in long-lived fields and reads
  the compositor through \<^verbatim>\<open>global.display\<close>, \<^verbatim>\<open>global.workspace_manager\<close> and the window
  objects. Here both are fields of one record that every operation takes and returns.

  JavaScript numbers that are pixel coordinates are \<open>int\<close>; monitor indices, workspace
  indices and stable window sequence numbers are \<open>nat\<close>. A window object is referred to
  by its stable sequence number; the string \<^verbatim>\<open>seq_N\<close> that \<^verbatim>\<open>_getWindowId\<close> builds from it
  is represented by \<open>N\<close> itself.
\<close>

record rect =
  rect_x :: int
  rect_y :: int
  rect_width :: int
  rect_height :: int

datatype window_type = NORMAL | DIALOG | OTHER_TYPE

record window =
  stable_sequence :: nat
  win_type :: window_type
  skip_taskbar :: bool
  hidden :: bool
  minimized :: bool
  on_all_workspaces :: bool
  frame_rect :: rect
  workspace :: "nat option"
  monitor :: nat
  layer :: int

text \<open>The value stored in \<^verbatim>\<open>_savedWindowPositions\<close>: \<^verbatim>\<open>{ relX, relY, wsIndex }\<close>.\<close>

record saved_pos =
  sp_relX :: int
  sp_relY :: int
  sp_wsIndex :: nat

text \<open>The value stored in \<^verbatim>\<open>_savedWindowsBeforeDisable\<close> (the title is left out).\<close>

record saved_info =
  si_monitorIndex :: nat
  si_logicalWs :: nat
  si_relX :: int
  si_relY :: int
  si_width :: int
  si_height :: int

text \<open>
  Deferred continuations (\<^verbatim>\<open>GLib.timeout_add\<close>, \<^verbatim>\<open>GLib.idle_add\<close>): each closure the code
  schedules is one constructor holding the values the closure captured.
\<close>

datatype task =
    ForgetProcessed nat
  | MoveWindowToMonitor nat nat nat
  | ReapplyFrame nat int int int int
  | ResetInternalSwitch
  | EnableAnimations
  | PointerRestore int int
  | FocusLastOrAtPosition nat nat
  | RestoreSavedSecondaryWindows

datatype error = TypeError

record state =
  \<comment> \<open>the host: displays, pointer, workspaces, windows\<close>
  monitors :: "rect list"
  primary_monitor :: nat
  pointer :: "int \<times> int"
  nan_coordinate :: int
  n_workspaces :: nat
  active_workspace :: nat
  windows :: "window list"
  focus_window :: "nat option"
  enable_animations :: bool
  interfaceSettings :: bool
  activate_calls :: "nat list"
  \<comment> \<open>the extension's settings\<close>
  workspace_modifier :: string
  workspace_switch_mode :: string
  warp_pointer_to_focus :: bool
  strv :: "string \<rightharpoonup> string list"
  \<comment> \<open>the fields of the extension object\<close>
  monitorWorkspaceMap :: "(nat \<times> nat) list"
  savedWindowPositions :: "nat \<rightharpoonup> saved_pos"
  recentlyProcessedWindows :: "nat set"
  windowsPendingPlacement :: "nat \<rightharpoonup> nat"
  savedWindowsBeforeDisable :: "(nat \<times> saved_info) list"
  lastWindowPerWorkspace :: "nat \<rightharpoonup> nat"
  isInternalSwitch :: bool
  timers :: "(nat \<times> task) list"

text \<open>
  \<^verbatim>\<open>_monitorWorkspaceMap\<close> and \<^verbatim>\<open>_savedWindowsBeforeDisable\<close> are JavaScript \<^verbatim>\<open>Map\<close>s that
  the code iterates, so their insertion order is kept: association lists, written with
  \<^const>\<open>AList.update\<close> (replace in place, or append) and read with \<^const>\<open>map_of\<close>.
\<close>

subsection \<open>Host queries\<close>

definition get_n_monitors :: "state \<Rightarrow> nat" where
  "get_n_monitors s = length (monitors s)"

text \<open>
  \<^verbatim>\<open>get_monitor_geometry\<close>: the code guards some results with \<^verbatim>\<open>if (!geo)\<close>, so an index
  out of range is \<open>None\<close> here, and a field read from it without a guard throws.
\<close>

definition get_monitor_geometry :: "state \<Rightarrow> nat \<Rightarrow> rect option" where
  "get_monitor_geometry s i = (if i < length (monitors s) then Some (monitors s ! i) else None)"

definition need :: "'a option \<Rightarrow> error + 'a" where
  "need v = (case v of None \<Rightarrow> Inl TypeError | Some a \<Rightarrow> Inr a)"

definition get_workspace_by_index :: "state \<Rightarrow> nat \<Rightarrow> nat option" where
  "get_workspace_by_index s i = (if i < n_workspaces s then Some i else None)"

text \<open>\<^verbatim>\<open>px >= geo.x && px < geo.x + geo.width && py >= geo.y && py < geo.y + geo.height\<close>\<close>

definition point_in :: "int \<Rightarrow> int \<Rightarrow> rect \<Rightarrow> bool" where
  "point_in px py geo \<longleftrightarrow>
     px \<ge> rect_x geo \<and> px < rect_x geo + rect_width geo \<and>
     py \<ge> rect_y geo \<and> py < rect_y geo + rect_height geo"

text \<open>
  The centre of a frame is \<^verbatim>\<open>rect.x + rect.width / 2\<close>, a half-integer. The containment
  test on the centre is stated on twice the centre so that it stays in the integers.
\<close>

definition center_in :: "rect \<Rightarrow> rect \<Rightarrow> bool" where
  "center_in r geo \<longleftrightarrow>
     2 * rect_x r + rect_width r \<ge> 2 * rect_x geo \<and>
     2 * rect_x r + rect_width r < 2 * (rect_x geo + rect_width geo) \<and>
     2 * rect_y r + rect_height r \<ge> 2 * rect_y geo \<and>
     2 * rect_y r + rect_height r < 2 * (rect_y geo + rect_height geo)"

subsection \<open>\<^verbatim>\<open>_getMonitorAtPointer\<close>\<close>

text \<open>The \<^verbatim>\<open>for\<close> loop over the monitors from index \<open>i\<close>: the first one holding the point.\<close>

fun first_monitor_with :: "(rect \<Rightarrow> bool) \<Rightarrow> rect list \<Rightarrow> nat \<Rightarrow> nat option" where
  "first_monitor_with P [] i = None"
| "first_monitor_with P (geo # geos) i =
     (if P geo then Some i else first_monitor_with P geos (Suc i))"

definition getMonitorAtPointer :: "state \<Rightarrow> nat" where
  "getMonitorAtPointer s =
     (case first_monitor_with (point_in (fst (pointer s)) (snd (pointer s))) (monitors s) 0 of
        Some i \<Rightarrow> i
      | None \<Rightarrow> primary_monitor s)"

subsection \<open>\<^verbatim>\<open>_ensureWorkspaceExists\<close> and \<^verbatim>\<open>_initializeMapping\<close>\<close>

function ensureWorkspaceExists :: "nat \<Rightarrow> state \<Rightarrow> state" where
  "ensureWorkspaceExists wsIndex s =
     (if n_workspaces s \<le> wsIndex
      then ensureWorkspaceExists wsIndex (s\<lparr>n_workspaces := Suc (n_workspaces s)\<rparr>)
      else s)"
  by pat_completeness auto
termination
  by (relation "measure (\<lambda>(wsIndex, s). Suc wsIndex - n_workspaces s)") auto

declare ensureWorkspaceExists.simps [simp del]

text \<open>The body of the mapping loop for monitor \<open>i\<close>.\<close>

definition init_step :: "nat \<Rightarrow> nat \<Rightarrow> nat \<Rightarrow> (nat \<times> nat) list \<Rightarrow> (nat \<times> nat) list" where
  "init_step primaryMonitor currentWs i m =
     (if i = primaryMonitor then AList.update i currentWs m
      else AList.update i ((currentWs + i) mod 10) m)"

definition initializeMapping :: "state \<Rightarrow> state" where
  "initializeMapping s =
     (let nMonitors = get_n_monitors s;
          primaryMonitor = primary_monitor s;
          currentWs = active_workspace s;
          s1 = ensureWorkspaceExists 9 s
      in s1\<lparr>monitorWorkspaceMap :=
              fold (init_step primaryMonitor currentWs) [0..<nMonitors] (monitorWorkspaceMap s1)\<rparr>)"

text \<open>The handler of \<^verbatim>\<open>monitors-changed\<close>: clear the map and initialise it again.\<close>

definition onMonitorsChanged :: "state \<Rightarrow> state" where
  "onMonitorsChanged s = initializeMapping (s\<lparr>monitorWorkspaceMap := []\<rparr>)"

text \<open>\<^verbatim>\<open>_getMonitorForWorkspace\<close>: the first entry, in insertion order, whose value is \<open>ws\<close>.\<close>

fun getMonitorForWorkspace :: "(nat \<times> nat) list \<Rightarrow> nat \<Rightarrow> nat option" where
  "getMonitorForWorkspace [] ws = None"
| "getMonitorForWorkspace ((m, w) # rest) ws =
     (if w = ws then Some m else getMonitorForWorkspace rest ws)"

text \<open>No two distinct monitors of the map show the same workspace.\<close>

definition one_monitor_per_workspace :: "(nat \<times> nat) list \<Rightarrow> bool" where
  "one_monitor_per_workspace m \<longleftrightarrow> distinct (map snd m)"

subsection \<open>Window objects and the host calls on them\<close>

text \<open>
  A window object that is no longer among the host's windows is a destroyed one.
  \<^verbatim>\<open>_findWindowById\<close> is the same search: the first actor whose window has the id.
\<close>

definition find_window :: "state \<Rightarrow> nat \<Rightarrow> window option" where
  "find_window s w = find (\<lambda>v. stable_sequence v = w) (windows s)"

definition update_window :: "nat \<Rightarrow> (window \<Rightarrow> window) \<Rightarrow> state \<Rightarrow> state" where
  "update_window w f s =
     s\<lparr>windows := map (\<lambda>v. if stable_sequence v = w then f v else v) (windows s)\<rparr>"

text \<open>
  The host is taken to carry out each call as requested and at once:
  \<^verbatim>\<open>move_frame\<close> and \<^verbatim>\<open>move_resize_frame\<close> set the frame, \<^verbatim>\<open>change_workspace\<close> sets the
  window's workspace, \<^verbatim>\<open>move_to_monitor\<close> sets its monitor, \<^verbatim>\<open>focus\<close> and \<^verbatim>\<open>activate\<close>
  make it the focus window, \<^verbatim>\<open>warp_pointer\<close> sets the pointer.
\<close>

definition move_frame :: "nat \<Rightarrow> int \<Rightarrow> int \<Rightarrow> state \<Rightarrow> state" where
  "move_frame w newX newY =
     update_window w (\<lambda>v. v\<lparr>frame_rect := (frame_rect v)\<lparr>rect_x := newX, rect_y := newY\<rparr>\<rparr>)"

definition move_resize_frame :: "nat \<Rightarrow> int \<Rightarrow> int \<Rightarrow> int \<Rightarrow> int \<Rightarrow> state \<Rightarrow> state" where
  "move_resize_frame w newX newY wd ht =
     update_window w (\<lambda>v. v\<lparr>frame_rect :=
        \<lparr>rect_x = newX, rect_y = newY, rect_width = wd, rect_height = ht\<rparr>\<rparr>)"

definition change_workspace :: "nat \<Rightarrow> nat \<Rightarrow> state \<Rightarrow> state" where
  "change_workspace w ws = update_window w (\<lambda>v. v\<lparr>workspace := Some ws\<rparr>)"

definition move_to_monitor :: "nat \<Rightarrow> nat \<Rightarrow> state \<Rightarrow> state" where
  "move_to_monitor w m = update_window w (\<lambda>v. v\<lparr>monitor := m\<rparr>)"

definition focus :: "nat \<Rightarrow> state \<Rightarrow> state" where
  "focus w s = s\<lparr>focus_window := Some w\<rparr>"

definition warp_pointer :: "int \<Rightarrow> int \<Rightarrow> state \<Rightarrow> state" where
  "warp_pointer px py s = s\<lparr>pointer := (px, py)\<rparr>"

definition located_on_workspace :: "window \<Rightarrow> nat \<Rightarrow> bool" where
  "located_on_workspace v ws \<longleftrightarrow> on_all_workspaces v \<or> workspace v = Some ws"

definition add_timeout :: "nat \<Rightarrow> task \<Rightarrow> state \<Rightarrow> state" where
  "add_timeout ms k s = s\<lparr>timers := timers s @ [(ms, k)]\<rparr>"

subsection \<open>Exceptions\<close>

definition bind_err :: "error + 'a \<Rightarrow> ('a \<Rightarrow> error + 'b) \<Rightarrow> error + 'b" where
  "bind_err m f = (case m of Inl e \<Rightarrow> Inl e | Inr a \<Rightarrow> f a)"

text \<open>A \<^verbatim>\<open>for ... of\<close> loop whose body may throw: the first exception ends it.\<close>

fun foldE :: "('a \<Rightarrow> 's \<Rightarrow> error + 's) \<Rightarrow> 'a list \<Rightarrow> 's \<Rightarrow> error + 's" where
  "foldE f [] s = Inr s"
| "foldE f (a # as) s = bind_err (f a s) (foldE f as)"

text \<open>
  The body of a loop over window objects reads the window as it is when its turn comes.
  Within one handler every window of the list is still there; a missing one is skipped.
\<close>

definition with_window :: "state \<Rightarrow> nat \<Rightarrow> (window \<Rightarrow> error + state) \<Rightarrow> error + state" where
  "with_window s w f = (case find_window s w of None \<Rightarrow> Inr s | Some v \<Rightarrow> f v)"

subsection \<open>The window locator\<close>

text \<open>
  \<^verbatim>\<open>_getWindowsOnMonitor\<close>. The geometry is read from inside the loop, after the filters
  on taskbar, type and visibility: with no geometry the first window that passes them
  throws.
\<close>

definition getWindowsOnMonitor :: "state \<Rightarrow> nat \<Rightarrow> bool \<Rightarrow> error + nat list" where
  "getWindowsOnMonitor s monitorIndex includeHidden =
     (let cands = filter (\<lambda>v. \<not> skip_taskbar v \<and> win_type v = NORMAL \<and>
                               (includeHidden \<or> \<not> hidden v)) (windows s)
      in case get_monitor_geometry s monitorIndex of
           None \<Rightarrow> if cands = [] then Inr [] else Inl TypeError
         | Some monitorGeo \<Rightarrow>
             Inr (map stable_sequence
                    (filter (\<lambda>v. center_in (frame_rect v) monitorGeo) cands)))"

definition getWindowsOnWorkspace :: "state \<Rightarrow> nat \<Rightarrow> nat list" where
  "getWindowsOnWorkspace s i =
     (case get_workspace_by_index s i of
        None \<Rightarrow> []
      | Some ws \<Rightarrow>
          map stable_sequence
            (filter (\<lambda>v. \<not> skip_taskbar v \<and> win_type v = NORMAL \<and>
                          \<not> on_all_workspaces v \<and> workspace v = Some ws) (windows s)))"

definition getWindowsOnMonitorForWorkspace :: "state \<Rightarrow> nat \<Rightarrow> nat \<Rightarrow> error + nat list" where
  "getWindowsOnMonitorForWorkspace s monitorIndex i =
     (let primaryMonitor = primary_monitor s;
          cands = filter (\<lambda>v. win_type v = NORMAL \<and> \<not> hidden v \<and> \<not> minimized v) (windows s)
      in case get_monitor_geometry s monitorIndex of
           None \<Rightarrow> if cands = [] then Inr [] else Inl TypeError
         | Some monitorGeo \<Rightarrow>
             Inr (map stable_sequence
                    (filter (\<lambda>v. center_in (frame_rect v) monitorGeo \<and>
                                  (if monitorIndex = primaryMonitor then workspace v = Some i else True))
                       cands)))"

text \<open>\<^verbatim>\<open>_getWindowMonitor\<close>, with \<open>None\<close> for \<^verbatim>\<open>-1\<close>.\<close>

definition getWindowMonitor :: "state \<Rightarrow> window \<Rightarrow> nat option" where
  "getWindowMonitor s v = first_monitor_with (center_in (frame_rect v)) (monitors s) 0"

subsection \<open>Focus and pointer\<close>

text \<open>
  The search of \<^verbatim>\<open>_focusWindowAtPosition\<close> for the topmost window holding the pointer:
  the accumulator is \<^verbatim>\<open>(targetWindow, highestLayer)\<close>.
\<close>

definition topmost_step :: "state \<Rightarrow> int \<Rightarrow> int \<Rightarrow> nat \<Rightarrow> nat option \<times> int \<Rightarrow> nat option \<times> int" where
  "topmost_step s px py w acc =
     (case find_window s w of
        None \<Rightarrow> acc
      | Some v \<Rightarrow>
          if point_in px py (frame_rect v) \<and> (layer v > snd acc \<or> fst acc = None)
          then (Some w, layer v) else acc)"

text \<open>
  \<^verbatim>\<open>_unfocusAllWindows\<close> leaves no focus window. With no window under the pointer the
  code takes the window highest in \<^verbatim>\<open>global.window_group\<close>; the actors are listed bottom
  to top, so it is the last of the list.
\<close>

definition focusWindowAtPosition :: "int \<Rightarrow> int \<Rightarrow> nat \<Rightarrow> state \<Rightarrow> error + state" where
  "focusWindowAtPosition px py monitorIndex s =
     (let currentWs = (case map_of (monitorWorkspaceMap s) monitorIndex of
                         Some ws \<Rightarrow> ws | None \<Rightarrow> 0)
      in bind_err (getWindowsOnMonitorForWorkspace s monitorIndex currentWs) (\<lambda>wins.
           if wins = [] then Inr (s\<lparr>focus_window := None\<rparr>)
           else (case fst (fold (topmost_step s px py) wins (None, -1)) of
                   Some w \<Rightarrow> Inr (focus w s)
                 | None \<Rightarrow> Inr (focus (last wins) s))))"

definition floor_center_x :: "rect \<Rightarrow> int" where
  "floor_center_x r = rect_x r + rect_width r div 2"

definition floor_center_y :: "rect \<Rightarrow> int" where
  "floor_center_y r = rect_y r + rect_height r div 2"

text \<open>\<^verbatim>\<open>_warpPointerToMonitor\<close>\<close>

definition warpPointerToMonitor :: "nat \<Rightarrow> state \<Rightarrow> error + state" where
  "warpPointerToMonitor monitorIndex s =
     (case get_monitor_geometry s monitorIndex of
        None \<Rightarrow> Inr s
      | Some geo \<Rightarrow>
         (let i = (case map_of (monitorWorkspaceMap s) monitorIndex of
                     Some ws \<Rightarrow> ws | None \<Rightarrow> 0);
              found = (case lastWindowPerWorkspace s i of
                         None \<Rightarrow> None
                       | Some lastWindowId \<Rightarrow> find_window s lastWindowId)
          in case found of
               Some v \<Rightarrow>
                 if getWindowMonitor s v = Some monitorIndex \<and>
                    located_on_workspace v (active_workspace s)
                 then Inr (focus (stable_sequence v)
                             (warp_pointer (floor_center_x (frame_rect v))
                                (floor_center_y (frame_rect v)) s))
                 else
                   (let s1 = (if \<not> located_on_workspace v (active_workspace s)
                              then s\<lparr>lastWindowPerWorkspace := (lastWindowPerWorkspace s)(i := None)\<rparr>
                              else s)
                    in focusWindowAtPosition (floor_center_x geo) (floor_center_y geo) monitorIndex
                         (warp_pointer (floor_center_x geo) (floor_center_y geo) s1))
             | None \<Rightarrow>
                 focusWindowAtPosition (floor_center_x geo) (floor_center_y geo) monitorIndex
                   (warp_pointer (floor_center_x geo) (floor_center_y geo) s)))"

text \<open>\<^verbatim>\<open>_doPointerRestore\<close> and \<^verbatim>\<open>_restorePointerPosition\<close>\<close>

definition doPointerRestore :: "int \<Rightarrow> int \<Rightarrow> state \<Rightarrow> state" where
  "doPointerRestore savedX savedY s =
     (let dx = \<bar>fst (pointer s) - savedX\<bar>; dy = \<bar>snd (pointer s) - savedY\<bar>
      in if dx > 5 \<or> dy > 5 then warp_pointer savedX savedY s else s)"

definition restorePointerPosition :: "int \<Rightarrow> int \<Rightarrow> state \<Rightarrow> state" where
  "restorePointerPosition savedX savedY s =
     add_timeout 150 (PointerRestore savedX savedY)
       (add_timeout 50 (PointerRestore savedX savedY)
          (doPointerRestore savedX savedY s))"

text \<open>
  The host's switch to a workspace, whoever asks for it: the workspace becomes the active
  one, and the host hides every window that is not located on it or is minimized, and
  shows the others. \<^verbatim>\<open>_simpleSwitch_Primary\<close> counts on it: the windows it assigns to
  the workspace it leaves ``will be hidden when global WS changes''.
\<close>

definition set_showing :: "nat \<Rightarrow> window \<Rightarrow> window" where
  "set_showing ws v = v\<lparr>hidden := (if located_on_workspace v ws then minimized v else True)\<rparr>"

definition show_workspace :: "nat \<Rightarrow> state \<Rightarrow> state" where
  "show_workspace ws s = s\<lparr>active_workspace := ws, windows := map (set_showing ws) (windows s)\<rparr>"

text \<open>
  \<^verbatim>\<open>workspace.activate\<close> is that switch asked for by the extension; \<open>activate_calls\<close>
  logs the calls.
\<close>

definition workspace_activate :: "nat \<Rightarrow> state \<Rightarrow> state" where
  "workspace_activate ws s =
     (show_workspace ws s)\<lparr>activate_calls := activate_calls s @ [ws]\<rparr>"

text \<open>
  \<^verbatim>\<open>_activateWorkspaceWithoutAnimation\<close> on a workspace object. The host's
  \<^verbatim>\<open>active-workspace-changed\<close> signal reaches \<^verbatim>\<open>_onSystemWorkspaceChanged\<close> while
  \<^verbatim>\<open>_isInternalSwitch\<close> is set, where it returns at once.
\<close>

definition activateWorkspaceWithoutAnimation :: "nat \<Rightarrow> state \<Rightarrow> state" where
  "activateWorkspaceWithoutAnimation ws s =
     (let s1 = s\<lparr>isInternalSwitch := True\<rparr>
      in if \<not> interfaceSettings s1
         then add_timeout 100 ResetInternalSwitch (workspace_activate ws s1)
         else
           (let wasEnabled = enable_animations s1;
                s2 = (if wasEnabled then s1\<lparr>enable_animations := False\<rparr> else s1);
                s3 = workspace_activate ws s2;
                s4 = (if wasEnabled then add_timeout 50 EnableAnimations s3 else s3)
            in add_timeout 100 ResetInternalSwitch s4))"

subsection \<open>Simple switch on the primary monitor\<close>

text \<open>
  First loop of \<^verbatim>\<open>_simpleSwitch_Primary\<close>: stash the relative position of a window shown on
  the monitor, tagged with the previous workspace, and assign the window to that
  workspace. \<^verbatim>\<open>change_workspace\<close> is called with the workspace object unchecked.
\<close>

definition stash_window :: "rect option \<Rightarrow> nat \<Rightarrow> nat option \<Rightarrow> nat \<Rightarrow> state \<Rightarrow> error + state" where
  "stash_window monitorGeo previousWs previousWsObj w s =
     with_window s w (\<lambda>v.
       bind_err (need monitorGeo) (\<lambda>geo.
         let r = frame_rect v;
             x = rect_x r - rect_x geo;
             y = rect_y r - rect_y geo;
             s1 = s\<lparr>savedWindowPositions := (savedWindowPositions s)
                       (w \<mapsto> \<lparr>sp_relX = x, sp_relY = y, sp_wsIndex = previousWs\<rparr>)\<rparr>
         in bind_err (need previousWsObj) (\<lambda>ws. Inr (change_workspace w ws s1))))"

text \<open>
  Second loop: a window of the target workspace goes to its cached offset when the cache
  holds one tagged with the target workspace, and the entry is deleted; otherwise it
  goes to the quarter-offset default.
\<close>

definition restore_window :: "rect option \<Rightarrow> nat \<Rightarrow> nat \<Rightarrow> state \<Rightarrow> error + state" where
  "restore_window monitorGeo targetWs w s =
     bind_err (need monitorGeo) (\<lambda>geo.
       case savedWindowPositions s w of
         Some savedPos \<Rightarrow>
           if sp_wsIndex savedPos = targetWs
           then Inr (move_frame w (rect_x geo + sp_relX savedPos) (rect_y geo + sp_relY savedPos)
                       (s\<lparr>savedWindowPositions := (savedWindowPositions s)(w := None)\<rparr>))
           else Inr (move_frame w (rect_x geo + rect_width geo div 4)
                       (rect_y geo + rect_height geo div 4) s)
       | None \<Rightarrow>
           Inr (move_frame w (rect_x geo + rect_width geo div 4)
                  (rect_y geo + rect_height geo div 4) s))"

definition simpleSwitch_Primary :: "nat \<Rightarrow> nat \<Rightarrow> nat \<Rightarrow> bool \<Rightarrow> state \<Rightarrow> error + state" where
  "simpleSwitch_Primary monitorIndex previousWs targetWs skipActivate s =
     (let monitorGeo = get_monitor_geometry s monitorIndex
      in bind_err (getWindowsOnMonitor s monitorIndex False) (\<lambda>windowsOnMonitor.
         let previousWsObj = get_workspace_by_index s previousWs
         in bind_err (foldE (stash_window monitorGeo previousWs previousWsObj) windowsOnMonitor s)
              (\<lambda>s1.
         let targetWsWindows = getWindowsOnWorkspace s1 targetWs;
             targetWsObj = get_workspace_by_index s1 targetWs
         in bind_err (foldE (restore_window monitorGeo targetWs) targetWsWindows s1) (\<lambda>s2.
              if \<not> skipActivate
              then bind_err (need targetWsObj) (\<lambda>ws. Inr (activateWorkspaceWithoutAnimation ws s2))
              else Inr s2))))"

subsection \<open>Simple switch on a secondary monitor\<close>

definition to_primary_window :: "rect option \<Rightarrow> rect option \<Rightarrow> nat \<Rightarrow> nat \<Rightarrow> state \<Rightarrow> error + state" where
  "to_primary_window monitorGeo primaryGeo previousWs w s =
     with_window s w (\<lambda>v.
       bind_err (need monitorGeo) (\<lambda>geo.
       bind_err (need primaryGeo) (\<lambda>pgeo.
         let r = frame_rect v;
             newX = rect_x pgeo + (rect_x r - rect_x geo);
             newY = rect_y pgeo + (rect_y r - rect_y geo);
             s1 = move_resize_frame w newX newY (rect_width r) (rect_height r) s;
             s2 = move_to_monitor w (primary_monitor s) s1;
             s3 = add_timeout 50 (ReapplyFrame w newX newY (rect_width r) (rect_height r)) s2
         in case get_workspace_by_index s3 previousWs of
              Some ws \<Rightarrow> Inr (change_workspace w ws s3)
            | None \<Rightarrow> Inr s3)))"

definition to_secondary_window :: "rect option \<Rightarrow> rect option \<Rightarrow> nat \<Rightarrow> nat \<Rightarrow> state \<Rightarrow> error + state" where
  "to_secondary_window monitorGeo primaryGeo monitorIndex w s =
     with_window s w (\<lambda>v.
       bind_err (need primaryGeo) (\<lambda>pgeo.
       bind_err (need monitorGeo) (\<lambda>geo.
         let r = frame_rect v;
             newX = rect_x geo + (rect_x r - rect_x pgeo);
             newY = rect_y geo + (rect_y r - rect_y pgeo);
             s1 = move_resize_frame w newX newY (rect_width r) (rect_height r) s;
             s2 = move_to_monitor w monitorIndex s1;
             s3 = add_timeout 50 (ReapplyFrame w newX newY (rect_width r) (rect_height r)) s2
         in Inr (change_workspace w (active_workspace s3) s3))))"

definition simpleSwitch_Secondary :: "nat \<Rightarrow> nat \<Rightarrow> nat \<Rightarrow> state \<Rightarrow> error + state" where
  "simpleSwitch_Secondary monitorIndex previousWs targetWs s =
     (let monitorGeo = get_monitor_geometry s monitorIndex;
          primaryMonitor = primary_monitor s;
          primaryGeo = get_monitor_geometry s primaryMonitor
      in bind_err (getWindowsOnMonitor s monitorIndex False) (\<lambda>windowsOnMonitor.
         bind_err (foldE (to_primary_window monitorGeo primaryGeo previousWs) windowsOnMonitor s)
           (\<lambda>s1.
         bind_err (getWindowsOnMonitor s1 primaryMonitor True) (\<lambda>primaryWindows.
         let targetWsWindows =
               filter (\<lambda>w. case find_window s1 w of
                              None \<Rightarrow> False
                            | Some v \<Rightarrow> workspace v = Some targetWs) primaryWindows
         in foldE (to_secondary_window monitorGeo primaryGeo monitorIndex) targetWsWindows s1))))"

subsection \<open>Swap\<close>

text \<open>The entries of \<^verbatim>\<open>info1\<close> and \<^verbatim>\<open>info2\<close>: window, relative position, size.\<close>

record swap_info =
  sw_window :: nat
  sw_relX :: int
  sw_relY :: int
  sw_width :: int
  sw_height :: int

fun collect_info :: "state \<Rightarrow> rect option \<Rightarrow> nat list \<Rightarrow> error + swap_info list" where
  "collect_info s geo [] = Inr []"
| "collect_info s geo (w # ws) =
     (case find_window s w of
        None \<Rightarrow> collect_info s geo ws
      | Some v \<Rightarrow>
          bind_err (need geo) (\<lambda>g.
          bind_err (collect_info s geo ws) (\<lambda>rest.
            Inr (\<lparr>sw_window = w,
                  sw_relX = rect_x (frame_rect v) - rect_x g,
                  sw_relY = rect_y (frame_rect v) - rect_y g,
                  sw_width = rect_width (frame_rect v),
                  sw_height = rect_height (frame_rect v)\<rparr> # rest))))"

text \<open>
  One window of a swap: move it to the same relative offset on the destination monitor,
  set its monitor, schedule the re-apply, and change its workspace only when the
  destination is the primary monitor and the new global workspace object exists.
\<close>

definition swap_move :: "rect option \<Rightarrow> nat \<Rightarrow> nat option \<Rightarrow> swap_info \<Rightarrow> state \<Rightarrow> error + state" where
  "swap_move destGeo dest newGlobalWsObj i s =
     bind_err (need destGeo) (\<lambda>geo.
       let newX = rect_x geo + sw_relX i;
           newY = rect_y geo + sw_relY i;
           s1 = move_resize_frame (sw_window i) newX newY (sw_width i) (sw_height i) s;
           s2 = move_to_monitor (sw_window i) dest s1;
           s3 = add_timeout 50 (ReapplyFrame (sw_window i) newX newY (sw_width i) (sw_height i)) s2
       in case newGlobalWsObj of
            Some ws \<Rightarrow> if dest = primary_monitor s3 then Inr (change_workspace (sw_window i) ws s3)
                       else Inr s3
          | None \<Rightarrow> Inr s3)"

text \<open>
  The local \<^verbatim>\<open>newGlobalWsObj\<close>: when the primary monitor is one of the two, the object of
  the workspace it will show (\<^verbatim>\<open>ws2\<close> if it is \<^verbatim>\<open>monitor1\<close>, else \<^verbatim>\<open>ws1\<close>), which is
  \<^verbatim>\<open>null\<close> if there is no such workspace; \<^verbatim>\<open>null\<close> when neither monitor is primary.
\<close>

definition swap_newGlobalWsObj :: "state \<Rightarrow> nat \<Rightarrow> nat \<Rightarrow> nat \<Rightarrow> nat \<Rightarrow> nat option" where
  "swap_newGlobalWsObj s monitor1 monitor2 ws1 ws2 =
     (let primaryMonitor = primary_monitor s;
          primaryInvolved = (monitor1 = primaryMonitor \<or> monitor2 = primaryMonitor)
      in if primaryInvolved
         then (if monitor1 = primaryMonitor then get_workspace_by_index s ws2
               else get_workspace_by_index s ws1)
         else None)"

definition performSwap :: "nat \<Rightarrow> nat \<Rightarrow> nat \<Rightarrow> nat \<Rightarrow> bool \<Rightarrow> state \<Rightarrow> error + state" where
  "performSwap monitor1 monitor2 ws1 ws2 skipActivate s =
     bind_err (getWindowsOnMonitor s monitor1 False) (\<lambda>windows1.
     bind_err (getWindowsOnMonitor s monitor2 False) (\<lambda>windows2.
     let geo1 = get_monitor_geometry s monitor1;
         geo2 = get_monitor_geometry s monitor2
     in bind_err (collect_info s geo1 windows1) (\<lambda>info1.
        bind_err (collect_info s geo2 windows2) (\<lambda>info2.
     let newGlobalWsObj = swap_newGlobalWsObj s monitor1 monitor2 ws1 ws2
     in bind_err (foldE (swap_move geo2 monitor2 newGlobalWsObj) info1 s) (\<lambda>s1.
        bind_err (foldE (swap_move geo1 monitor1 newGlobalWsObj) info2 s1) (\<lambda>s2.
     let primaryInvolved = (monitor1 = primary_monitor s \<or> monitor2 = primary_monitor s);
         s3 = (case newGlobalWsObj of
                 Some ws \<Rightarrow> if primaryInvolved \<and> \<not> skipActivate
                            then activateWorkspaceWithoutAnimation ws s2 else s2
               | None \<Rightarrow> s2)
     in Inr (s3\<lparr>monitorWorkspaceMap :=
                  AList.update monitor2 ws1
                    (AList.update monitor1 ws2 (monitorWorkspaceMap s3))\<rparr>)))))))"

subsection \<open>\<^verbatim>\<open>_switchWorkspace\<close>\<close>

text \<open>
  The steps after a swap or a simple switch: restore the pointer, and schedule the
  refocus. The indicator, the banner and the debug log keep their own state and are
  left out, here and below.
\<close>

definition switch_post_steps :: "int \<Rightarrow> int \<Rightarrow> nat \<Rightarrow> nat \<Rightarrow> state \<Rightarrow> state" where
  "switch_post_steps savedPointerX savedPointerY currentMonitor targetWs s =
     add_timeout 200 (FocusLastOrAtPosition currentMonitor targetWs)
       (restorePointerPosition savedPointerX savedPointerY s)"

definition switchWorkspace :: "nat \<Rightarrow> state \<Rightarrow> error + state" where
  "switchWorkspace targetWs s =
     (let savedPointerX = fst (pointer s);
          savedPointerY = snd (pointer s);
          currentMonitor = getMonitorAtPointer s;
          primaryMonitor = primary_monitor s;
          previousWs = (case map_of (monitorWorkspaceMap s) currentMonitor of
                          Some ws \<Rightarrow> ws | None \<Rightarrow> 0)
      in if targetWs = previousWs then Inr s
         else
           (let s1 = ensureWorkspaceExists targetWs s;
                existingMonitor = getMonitorForWorkspace (monitorWorkspaceMap s1) targetWs;
                isSwap = (case existingMonitor of
                            None \<Rightarrow> False | Some m \<Rightarrow> m \<noteq> currentMonitor)
            in if isSwap \<and> workspace_switch_mode s1 = ''warp''
               then (case existingMonitor of
                       Some m \<Rightarrow> warpPointerToMonitor m s1 | None \<Rightarrow> Inr s1)
               else
                 bind_err
                   (if isSwap
                    then (case existingMonitor of
                            Some m \<Rightarrow> performSwap currentMonitor m previousWs targetWs False s1
                          | None \<Rightarrow> Inr s1)
                    else
                      bind_err
                        (if currentMonitor = primaryMonitor
                         then simpleSwitch_Primary currentMonitor previousWs targetWs False s1
                         else simpleSwitch_Secondary currentMonitor previousWs targetWs s1)
                        (\<lambda>s2. Inr (s2\<lparr>monitorWorkspaceMap :=
                                       AList.update currentMonitor targetWs
                                         (monitorWorkspaceMap s2)\<rparr>)))
                   (\<lambda>s3. Inr (switch_post_steps savedPointerX savedPointerY
                                 currentMonitor targetWs s3))))"

subsection \<open>External workspace change\<close>

definition save_position :: "rect option \<Rightarrow> nat \<Rightarrow> nat \<Rightarrow> state \<Rightarrow> error + state" where
  "save_position monitorGeo i w s =
     with_window s w (\<lambda>v.
       bind_err (need monitorGeo) (\<lambda>geo.
         Inr (s\<lparr>savedWindowPositions := (savedWindowPositions s)
                  (w \<mapsto> \<lparr>sp_relX = rect_x (frame_rect v) - rect_x geo,
                          sp_relY = rect_y (frame_rect v) - rect_y geo,
                          sp_wsIndex = i\<rparr>)\<rparr>)))"

definition saveWorkspaceWindowPositions :: "nat \<Rightarrow> nat \<Rightarrow> state \<Rightarrow> error + state" where
  "saveWorkspaceWindowPositions monitorIndex i s =
     foldE (save_position (get_monitor_geometry s monitorIndex) i) (getWindowsOnWorkspace s i) s"

definition onSystemWorkspaceChanged :: "state \<Rightarrow> error + state" where
  "onSystemWorkspaceChanged s =
     (if isInternalSwitch s then Inr s
      else
        (let targetWs = active_workspace s;
             primaryMonitor = primary_monitor s;
             previousWs = (case map_of (monitorWorkspaceMap s) primaryMonitor of
                             Some ws \<Rightarrow> ws | None \<Rightarrow> 0)
         in if targetWs = previousWs then Inr s
            else
              (case getMonitorForWorkspace (monitorWorkspaceMap s) targetWs of
                 Some existingMonitor \<Rightarrow>
                   if existingMonitor \<noteq> primaryMonitor
                   then performSwap primaryMonitor existingMonitor previousWs targetWs True s
                   else bind_err (saveWorkspaceWindowPositions primaryMonitor previousWs s)
                          (\<lambda>s1. Inr (s1\<lparr>monitorWorkspaceMap :=
                                         AList.update primaryMonitor targetWs
                                           (monitorWorkspaceMap s1)\<rparr>))
               | None \<Rightarrow>
                   bind_err (saveWorkspaceWindowPositions primaryMonitor previousWs s)
                     (\<lambda>s1. Inr (s1\<lparr>monitorWorkspaceMap :=
                                    AList.update primaryMonitor targetWs
                                      (monitorWorkspaceMap s1)\<rparr>)))))"

subsection \<open>Placement of a new window\<close>

text \<open>
  \<^verbatim>\<open>_finishWindowPlacement\<close>: drop the pending entry, activate the window if it is still
  there, warp the pointer when the setting asks for it.
\<close>

definition finishWindowPlacement :: "nat \<Rightarrow> nat option \<Rightarrow> int \<Rightarrow> int \<Rightarrow> state \<Rightarrow> state" where
  "finishWindowPlacement w windowId warpX warpY s =
     (let s1 = (case windowId of
                  Some i \<Rightarrow> s\<lparr>windowsPendingPlacement := (windowsPendingPlacement s)(i := None)\<rparr>
                | None \<Rightarrow> s);
          s2 = (case find_window s1 w of Some v \<Rightarrow> focus w s1 | None \<Rightarrow> s1)
      in if warp_pointer_to_focus s2 then warp_pointer warpX warpY s2 else s2)"

text \<open>
  JavaScript's \<^verbatim>\<open>%\<close> takes the sign of the dividend and is \<^verbatim>\<open>NaN\<close> for a zero divisor
  (\<open>None\<close> here).
\<close>

definition js_rem :: "int \<Rightarrow> int \<Rightarrow> int option" where
  "js_rem a b = (if b = 0 then None else Some (sgn a * (\<bar>a\<bar> mod \<bar>b\<bar>)))"

text \<open>The workspace assignment both branches of \<^verbatim>\<open>_moveWindowToMonitor\<close> make.\<close>

definition assign_workspace :: "nat \<Rightarrow> nat \<Rightarrow> nat \<Rightarrow> state \<Rightarrow> state" where
  "assign_workspace w targetMonitor logicalWs s =
     (if targetMonitor = primary_monitor s
      then (case get_workspace_by_index s logicalWs of
              Some ws \<Rightarrow> change_workspace w ws s
            | None \<Rightarrow> s)
      else change_workspace w (active_workspace s) s)"

text \<open>
  A coordinate the code computes is a number or \<^verbatim>\<open>NaN\<close> (\<open>None\<close>). The code hands it to
  the host without a test; the host receives an integer, and \<open>nan_coordinate\<close> is the
  one it receives for \<^verbatim>\<open>NaN\<close>.
\<close>

definition js_coord :: "state \<Rightarrow> int option \<Rightarrow> int" where
  "js_coord s c = (case c of Some i \<Rightarrow> i | None \<Rightarrow> nan_coordinate s)"

text \<open>
  \<^verbatim>\<open>_moveWindowToMonitor\<close>, the body of the idle callback. \<^verbatim>\<open>Math.min\<close>, \<^verbatim>\<open>Math.max\<close>,
  \<^verbatim>\<open>+\<close> and \<^verbatim>\<open>Math.floor\<close> of \<^verbatim>\<open>NaN\<close> are \<^verbatim>\<open>NaN\<close>, each coordinate on its own. No step
  of the function throws.
\<close>

definition moveWindowToMonitor :: "nat \<Rightarrow> nat \<Rightarrow> nat option \<Rightarrow> state \<Rightarrow> error + state" where
  "moveWindowToMonitor w targetMonitor windowId s =
     (case find_window s w of
        None \<Rightarrow>
          (case windowId of
             Some i \<Rightarrow> Inr (s\<lparr>windowsPendingPlacement := (windowsPendingPlacement s)(i := None)\<rparr>)
           | None \<Rightarrow> Inr s)
      | Some v \<Rightarrow>
         (let r = frame_rect v;
              logicalWs = (case map_of (monitorWorkspaceMap s) targetMonitor of
                             Some ws \<Rightarrow> ws | None \<Rightarrow> 0)
          in case get_monitor_geometry s targetMonitor of
               None \<Rightarrow> Inr s
             | Some targetGeo \<Rightarrow>
                (let sourceMonitor = first_monitor_with (center_in r) (monitors s) 0
                 in if sourceMonitor = Some targetMonitor
                    then Inr (finishWindowPlacement w windowId (floor_center_x r) (floor_center_y r)
                                (assign_workspace w targetMonitor logicalWs
                                   (move_to_monitor w targetMonitor s)))
                    else
                      (let relX = (case sourceMonitor of
                                     Some m \<Rightarrow> Some (rect_x r - rect_x (monitors s ! m))
                                   | None \<Rightarrow> js_rem (rect_x r) (rect_width targetGeo));
                           relY = (case sourceMonitor of
                                     Some m \<Rightarrow> Some (rect_y r - rect_y (monitors s ! m))
                                   | None \<Rightarrow> js_rem (rect_y r) (rect_height targetGeo));
                           newX = map_option
                                    (\<lambda>x. max (rect_x targetGeo)
                                           (min (rect_x targetGeo + x)
                                              (rect_x targetGeo + rect_width targetGeo - rect_width r)))
                                    relX;
                           newY = map_option
                                    (\<lambda>y. max (rect_y targetGeo)
                                           (min (rect_y targetGeo + y)
                                              (rect_y targetGeo + rect_height targetGeo - rect_height r)))
                                    relY;
                           s1 = move_frame w (js_coord s newX) (js_coord s newY) s;
                           s2 = move_to_monitor w targetMonitor s1;
                           s3 = assign_workspace w targetMonitor logicalWs s2;
                           warpX = map_option (\<lambda>x. x + rect_width r div 2) newX;
                           warpY = map_option (\<lambda>y. y + rect_height r div 2) newY
                       in Inr (finishWindowPlacement w windowId
                                 (js_coord s warpX) (js_coord s warpY) s3)))))"


subsection \<open>Disable and the restore after enable\<close>

text \<open>
  One window of a secondary monitor in \<^verbatim>\<open>_restoreWindowsToLogicalWorkspaces\<close>: record it
  in the snapshot, move it to the primary monitor's coordinates, assign it to the
  active workspace.
\<close>

definition save_and_move :: "rect option \<Rightarrow> rect option \<Rightarrow> nat \<Rightarrow> nat \<Rightarrow> nat \<Rightarrow> state \<Rightarrow> error + state" where
  "save_and_move primaryGeo monitorGeo monitorIndex logicalWs w s =
     with_window s w (\<lambda>v.
       bind_err (need monitorGeo) (\<lambda>geo.
         let r = frame_rect v;
             x = rect_x r - rect_x geo;
             y = rect_y r - rect_y geo;
             s1 = s\<lparr>savedWindowsBeforeDisable :=
                       AList.update w
                         \<lparr>si_monitorIndex = monitorIndex, si_logicalWs = logicalWs,
                          si_relX = x, si_relY = y,
                          si_width = rect_width r, si_height = rect_height r\<rparr>
                         (savedWindowsBeforeDisable s)\<rparr>
         in bind_err (need primaryGeo) (\<lambda>pgeo.
              Inr (change_workspace w (active_workspace s1)
                     (move_resize_frame w (rect_x pgeo + x) (rect_y pgeo + y)
                        (rect_width r) (rect_height r) s1)))))"

definition save_monitor :: "nat \<Rightarrow> state \<Rightarrow> error + state" where
  "save_monitor monitorIndex s =
     (if monitorIndex = primary_monitor s then Inr s
      else
        bind_err (getWindowsOnMonitor s monitorIndex False) (\<lambda>windowsOnMonitor.
          let logicalWs = (case map_of (monitorWorkspaceMap s) monitorIndex of
                             Some ws \<Rightarrow> ws | None \<Rightarrow> 0)
          in foldE (save_and_move (get_monitor_geometry s (primary_monitor s))
                      (get_monitor_geometry s monitorIndex) monitorIndex logicalWs)
               windowsOnMonitor s))"

definition restoreWindowsToLogicalWorkspaces :: "state \<Rightarrow> error + state" where
  "restoreWindowsToLogicalWorkspaces s =
     foldE save_monitor [0..<get_n_monitors s] (s\<lparr>savedWindowsBeforeDisable := []\<rparr>)"

text \<open>
  \<^verbatim>\<open>disable\<close>. Disconnecting the signals, removing the key bindings, restoring the system
  key bindings and destroying the indicator, overlays and banner do not touch the fields
  kept here.
\<close>

definition disable :: "state \<Rightarrow> error + state" where
  "disable s =
     bind_err (restoreWindowsToLogicalWorkspaces s) (\<lambda>s1.
       Inr (s1\<lparr>monitorWorkspaceMap := [],
                recentlyProcessedWindows := {},
                windowsPendingPlacement := Map.empty,
                interfaceSettings := False\<rparr>))"

definition restore_saved :: "nat \<times> saved_info \<Rightarrow> state \<Rightarrow> state" where
  "restore_saved e s =
     (case find_window s (fst e) of
        None \<Rightarrow> s
      | Some v \<Rightarrow>
         (case get_monitor_geometry s (si_monitorIndex (snd e)) of
            None \<Rightarrow> s
          | Some monitorGeo \<Rightarrow>
             (let newX = rect_x monitorGeo + si_relX (snd e);
                  newY = rect_y monitorGeo + si_relY (snd e);
                  s1 = move_resize_frame (fst e) newX newY (si_width (snd e)) (si_height (snd e)) s;
                  s2 = move_to_monitor (fst e) (si_monitorIndex (snd e)) s1;
                  s3 = change_workspace (fst e) (active_workspace s2) s2
              in add_timeout 50
                   (ReapplyFrame (fst e) newX newY (si_width (snd e)) (si_height (snd e))) s3)))"

definition restoreSavedSecondaryWindows :: "state \<Rightarrow> state" where
  "restoreSavedSecondaryWindows s =
     (if savedWindowsBeforeDisable s = [] then s
      else
        (let entries = savedWindowsBeforeDisable s;
             s1 = fold restore_saved entries s;
             s2 = s1\<lparr>monitorWorkspaceMap :=
                       fold (\<lambda>e. AList.update (si_monitorIndex (snd e)) (si_logicalWs (snd e)))
                         entries (monitorWorkspaceMap s1)\<rparr>
         in s2\<lparr>savedWindowsBeforeDisable := []\<rparr>))"

subsection \<open>Key bindings\<close>

text \<open>The decimal text of a number, as a template literal prints it.\<close>

fun number_to_string :: "nat \<Rightarrow> string" where
  "number_to_string n =
     (if n < 10 then [''0123456789'' ! n]
      else number_to_string (n div 10) @ [''0123456789'' ! (n mod 10)])"

declare number_to_string.simps [simp del]

definition modKey_of :: "string \<Rightarrow> string" where
  "modKey_of modifier =
     (if modifier = ''Super'' then ''<Super>''
      else if modifier = ''Ctrl'' then ''<Control>'' else ''<Alt>'')"

definition set_strv :: "string \<Rightarrow> string list \<Rightarrow> state \<Rightarrow> state" where
  "set_strv keyName v s = s\<lparr>strv := (strv s)(keyName \<mapsto> v)\<rparr>"

definition set_switch_binding :: "string \<Rightarrow> nat \<Rightarrow> state \<Rightarrow> state" where
  "set_switch_binding modKey i s =
     set_strv (''mmw-switch-ws-'' @ number_to_string i)
       [modKey @ number_to_string ((i + 1) mod 10)] s"

definition set_move_binding :: "string \<Rightarrow> nat \<Rightarrow> state \<Rightarrow> state" where
  "set_move_binding modKey i s =
     set_strv (''mmw-move-ws-'' @ number_to_string i)
       [modKey @ ''<Shift>'' @ number_to_string ((i + 1) mod 10)] s"

definition updateWorkspaceKeybindingSettings :: "state \<Rightarrow> state" where
  "updateWorkspaceKeybindingSettings s =
     (let modKey = modKey_of (workspace_modifier s)
      in fold (set_move_binding modKey) [0..<10]
           (fold (set_switch_binding modKey) [0..<10] s))"

subsection \<open>Window ordering\<close>

text \<open>The comparator that \<^verbatim>\<open>_cycleFocus\<close> and \<^verbatim>\<open>_swapWindowPosition\<close> hand to \<^verbatim>\<open>sort\<close>.\<close>

definition compare_position :: "rect \<Rightarrow> rect \<Rightarrow> int" where
  "compare_position rectA rectB =
     (if \<bar>rect_y rectA - rect_y rectB\<bar> < 50 then rect_x rectA - rect_x rectB
      else rect_y rectA - rect_y rectB)"

text \<open>
  The ordering in the words of the specification, for comparison with the comparator:
  vertical positions fall into bands of 50 pixels, a lower band comes first, and within
  a band the smaller horizontal position comes first.
\<close>

definition band :: "int \<Rightarrow> int" where
  "band y = y div 50"

definition spec_raster_before :: "rect \<Rightarrow> rect \<Rightarrow> bool" where
  "spec_raster_before a b \<longleftrightarrow>
     band (rect_y a) < band (rect_y b) \<or>
     (band (rect_y a) = band (rect_y b) \<and> rect_x a < rect_x b)"

subsection \<open>A concrete host\<close>

text \<open>
  Two monitors of 1920 by 1080 side by side, monitor 0 primary and showing workspace 0,
  monitor 1 showing workspace 2, the pointer on monitor 1, ten workspaces, and one
  normal window of 800 by 600 on monitor 0.
\<close>

definition ex_window :: "nat \<Rightarrow> int \<Rightarrow> int \<Rightarrow> nat option \<Rightarrow> window" where
  "ex_window i x y ws =
     \<lparr>stable_sequence = i, win_type = NORMAL, skip_taskbar = False, hidden = False,
      minimized = False, on_all_workspaces = False,
      frame_rect = \<lparr>rect_x = x, rect_y = y, rect_width = 800, rect_height = 600\<rparr>,
      workspace = ws, monitor = 0, layer = 2\<rparr>"

definition ex_state :: state where
  "ex_state =
     \<lparr>monitors = [\<lparr>rect_x = 0, rect_y = 0, rect_width = 1920, rect_height = 1080\<rparr>,
                  \<lparr>rect_x = 1920, rect_y = 0, rect_width = 1920, rect_height = 1080\<rparr>],
      primary_monitor = 0,
      pointer = (2000, 100),
      nan_coordinate = 0,
      n_workspaces = 10,
      active_workspace = 0,
      windows = [ex_window 1 100 100 (Some 0)],
      focus_window = None,
      enable_animations = True,
      interfaceSettings = True,
      activate_calls = [],
      workspace_modifier = ''Alt'',
      workspace_switch_mode = ''swap'',
      warp_pointer_to_focus = False,
      strv = Map.empty,
      monitorWorkspaceMap = [(0, 0), (1, 2)],
      savedWindowPositions = Map.empty,
      recentlyProcessedWindows = {},
      windowsPendingPlacement = Map.empty,
      savedWindowsBeforeDisable = [],
      lastWindowPerWorkspace = Map.empty,
      isInternalSwitch = False,
      timers = []\<rparr>"

subsection \<open>What an operation leaves alone\<close>

text \<open>\<open>host_moves s s'\<close>: the two states differ at most in the windows and the timers.\<close>

definition host_moves :: "state \<Rightarrow> state \<Rightarrow> bool" where
  "host_moves s s' \<longleftrightarrow> s' = s\<lparr>windows := windows s', timers := timers s'\<rparr>"

definition window_ids :: "state \<Rightarrow> nat list" where
  "window_ids s = map stable_sequence (windows s)"

text \<open>
  \<open>disable_moves s s'\<close>: the two states differ at most in the windows and the snapshot,
  and hold the same window objects in the same order.
\<close>

definition disable_moves :: "state \<Rightarrow> state \<Rightarrow> bool" where
  "disable_moves s s' \<longleftrightarrow>
     s' = s\<lparr>windows := windows s', savedWindowsBeforeDisable := savedWindowsBeforeDisable s'\<rparr> \<and>
     window_ids s' = window_ids s"

text \<open>
  Every entry of the snapshot is keyed by a window of the host and records a monitor of
  the host other than the primary one, with the workspace the map gives that monitor.
\<close>

definition secondary_entries :: "state \<Rightarrow> bool" where
  "secondary_entries s \<longleftrightarrow>
     list_all (\<lambda>e. fst e \<in> set (window_ids s) \<and>
                    si_monitorIndex (snd e) \<noteq> primary_monitor s \<and>
                    si_monitorIndex (snd e) < get_n_monitors s \<and>
                    si_logicalWs (snd e) =
                      (case map_of (monitorWorkspaceMap s) (si_monitorIndex (snd e)) of
                         Some ws \<Rightarrow> ws | None \<Rightarrow> 0))
       (savedWindowsBeforeDisable s)"

text \<open>
  \<open>snapshot_grows w v s s'\<close>: from \<open>s\<close> to \<open>s'\<close> an entry of the snapshot for window \<open>w\<close> stays,
  a window \<open>w\<close> that is still the object \<open>v\<close> stays so or gets an entry, and the keys stay
  distinct.
\<close>

definition snapshot_grows :: "nat \<Rightarrow> window \<Rightarrow> state \<Rightarrow> state \<Rightarrow> bool" where
  "snapshot_grows w v s s' \<longleftrightarrow>
     (if map_of (savedWindowsBeforeDisable s) w = None then True
      else map_of (savedWindowsBeforeDisable s') w \<noteq> None) \<and>
     (if map_of (savedWindowsBeforeDisable s) w = None \<and> find_window s w \<noteq> Some v then True
      else map_of (savedWindowsBeforeDisable s') w \<noteq> None \<or> find_window s' w = Some v) \<and>
     (if distinct (map fst (savedWindowsBeforeDisable s))
      then distinct (map fst (savedWindowsBeforeDisable s')) else True)"

text \<open>\<open>untouched w s s'\<close>: window \<open>w\<close> and its entry of the snapshot are the same in both.\<close>

definition untouched :: "nat \<Rightarrow> state \<Rightarrow> state \<Rightarrow> bool" where
  "untouched w s s' \<longleftrightarrow>
     find_window s' w = find_window s w \<and>
     map_of (savedWindowsBeforeDisable s') w = map_of (savedWindowsBeforeDisable s) w"

text \<open>A host like the one above whose only window is on the secondary monitor.\<close>

definition ex_secondary :: state where
  "ex_secondary = ex_state\<lparr>windows := [ex_window 1 2000 100 (Some 0)],
                            recentlyProcessedWindows := {7}\<rparr>"

text \<open>
  \<open>keeps_window w s s'\<close>: window \<open>w\<close> and its cache entry are the same in both states, and
  so are the workspaces, the monitors and the window objects of the host.
\<close>

definition keeps_window :: "nat \<Rightarrow> state \<Rightarrow> state \<Rightarrow> bool" where
  "keeps_window w s s' \<longleftrightarrow>
     find_window s' w = find_window s w \<and>
     savedWindowPositions s' w = savedWindowPositions s w \<and>
     n_workspaces s' = n_workspaces s \<and>
     monitors s' = monitors s \<and>
     window_ids s' = window_ids s"

text \<open>
  The host above with monitor 1 as the primary monitor, on workspace 2, and its window on
  monitor 1 and workspace 2.
\<close>

definition ex_right :: state where
  "ex_right = ex_state\<lparr>primary_monitor := 1, active_workspace := 2,
                        windows := [ex_window 1 2000 100 (Some 2)]\<rparr>"

text \<open>
  Three monitors side by side, monitor 0 primary on workspace 0, monitors 1 and 2 showing
  workspaces 2 and 1 (as after a swap of the two), and the one window on monitor 1.
\<close>

definition ex_three :: state where
  "ex_three =
     ex_state\<lparr>monitors := [\<lparr>rect_x = 0, rect_y = 0, rect_width = 1920, rect_height = 1080\<rparr>,
                           \<lparr>rect_x = 1920, rect_y = 0, rect_width = 1920, rect_height = 1080\<rparr>,
                           \<lparr>rect_x = 3840, rect_y = 0, rect_width = 1920, rect_height = 1080\<rparr>],
              windows := [ex_window 1 2000 100 (Some 0)],
              monitorWorkspaceMap := [(0, 0), (1, 2), (2, 1)]\<rparr>"

section \<open>Properties\<close>

subsection \<open>Exceptions and loops\<close>

lemma bind_err_simps [simp]:
  "bind_err (Inr a) f = f a"
  "bind_err (Inl e) f = Inl e"
  by (simp_all add: bind_err_def)

lemma need_simps [simp]:
  "need (Some a) = Inr a"
  "need None = Inl TypeError"
  by (simp_all add: need_def)

text \<open>A loop returns when every step on an element of the list returns and keeps \<open>P\<close>.\<close>

lemma foldE_returns:
  assumes step: "\<And>x s. x \<in> set xs \<Longrightarrow> P s \<Longrightarrow> \<exists>s'. f x s = Inr s' \<and> P s'"
      and "P s"
  shows "\<exists>s'. foldE f xs s = Inr s' \<and> P s'"
  using assms
proof (induction xs arbitrary: s)
  case Nil
  then show ?case by simp
next
  case (Cons x xs)
  from Cons.prems(1) [of x s] Cons.prems(2)
  obtain s1 where s1: "f x s = Inr s1" "P s1" by auto
  have "\<exists>s'. foldE f xs s1 = Inr s' \<and> P s'"
    by (rule Cons.IH) (use Cons.prems(1) s1(2) in auto)
  with s1(1) show ?case by simp
qed

lemma host_moves_refl: "host_moves s s"
  by (simp add: host_moves_def)

lemma host_moves_trans: "host_moves a b \<Longrightarrow> host_moves b c \<Longrightarrow> host_moves a c"
  by (cases a, cases b, cases c) (simp add: host_moves_def)

lemma host_moves_fields:
  assumes "host_moves s s'"
  shows "monitors s' = monitors s" "primary_monitor s' = primary_monitor s"
        "monitorWorkspaceMap s' = monitorWorkspaceMap s" "n_workspaces s' = n_workspaces s"
        "active_workspace s' = active_workspace s" "activate_calls s' = activate_calls s"
        "savedWindowPositions s' = savedWindowPositions s"
        "windowsPendingPlacement s' = windowsPendingPlacement s"
        "lastWindowPerWorkspace s' = lastWindowPerWorkspace s"
        "savedWindowsBeforeDisable s' = savedWindowsBeforeDisable s"
        "recentlyProcessedWindows s' = recentlyProcessedWindows s"
        "pointer s' = pointer s" "isInternalSwitch s' = isInternalSwitch s"
proof -
  from assms have e: "s' = s\<lparr>windows := windows s', timers := timers s'\<rparr>"
    by (simp add: host_moves_def)
  show "monitors s' = monitors s" by (subst e) simp
  show "primary_monitor s' = primary_monitor s" by (subst e) simp
  show "monitorWorkspaceMap s' = monitorWorkspaceMap s" by (subst e) simp
  show "n_workspaces s' = n_workspaces s" by (subst e) simp
  show "active_workspace s' = active_workspace s" by (subst e) simp
  show "activate_calls s' = activate_calls s" by (subst e) simp
  show "savedWindowPositions s' = savedWindowPositions s" by (subst e) simp
  show "windowsPendingPlacement s' = windowsPendingPlacement s" by (subst e) simp
  show "lastWindowPerWorkspace s' = lastWindowPerWorkspace s" by (subst e) simp
  show "savedWindowsBeforeDisable s' = savedWindowsBeforeDisable s" by (subst e) simp
  show "recentlyProcessedWindows s' = recentlyProcessedWindows s" by (subst e) simp
  show "pointer s' = pointer s" by (subst e) simp
  show "isInternalSwitch s' = isInternalSwitch s" by (subst e) simp
qed

lemma host_moves_update_window [simp]: "host_moves s (update_window w f s)"
  by (simp add: host_moves_def update_window_def)

lemma host_moves_add_timeout [simp]: "host_moves s (add_timeout ms k s)"
  by (simp add: host_moves_def add_timeout_def)

lemma host_moves_calls:
  "host_moves s (move_frame w x y s)"
  "host_moves s (move_resize_frame w x y wd ht s)"
  "host_moves s (change_workspace w ws s)"
  "host_moves s (move_to_monitor w m s)"
  by (simp_all add: move_frame_def move_resize_frame_def change_workspace_def move_to_monitor_def)

lemma getWindowsOnMonitor_returns:
  "i < length (monitors s) \<Longrightarrow> \<exists>ws. getWindowsOnMonitor s i h = Inr ws"
  by (simp add: getWindowsOnMonitor_def get_monitor_geometry_def Let_def)


subsection \<open>The monitor under the pointer\<close>

lemma first_monitor_with_bound:
  "first_monitor_with P geos i = Some k \<Longrightarrow> i \<le> k \<and> k < i + length geos"
proof (induction geos arbitrary: i)
  case Nil
  then show ?case by simp
next
  case (Cons geo geos)
  show ?case
  proof (cases "P geo")
    case True
    with Cons.prems show ?thesis by simp
  next
    case False
    with Cons.prems have "first_monitor_with P geos (Suc i) = Some k" by simp
    from Cons.IH [OF this] show ?thesis by simp
  qed
qed

lemma first_monitor_with_None:
  "(first_monitor_with P geos i = None) = (\<forall>geo \<in> set geos. \<not> P geo)"
  by (induction geos arbitrary: i) auto

text \<open>
  C10. The lookup of the monitor under the pointer always returns an index: on a host
  whose primary monitor is one of its monitors the index is below the number of
  monitors, and when no monitor's rectangle holds the pointer it is the primary monitor.
\<close>

theorem getMonitorAtPointer_total:
  assumes "primary_monitor s < get_n_monitors s"
  shows "getMonitorAtPointer s < get_n_monitors s \<and>
         ((\<forall>geo \<in> set (monitors s). \<not> point_in (fst (pointer s)) (snd (pointer s)) geo)
            \<longrightarrow> getMonitorAtPointer s = primary_monitor s)"
proof (cases "first_monitor_with (point_in (fst (pointer s)) (snd (pointer s))) (monitors s) 0")
  case None
  then show ?thesis using assms by (simp add: getMonitorAtPointer_def)
next
  case (Some k)
  have inside: "\<not> (\<forall>geo \<in> set (monitors s). \<not> point_in (fst (pointer s)) (snd (pointer s)) geo)"
  proof
    assume "\<forall>geo \<in> set (monitors s). \<not> point_in (fst (pointer s)) (snd (pointer s)) geo"
    then have "first_monitor_with (point_in (fst (pointer s)) (snd (pointer s))) (monitors s) 0 = None"
      by (simp only: first_monitor_with_None)
    with Some show False by simp
  qed
  have "k < length (monitors s)"
    using first_monitor_with_bound [OF Some] by simp
  with Some inside show ?thesis
    by (auto simp add: getMonitorAtPointer_def get_n_monitors_def)
qed


theorem getMonitorAtPointer_total_witness:
  "primary_monitor ex_state < get_n_monitors ex_state \<and>
   getMonitorAtPointer (ex_state\<lparr>pointer := (5000, 100)\<rparr>) = 0 \<and>
   getMonitorAtPointer ex_state = 1"
proof -
  have h: "primary_monitor (ex_state\<lparr>pointer := (5000, 100)\<rparr>)
             < get_n_monitors (ex_state\<lparr>pointer := (5000, 100)\<rparr>)"
    by (simp add: ex_state_def get_n_monitors_def)
  have out: "\<forall>geo \<in> set (monitors (ex_state\<lparr>pointer := (5000, 100)\<rparr>)).
               \<not> point_in (fst (pointer (ex_state\<lparr>pointer := (5000, 100)\<rparr>)))
                    (snd (pointer (ex_state\<lparr>pointer := (5000, 100)\<rparr>))) geo"
    by (simp add: ex_state_def point_in_def)
  have "getMonitorAtPointer (ex_state\<lparr>pointer := (5000, 100)\<rparr>) = 0"
    using getMonitorAtPointer_total [OF h] out by (simp add: ex_state_def)
  moreover have "getMonitorAtPointer ex_state = 1"
    by (simp add: getMonitorAtPointer_def ex_state_def point_in_def)
  moreover have "primary_monitor ex_state < get_n_monitors ex_state"
    by (simp add: ex_state_def get_n_monitors_def)
  ultimately show ?thesis by simp
qed

subsection \<open>One monitor per workspace\<close>

lemma ensureWorkspaceExists_eq:
  "ensureWorkspaceExists i s = s\<lparr>n_workspaces := max (n_workspaces s) (Suc i)\<rparr>"
proof (induction i s rule: ensureWorkspaceExists.induct)
  case (1 i s)
  show ?case
  proof (cases "n_workspaces s \<le> i")
    case True
    then show ?thesis
      using "1.IH" by (subst ensureWorkspaceExists.simps) (simp add: max_def)
  next
    case False
    then show ?thesis
      by (subst ensureWorkspaceExists.simps) (simp add: max_def)
  qed
qed

lemma upt_0_2: "[0..<2] = [0, 1::nat]"
  by code_simp

lemma upt_0_3: "[0..<3] = [0, 1, 2::nat]"
  by code_simp

text \<open>
  Disable on the three-monitor host: the window of monitor 1 goes to the primary
  monitor's coordinates and into the snapshot, with monitor 1 and its workspace 2.
\<close>

lemma disable_ex_three:
  "disable ex_three =
     Inr (ex_three\<lparr>windows := [ex_window 1 80 100 (Some 0)],
                    savedWindowsBeforeDisable :=
                      [(1, \<lparr>si_monitorIndex = 1, si_logicalWs = 2, si_relX = 80, si_relY = 100,
                             si_width = 800, si_height = 600\<rparr>)],
                    monitorWorkspaceMap := [],
                    interfaceSettings := False\<rparr>)"
  by (simp add: ex_three_def ex_state_def ex_window_def disable_def
        restoreWindowsToLogicalWorkspaces_def get_n_monitors_def upt_0_3
        save_monitor_def getWindowsOnMonitor_def get_monitor_geometry_def
        center_in_def save_and_move_def with_window_def find_window_def Let_def
        change_workspace_def move_resize_frame_def update_window_def)

text \<open>
  The map of the three-monitor host has one monitor per workspace. After disable, the
  next enable initialises the map to workspaces 0, 1 and 2, and the restore of the saved
  window then writes workspace 2 back to monitor 1 while monitor 2 keeps workspace 2.
\<close>

lemma restore_shared_workspace:
  "one_monitor_per_workspace (monitorWorkspaceMap ex_three) \<and>
   (\<exists>s1. disable ex_three = Inr s1 \<and>
      monitorWorkspaceMap (initializeMapping s1) = [(0, 0), (1, 1), (2, 2)] \<and>
      monitorWorkspaceMap (restoreSavedSecondaryWindows (initializeMapping s1))
        = [(0, 0), (1, 2), (2, 2)])"
  by (simp add: disable_ex_three)
     (simp add: ex_three_def ex_state_def ex_window_def one_monitor_per_workspace_def
        initializeMapping_def ensureWorkspaceExists_eq get_n_monitors_def upt_0_3 init_step_def
        restoreSavedSecondaryWindows_def restore_saved_def find_window_def
        get_monitor_geometry_def Let_def move_resize_frame_def move_to_monitor_def
        change_workspace_def update_window_def add_timeout_def)

text \<open>
  C1. With two monitors of which monitor 1 is the primary one and the host on workspace
  0, the initial mapping gives workspace 0 to monitor 0, by \<open>(0 + 0) mod 10\<close>, and to the
  primary monitor 1: two monitors show one workspace. The hot-plug handler builds the
  same map. And on the three-monitor host, whose map has one monitor per workspace,
  disable followed by the initial mapping and the restore of the saved window ends with
  monitors 1 and 2 both on workspace 2.
\<close>

theorem initializeMapping_shared_workspace:
  "monitorWorkspaceMap
     (initializeMapping (ex_state\<lparr>primary_monitor := 1, monitorWorkspaceMap := []\<rparr>))
     = [(0, 0), (1, 0)] \<and>
   \<not> one_monitor_per_workspace
       (monitorWorkspaceMap
          (initializeMapping (ex_state\<lparr>primary_monitor := 1, monitorWorkspaceMap := []\<rparr>))) \<and>
   \<not> one_monitor_per_workspace
       (monitorWorkspaceMap (onMonitorsChanged (ex_state\<lparr>primary_monitor := 1\<rparr>))) \<and>
   one_monitor_per_workspace (monitorWorkspaceMap ex_three) \<and>
   (\<exists>s1. disable ex_three = Inr s1 \<and>
      \<not> one_monitor_per_workspace
          (monitorWorkspaceMap (restoreSavedSecondaryWindows (initializeMapping s1))))"
proof -
  have "monitorWorkspaceMap
     (initializeMapping (ex_state\<lparr>primary_monitor := 1, monitorWorkspaceMap := []\<rparr>))
     = [(0, 0), (1, 0)]"
    by (simp add: initializeMapping_def ensureWorkspaceExists_eq ex_state_def
          get_n_monitors_def init_step_def upt_0_2)
  moreover have "monitorWorkspaceMap (onMonitorsChanged (ex_state\<lparr>primary_monitor := 1\<rparr>))
     = [(0, 0), (1, 0)]"
    by (simp add: onMonitorsChanged_def initializeMapping_def ensureWorkspaceExists_eq
          ex_state_def get_n_monitors_def init_step_def upt_0_2)
  moreover obtain s1 where "disable ex_three = Inr s1"
      "monitorWorkspaceMap (restoreSavedSecondaryWindows (initializeMapping s1))
         = [(0, 0), (1, 2), (2, 2)]"
    using restore_shared_workspace by blast
  moreover have "one_monitor_per_workspace (monitorWorkspaceMap ex_three)"
    using restore_shared_workspace by blast
  ultimately show ?thesis
    by (auto simp add: one_monitor_per_workspace_def)
qed

subsection \<open>Switching to the workspace already shown\<close>

text \<open>
  C2. When the map assigns workspace \<open>W\<close> to the monitor under the pointer, a switch to
  \<open>W\<close> returns the state as it was: no window is moved, resized or reassigned, the map
  is unchanged, and so is everything else.
\<close>

theorem switchWorkspace_same_workspace:
  assumes "getMonitorAtPointer s = M"
      and "map_of (monitorWorkspaceMap s) M = Some W"
  shows "switchWorkspace W s = Inr s"
  using assms by (simp add: switchWorkspace_def)

theorem switchWorkspace_same_workspace_witness:
  "getMonitorAtPointer ex_state = 1 \<and>
   map_of (monitorWorkspaceMap ex_state) 1 = Some 2 \<and>
   switchWorkspace 2 ex_state = Inr ex_state"
proof -
  have h1: "getMonitorAtPointer ex_state = 1"
    by (simp add: getMonitorAtPointer_def ex_state_def point_in_def)
  have h2: "map_of (monitorWorkspaceMap ex_state) 1 = Some 2"
    by (simp add: ex_state_def)
  from switchWorkspace_same_workspace [OF h1 h2] h1 h2 show ?thesis by simp
qed

subsection \<open>The ordering of windows\<close>

text \<open>
  C6, as stated, fails: a window at \<open>(100, 49)\<close> is in band 0 and a window at \<open>(0, 51)\<close> in
  band 1, so the band order puts the first before the second; the comparator sees
  vertical positions less than 50 apart, compares \<open>100\<close> with \<open>0\<close> and sorts the second
  window first.
\<close>

theorem compare_position_not_band_order:
  "spec_raster_before
     \<lparr>rect_x = 100, rect_y = 49, rect_width = 800, rect_height = 600\<rparr>
     \<lparr>rect_x = 0, rect_y = 51, rect_width = 800, rect_height = 600\<rparr> \<and>
   compare_position
     \<lparr>rect_x = 100, rect_y = 49, rect_width = 800, rect_height = 600\<rparr>
     \<lparr>rect_x = 0, rect_y = 51, rect_width = 800, rect_height = 600\<rparr> > 0"
  by (simp add: spec_raster_before_def band_def compare_position_def)

text \<open>The comparator is not transitive: three windows, each sorted before the next.\<close>

lemma compare_position_cycle:
  "compare_position \<lparr>rect_x = 0, rect_y = 80, rect_width = 1, rect_height = 1\<rparr>
                    \<lparr>rect_x = 1, rect_y = 40, rect_width = 1, rect_height = 1\<rparr> < 0 \<and>
   compare_position \<lparr>rect_x = 1, rect_y = 40, rect_width = 1, rect_height = 1\<rparr>
                    \<lparr>rect_x = 2, rect_y = 0, rect_width = 1, rect_height = 1\<rparr> < 0 \<and>
   compare_position \<lparr>rect_x = 2, rect_y = 0, rect_width = 1, rect_height = 1\<rparr>
                    \<lparr>rect_x = 0, rect_y = 80, rect_width = 1, rect_height = 1\<rparr> < 0"
  by (simp add: compare_position_def)

lemma same_band_close: "band y1 = band y2 \<Longrightarrow> \<bar>y1 - y2\<bar> < 50"
  unfolding band_def by presburger

lemma far_band_apart: "band y1 + 2 \<le> band y2 \<Longrightarrow> y1 + 50 \<le> y2"
  unfolding band_def by presburger

text \<open>
  C6, amended. The comparator is antisymmetric and sorts \<open>a\<close> before \<open>b\<close> exactly when
  their vertical positions are less than 50 apart and \<open>a\<close> is further left, or they are
  50 or more apart and \<open>a\<close> is higher. It agrees with the band order for two windows in
  the same band, which it orders by ascending horizontal position, and for two windows
  at least two bands apart, which it orders by band.
\<close>

theorem compare_position_rows:
  "compare_position b a = - compare_position a b \<and>
   (compare_position a b < 0 \<longleftrightarrow>
      (if \<bar>rect_y a - rect_y b\<bar> < 50 then rect_x a < rect_x b else rect_y a < rect_y b)) \<and>
   (band (rect_y a) = band (rect_y b) \<longrightarrow> compare_position a b = rect_x a - rect_x b) \<and>
   (band (rect_y a) + 2 \<le> band (rect_y b) \<longrightarrow> compare_position a b < 0)"
proof -
  have "compare_position b a = - compare_position a b"
    by (simp add: compare_position_def abs_minus_commute)
  moreover have "compare_position a b < 0 \<longleftrightarrow>
      (if \<bar>rect_y a - rect_y b\<bar> < 50 then rect_x a < rect_x b else rect_y a < rect_y b)"
    by (simp add: compare_position_def)
  moreover have "band (rect_y a) = band (rect_y b) \<longrightarrow> compare_position a b = rect_x a - rect_x b"
    using same_band_close [of "rect_y a" "rect_y b"] by (simp add: compare_position_def)
  moreover have "band (rect_y a) + 2 \<le> band (rect_y b) \<longrightarrow> compare_position a b < 0"
    using far_band_apart [of "rect_y a" "rect_y b"] by (auto simp add: compare_position_def)
  ultimately show ?thesis by blast
qed

theorem compare_position_rows_witness:
  "band 10 = band 40 \<and>
   compare_position \<lparr>rect_x = 10, rect_y = 10, rect_width = 800, rect_height = 600\<rparr>
                    \<lparr>rect_x = 5, rect_y = 40, rect_width = 800, rect_height = 600\<rparr> = 5 \<and>
   band 10 + 2 \<le> band 120 \<and>
   compare_position \<lparr>rect_x = 10, rect_y = 10, rect_width = 800, rect_height = 600\<rparr>
                    \<lparr>rect_x = 5, rect_y = 120, rect_width = 800, rect_height = 600\<rparr> < 0"
  using compare_position_rows
          [of "\<lparr>rect_x = 5, rect_y = 40, rect_width = 800, rect_height = 600\<rparr>"
              "\<lparr>rect_x = 10, rect_y = 10, rect_width = 800, rect_height = 600\<rparr>"]
        compare_position_rows
          [of "\<lparr>rect_x = 5, rect_y = 120, rect_width = 800, rect_height = 600\<rparr>"
              "\<lparr>rect_x = 10, rect_y = 10, rect_width = 800, rect_height = 600\<rparr>"]
  by (simp add: band_def)

subsection \<open>The workspace key bindings\<close>

lemma upt_0_10: "[0..<10] = [0, 1, 2, 3, 4, 5, 6, 7, 8, 9::nat]"
  by code_simp

lemma number_to_string_digit: "n < 10 \<Longrightarrow> number_to_string n = [''0123456789'' ! n]"
  by (subst number_to_string.simps) simp

lemma bindings_for:
  assumes "i \<in> {0, 1, 2, 3, 4, 5, 6, 7, 8, 9::nat}"
  shows "strv (fold (set_move_binding k) [0..<10] (fold (set_switch_binding k) [0..<10] s))
           (''mmw-switch-ws-'' @ number_to_string i)
         = Some [k @ number_to_string ((i + 1) mod 10)] \<and>
         strv (fold (set_move_binding k) [0..<10] (fold (set_switch_binding k) [0..<10] s))
           (''mmw-move-ws-'' @ number_to_string i)
         = Some [k @ ''<Shift>'' @ number_to_string ((i + 1) mod 10)]"
  using assms
  by (auto simp add: upt_0_10 set_move_binding_def set_switch_binding_def set_strv_def
        number_to_string_digit)

text \<open>
  C8. For the modifier settings Alt, Super and Ctrl, whose keys are \<^verbatim>\<open><Alt>\<close>, \<^verbatim>\<open><Super>\<close>
  and \<^verbatim>\<open><Control>\<close>, and every workspace index \<open>i\<close> from 0 to 9, the update leaves the
  switch binding of \<open>i\<close> at the key followed by the digit \<open>(i + 1) mod 10\<close> and the move
  binding of \<open>i\<close> at the key, \<^verbatim>\<open><Shift>\<close> and that digit.
\<close>

theorem updateWorkspaceKeybindingSettings_rewrites:
  assumes "i \<le> 9"
      and "workspace_modifier s = m"
      and "(m, k) \<in> {(''Alt'', ''<Alt>''), (''Super'', ''<Super>''), (''Ctrl'', ''<Control>'')}"
  shows "strv (updateWorkspaceKeybindingSettings s) (''mmw-switch-ws-'' @ number_to_string i)
           = Some [k @ number_to_string ((i + 1) mod 10)] \<and>
         strv (updateWorkspaceKeybindingSettings s) (''mmw-move-ws-'' @ number_to_string i)
           = Some [k @ ''<Shift>'' @ number_to_string ((i + 1) mod 10)]"
proof -
  have key: "modKey_of (workspace_modifier s) = k"
    using assms(2,3) by (auto simp add: modKey_of_def)
  have i: "i \<in> {0, 1, 2, 3, 4, 5, 6, 7, 8, 9::nat}"
    using assms(1) by auto
  show ?thesis
    using bindings_for [OF i, of k s] key
    by (simp add: updateWorkspaceKeybindingSettings_def Let_def)
qed

theorem updateWorkspaceKeybindingSettings_rewrites_witness:
  "strv (updateWorkspaceKeybindingSettings (ex_state\<lparr>workspace_modifier := ''Ctrl''\<rparr>))
     ''mmw-switch-ws-9'' = Some [''<Control>0''] \<and>
   strv (updateWorkspaceKeybindingSettings (ex_state\<lparr>workspace_modifier := ''Ctrl''\<rparr>))
     ''mmw-move-ws-9'' = Some [''<Control><Shift>0'']"
  using updateWorkspaceKeybindingSettings_rewrites
          [of 9 "ex_state\<lparr>workspace_modifier := ''Ctrl''\<rparr>" "''Ctrl''" "''<Control>''"]
  by (simp add: number_to_string_digit)


subsection \<open>Swap\<close>

lemma swap_move_returns:
  "\<exists>s'. swap_move (Some geo) dest obj i s = Inr s' \<and> host_moves s s'"
  unfolding swap_move_def Let_def
  by (auto split: option.splits
      intro!: host_moves_trans [OF host_moves_calls(2) host_moves_trans [OF host_moves_calls(4)
               host_moves_trans [OF host_moves_add_timeout host_moves_calls(3)]]]
              host_moves_trans [OF host_moves_calls(2) host_moves_trans [OF host_moves_calls(4)
               host_moves_add_timeout]])

lemma swap_loop_returns:
  "\<exists>s'. foldE (swap_move (Some geo) dest obj) infos s = Inr s' \<and> host_moves s s'"
proof (rule foldE_returns [where P = "host_moves s"])
  fix i t
  assume "host_moves s t"
  moreover obtain t' where "swap_move (Some geo) dest obj i t = Inr t'" "host_moves t t'"
    using swap_move_returns by blast
  ultimately show "\<exists>t'. swap_move (Some geo) dest obj i t = Inr t' \<and> host_moves s t'"
    using host_moves_trans by blast
next
  show "host_moves s s" by (rule host_moves_refl)
qed

lemma collect_info_returns: "\<exists>infos. collect_info s (Some geo) ws = Inr infos"
  by (induction ws) (auto split: option.splits)

lemma activate_keeps [simp]:
  "monitorWorkspaceMap (activateWorkspaceWithoutAnimation ws s) = monitorWorkspaceMap s"
  "monitors (activateWorkspaceWithoutAnimation ws s) = monitors s"
  by (simp_all add: activateWorkspaceWithoutAnimation_def Let_def add_timeout_def
        workspace_activate_def show_workspace_def)

text \<open>
  On two monitors of the host a swap returns, and it leaves the map with the two
  workspaces written to the two monitors.
\<close>

lemma performSwap_map:
  assumes "M1 < length (monitors s)" and "M2 < length (monitors s)"
  shows "\<exists>s'. performSwap M1 M2 ws1 ws2 sk s = Inr s' \<and>
           monitorWorkspaceMap s' =
             AList.update M2 ws1 (AList.update M1 ws2 (monitorWorkspaceMap s)) \<and>
           monitors s' = monitors s"
proof -
  obtain windows1 where w1: "getWindowsOnMonitor s M1 False = Inr windows1"
    using getWindowsOnMonitor_returns [OF assms(1)] by blast
  obtain windows2 where w2: "getWindowsOnMonitor s M2 False = Inr windows2"
    using getWindowsOnMonitor_returns [OF assms(2)] by blast
  have g1: "get_monitor_geometry s M1 = Some (monitors s ! M1)"
    using assms(1) by (simp add: get_monitor_geometry_def)
  have g2: "get_monitor_geometry s M2 = Some (monitors s ! M2)"
    using assms(2) by (simp add: get_monitor_geometry_def)
  obtain info1 where i1: "collect_info s (Some (monitors s ! M1)) windows1 = Inr info1"
    using collect_info_returns by blast
  obtain info2 where i2: "collect_info s (Some (monitors s ! M2)) windows2 = Inr info2"
    using collect_info_returns by blast
  define obj where "obj = swap_newGlobalWsObj s M1 M2 ws1 ws2"
  obtain s1 where s1: "foldE (swap_move (Some (monitors s ! M2)) M2 obj) info1 s = Inr s1"
      "host_moves s s1"
    using swap_loop_returns by blast
  obtain s2 where s2: "foldE (swap_move (Some (monitors s ! M1)) M1 obj) info2 s1 = Inr s2"
      "host_moves s1 s2"
    using swap_loop_returns by blast
  have hm: "host_moves s s2" using s1(2) s2(2) by (rule host_moves_trans)
  show ?thesis
    unfolding performSwap_def Let_def
    using w1 w2 g1 g2 i1 i2 s1(1) s2(1) host_moves_fields(1,3) [OF hm]
    by (simp add: obj_def [symmetric] split: option.splits)
qed

lemma update_back:
  "M1 \<noteq> M2 \<Longrightarrow> map_of m M1 = Some W1 \<Longrightarrow> map_of m M2 = Some W2 \<Longrightarrow>
   AList.update M2 W2 (AList.update M1 W1 (AList.update M2 W1 (AList.update M1 W2 m))) = m"
  by (induction m) (auto simp add: AList.update_triv)

text \<open>
  C4. For two distinct monitors of the host that the map shows on \<open>W1\<close> and \<open>W2\<close>, the
  swap returns and exchanges the two entries, the swap of the same two monitors made
  next (now from \<open>W2\<close> and \<open>W1\<close>) returns as well, and the map is then the one before the
  first swap.
\<close>

theorem performSwap_twice:
  assumes "M1 \<noteq> M2"
      and "map_of (monitorWorkspaceMap s) M1 = Some W1"
      and "map_of (monitorWorkspaceMap s) M2 = Some W2"
      and "M1 < get_n_monitors s" and "M2 < get_n_monitors s"
  shows "\<exists>s1 s2. performSwap M1 M2 W1 W2 skip1 s = Inr s1 \<and>
           map_of (monitorWorkspaceMap s1) M1 = Some W2 \<and>
           map_of (monitorWorkspaceMap s1) M2 = Some W1 \<and>
           performSwap M1 M2 W2 W1 skip2 s1 = Inr s2 \<and>
           monitorWorkspaceMap s2 = monitorWorkspaceMap s"
proof -
  from assms(4,5) have v: "M1 < length (monitors s)" "M2 < length (monitors s)"
    by (simp_all add: get_n_monitors_def)
  obtain s1 where s1: "performSwap M1 M2 W1 W2 skip1 s = Inr s1"
      "monitorWorkspaceMap s1 = AList.update M2 W1 (AList.update M1 W2 (monitorWorkspaceMap s))"
      "monitors s1 = monitors s"
    using performSwap_map [OF v] by blast
  have v1: "M1 < length (monitors s1)" "M2 < length (monitors s1)"
    using v s1(3) by simp_all
  obtain s2 where s2: "performSwap M1 M2 W2 W1 skip2 s1 = Inr s2"
      "monitorWorkspaceMap s2 = AList.update M2 W2 (AList.update M1 W1 (monitorWorkspaceMap s1))"
    using performSwap_map [OF v1] by blast
  have same: "monitorWorkspaceMap s2 = monitorWorkspaceMap s"
    using s2(2) s1(2) update_back [OF assms(1,2,3)] by simp
  have "map_of (monitorWorkspaceMap s1) M1 = Some W2"
       "map_of (monitorWorkspaceMap s1) M2 = Some W1"
    using assms(1) by (simp_all add: s1(2) AList.update_conv')
  with s1(1) s2(1) same show ?thesis by blast
qed

theorem performSwap_twice_witness:
  "map_of (monitorWorkspaceMap ex_state) 0 = Some 0 \<and>
   map_of (monitorWorkspaceMap ex_state) 1 = Some 2 \<and>
   (\<exists>s1 s2. performSwap 0 1 0 2 False ex_state = Inr s1 \<and>
      map_of (monitorWorkspaceMap s1) 0 = Some 2 \<and>
      map_of (monitorWorkspaceMap s1) 1 = Some 0 \<and>
      performSwap 0 1 2 0 False s1 = Inr s2 \<and>
      monitorWorkspaceMap s2 = [(0, 0), (1, 2)])"
  using performSwap_twice [of 0 1 ex_state 0 2 False False]
  by (simp add: ex_state_def get_n_monitors_def)


subsection \<open>External workspace change\<close>

lemma activate_commutes_map:
  "activateWorkspaceWithoutAnimation ws (s\<lparr>monitorWorkspaceMap := m\<rparr>)
     = (activateWorkspaceWithoutAnimation ws s)\<lparr>monitorWorkspaceMap := m\<rparr>"
  by (simp add: activateWorkspaceWithoutAnimation_def Let_def add_timeout_def
        workspace_activate_def show_workspace_def)

lemma activate_calls_activate:
  "activate_calls (activateWorkspaceWithoutAnimation ws s) = activate_calls s @ [ws]"
  by (simp add: activateWorkspaceWithoutAnimation_def Let_def add_timeout_def
        workspace_activate_def show_workspace_def)

lemma performSwap_activates:
  assumes "performSwap M1 M2 ws1 ws2 True s = Inr sT"
      and "swap_newGlobalWsObj s M1 M2 ws1 ws2 = Some ws"
      and "M1 = primary_monitor s \<or> M2 = primary_monitor s"
  shows "performSwap M1 M2 ws1 ws2 False s = Inr (activateWorkspaceWithoutAnimation ws sT)"
  using assms
  unfolding performSwap_def Let_def
  by (auto simp add: bind_err_def activate_commutes_map split: sum.splits)

lemma foldE_related:
  assumes step: "\<And>x s s'. f x s = Inr s' \<Longrightarrow> R s s'"
      and refl: "\<And>s. R s s"
      and trans: "\<And>a b c. R a b \<Longrightarrow> R b c \<Longrightarrow> R a c"
      and "foldE f xs s = Inr s'"
  shows "R s s'"
  using assms(4)
proof (induction xs arbitrary: s)
  case Nil
  then show ?case using refl by simp
next
  case (Cons x xs)
  then obtain s1 where s1: "f x s = Inr s1" "foldE f xs s1 = Inr s'"
    by (auto simp add: bind_err_def split: sum.splits)
  from step [OF s1(1)] Cons.IH [OF s1(2)] show ?case by (rule trans)
qed

lemma swap_move_host_moves:
  assumes "swap_move g dest obj i s = Inr s'"
  shows "host_moves s s'"
proof (cases g)
  case None
  with assms show ?thesis by (simp add: swap_move_def)
next
  case (Some geo)
  obtain t where t: "swap_move (Some geo) dest obj i s = Inr t" "host_moves s t"
    using swap_move_returns by blast
  with assms Some show ?thesis by simp
qed

lemma swap_loop_host_moves:
  "foldE (swap_move g dest obj) infos s = Inr s' \<Longrightarrow> host_moves s s'"
  by (rule foldE_related [where f = "swap_move g dest obj"])
     (auto intro: swap_move_host_moves host_moves_refl host_moves_trans)

lemma performSwap_skip_shape:
  assumes "performSwap M1 M2 ws1 ws2 True s = Inr sT"
  shows "\<exists>s2. host_moves s s2 \<and>
           sT = s2\<lparr>monitorWorkspaceMap :=
                     AList.update M2 ws1 (AList.update M1 ws2 (monitorWorkspaceMap s2))\<rparr>"
proof -
  from assms obtain info1 info2 s1 s2 g1 g2 obj
    where l1: "foldE (swap_move g2 M2 obj) info1 s = Inr s1"
      and l2: "foldE (swap_move g1 M1 obj) info2 s1 = Inr s2"
      and sT: "sT = s2\<lparr>monitorWorkspaceMap :=
                     AList.update M2 ws1 (AList.update M1 ws2 (monitorWorkspaceMap s2))\<rparr>"
    unfolding performSwap_def Let_def
    by (auto simp add: bind_err_def split: sum.splits option.splits)
  from swap_loop_host_moves [OF l1] swap_loop_host_moves [OF l2]
  have "host_moves s s2" by (rule host_moves_trans)
  with sT show ?thesis by blast
qed


lemma collect_info_active [simp]:
  "collect_info (s\<lparr>active_workspace := a\<rparr>) g ws = collect_info s g ws"
  by (induction ws) (simp_all add: find_window_def split: option.splits)

lemma swap_move_active:
  "swap_move g d obj i (s\<lparr>active_workspace := a\<rparr>)
     = bind_err (swap_move g d obj i s) (\<lambda>t. Inr (t\<lparr>active_workspace := a\<rparr>))"
  by (cases g)
     (simp_all add: swap_move_def Let_def move_resize_frame_def move_to_monitor_def
        change_workspace_def update_window_def add_timeout_def split: option.splits)

lemma swap_loop_active:
  "foldE (swap_move g d obj) infos (s\<lparr>active_workspace := a\<rparr>)
     = bind_err (foldE (swap_move g d obj) infos s) (\<lambda>t. Inr (t\<lparr>active_workspace := a\<rparr>))"
proof (induction infos arbitrary: s)
  case Nil
  show ?case by simp
next
  case (Cons i infos)
  show ?case
    by (cases "swap_move g d obj i s") (simp_all add: swap_move_active Cons.IH)
qed

lemma activate_overrides_active:
  "activateWorkspaceWithoutAnimation ws (t\<lparr>active_workspace := a\<rparr>)
     = activateWorkspaceWithoutAnimation ws t"
  by (simp add: activateWorkspaceWithoutAnimation_def Let_def add_timeout_def
        workspace_activate_def show_workspace_def)

lemma performSwap_from_any_workspace:
  assumes "swap_newGlobalWsObj s M1 M2 ws1 ws2 = Some ws"
      and "M1 = primary_monitor s \<or> M2 = primary_monitor s"
  shows "performSwap M1 M2 ws1 ws2 False (s\<lparr>active_workspace := a\<rparr>)
           = performSwap M1 M2 ws1 ws2 False s"
proof -
  have "swap_newGlobalWsObj (s\<lparr>active_workspace := a\<rparr>) M1 M2 ws1 ws2
          = swap_newGlobalWsObj s M1 M2 ws1 ws2"
    by (simp add: swap_newGlobalWsObj_def get_workspace_by_index_def Let_def)
  with assms(1)
  have obj: "swap_newGlobalWsObj (s\<lparr>active_workspace := a\<rparr>) M1 M2 ws1 ws2 = Some ws"
    by simp
  have gw: "\<And>m. getWindowsOnMonitor (s\<lparr>active_workspace := a\<rparr>) m False
                 = getWindowsOnMonitor s m False"
    by (simp add: getWindowsOnMonitor_def get_monitor_geometry_def)
  have gg: "\<And>m. get_monitor_geometry (s\<lparr>active_workspace := a\<rparr>) m = get_monitor_geometry s m"
    by (simp add: get_monitor_geometry_def)
  show ?thesis
    unfolding performSwap_def Let_def
    using assms(2)
    by (simp add: obj assms(1) gw gg swap_loop_active bind_err_def activate_overrides_active
          split: sum.splits)
qed

lemma windows_activate:
  "windows (activateWorkspaceWithoutAnimation ws t) = map (set_showing ws) (windows t)"
  by (simp add: activateWorkspaceWithoutAnimation_def Let_def add_timeout_def
        workspace_activate_def show_workspace_def)

lemma set_showing_fields [simp]:
  "stable_sequence (set_showing ws v) = stable_sequence v"
  "win_type (set_showing ws v) = win_type v"
  "skip_taskbar (set_showing ws v) = skip_taskbar v"
  "minimized (set_showing ws v) = minimized v"
  "on_all_workspaces (set_showing ws v) = on_all_workspaces v"
  "frame_rect (set_showing ws v) = frame_rect v"
  "workspace (set_showing ws v) = workspace v"
  "monitor (set_showing ws v) = monitor v"
  "layer (set_showing ws v) = layer v"
  by (simp_all add: set_showing_def)

text \<open>
  C7. The host has changed to workspace \<open>W\<close> by itself, \<open>W\<close> is shown on a monitor \<open>M2\<close>
  other than the primary one, and the primary monitor shows \<open>prev\<close>. Then, wherever the
  pointer is and whatever the switch mode, the handler of the change returns the state
  \<open>sT\<close> of the swap of the primary monitor and \<open>M2\<close> with the activation skipped, in which
  the host has received no \<^verbatim>\<open>activate\<close> call and is on the workspace it was on. The swap
  with the activation, from whichever workspace \<open>a\<close> the host is on, returns \<open>sF\<close>, which
  is \<open>sT\<close> with workspace \<open>W\<close> activated: the same map, the same windows with the same
  frames, monitors and workspaces (the activation only sets which are hidden), and the
  one \<^verbatim>\<open>activate\<close> call. A switch to \<open>W\<close> that is requested with the pointer on the primary
  monitor and not in warp mode is that swap.
\<close>

theorem external_change_swaps_without_activate:
  assumes "\<not> isInternalSwitch s"
      and "active_workspace s = W"
      and "prev = (case map_of (monitorWorkspaceMap s) (primary_monitor s) of
                     Some ws \<Rightarrow> ws | None \<Rightarrow> 0)"
      and "W \<noteq> prev"
      and "getMonitorForWorkspace (monitorWorkspaceMap s) W = Some M2"
      and "M2 \<noteq> primary_monitor s"
      and "primary_monitor s < get_n_monitors s" and "M2 < get_n_monitors s"
      and "W < n_workspaces s"
  shows "\<exists>sT sF.
           onSystemWorkspaceChanged s = Inr sT \<and>
           performSwap (primary_monitor s) M2 prev W True s = Inr sT \<and>
           activate_calls sT = activate_calls s \<and>
           active_workspace sT = active_workspace s \<and>
           (\<forall>a. performSwap (primary_monitor s) M2 prev W False (s\<lparr>active_workspace := a\<rparr>)
                  = Inr sF) \<and>
           sF = activateWorkspaceWithoutAnimation W sT \<and>
           activate_calls sF = activate_calls s @ [W] \<and>
           windows sF = map (set_showing W) (windows sT) \<and>
           map frame_rect (windows sF) = map frame_rect (windows sT) \<and>
           map monitor (windows sF) = map monitor (windows sT) \<and>
           map workspace (windows sF) = map workspace (windows sT) \<and>
           monitorWorkspaceMap sF = monitorWorkspaceMap sT \<and>
           monitorWorkspaceMap sT =
             AList.update M2 prev (AList.update (primary_monitor s) W (monitorWorkspaceMap s)) \<and>
           (getMonitorAtPointer s = primary_monitor s \<and> workspace_switch_mode s \<noteq> ''warp'' \<longrightarrow>
              (\<forall>a. switchWorkspace W (s\<lparr>active_workspace := a\<rparr>) =
                     Inr (switch_post_steps (fst (pointer s)) (snd (pointer s))
                            (primary_monitor s) W sF)))"
proof -
  from assms(7,8) have v: "primary_monitor s < length (monitors s)" "M2 < length (monitors s)"
    by (simp_all add: get_n_monitors_def)
  obtain sT where sT: "performSwap (primary_monitor s) M2 prev W True s = Inr sT"
      "monitorWorkspaceMap sT =
         AList.update M2 prev (AList.update (primary_monitor s) W (monitorWorkspaceMap s))"
    using performSwap_map [OF v] by blast
  have obj: "swap_newGlobalWsObj s (primary_monitor s) M2 prev W = Some W"
    using assms(9) by (simp add: swap_newGlobalWsObj_def get_workspace_by_index_def)
  have sF: "performSwap (primary_monitor s) M2 prev W False (s\<lparr>active_workspace := a\<rparr>)
              = Inr (activateWorkspaceWithoutAnimation W sT)" for a
    using performSwap_activates [OF sT(1) obj] performSwap_from_any_workspace [OF obj]
    by simp
  have ext: "onSystemWorkspaceChanged s = Inr sT"
    using assms(1-6) sT(1) by (simp add: onSystemWorkspaceChanged_def)
  have int: "switchWorkspace W (s\<lparr>active_workspace := a\<rparr>) =
      Inr (switch_post_steps (fst (pointer s)) (snd (pointer s)) (primary_monitor s) W
             (activateWorkspaceWithoutAnimation W sT))"
    if p: "getMonitorAtPointer s = primary_monitor s" and md: "workspace_switch_mode s \<noteq> ''warp''"
    for a
  proof -
    have ens: "ensureWorkspaceExists W (s\<lparr>active_workspace := a\<rparr>) = s\<lparr>active_workspace := a\<rparr>"
      using assms(9) by (simp add: ensureWorkspaceExists_eq max_def)
    have ptr: "getMonitorAtPointer (s\<lparr>active_workspace := a\<rparr>) = primary_monitor s"
      using p by (simp add: getMonitorAtPointer_def split: option.splits)
    show ?thesis
      using assms(3-6) md sF [of a] by (simp add: switchWorkspace_def ens ptr)
  qed
  obtain s2 where s2: "host_moves s s2"
      "sT = s2\<lparr>monitorWorkspaceMap :=
                AList.update M2 prev (AList.update (primary_monitor s) W (monitorWorkspaceMap s2))\<rparr>"
    using performSwap_skip_shape [OF sT(1)] by blast
  have calls: "activate_calls sT = activate_calls s"
    using host_moves_fields(6) [OF s2(1)] by (subst s2(2)) simp
  have act: "active_workspace sT = active_workspace s"
    using host_moves_fields(5) [OF s2(1)] by (subst s2(2)) simp
  have wins: "map frame_rect (map (set_showing W) (windows sT)) = map frame_rect (windows sT)"
      "map monitor (map (set_showing W) (windows sT)) = map monitor (windows sT)"
      "map workspace (map (set_showing W) (windows sT)) = map workspace (windows sT)"
    by (simp_all add: o_def)
  show ?thesis
    using ext sT sF int calls act wins
    by (simp add: activate_calls_activate windows_activate)
qed

theorem external_change_swaps_without_activate_witness:
  "getMonitorForWorkspace
     (monitorWorkspaceMap (ex_state\<lparr>pointer := (100, 100), active_workspace := 2\<rparr>)) 2 = Some 1 \<and>
   (\<exists>sT sF.
      onSystemWorkspaceChanged (ex_state\<lparr>pointer := (100, 100), active_workspace := 2\<rparr>) = Inr sT \<and>
      activate_calls sT = [] \<and>
      switchWorkspace 2 (ex_state\<lparr>pointer := (100, 100)\<rparr>) =
        Inr (switch_post_steps 100 100 0 2 sF) \<and>
      activate_calls sF = [2] \<and>
      map frame_rect (windows sF) = map frame_rect (windows sT) \<and>
      monitorWorkspaceMap sF = [(0, 2), (1, 0)] \<and>
      monitorWorkspaceMap sT = [(0, 2), (1, 0)])"
proof -
  let ?s = "ex_state\<lparr>pointer := (100, 100), active_workspace := 2\<rparr>"
  have m: "getMonitorForWorkspace (monitorWorkspaceMap ?s) 2 = Some 1"
    by (simp add: ex_state_def)
  have "\<exists>sT sF.
           onSystemWorkspaceChanged ?s = Inr sT \<and>
           performSwap (primary_monitor ?s) 1 0 2 True ?s = Inr sT \<and>
           activate_calls sT = activate_calls ?s \<and>
           active_workspace sT = active_workspace ?s \<and>
           (\<forall>a. performSwap (primary_monitor ?s) 1 0 2 False (?s\<lparr>active_workspace := a\<rparr>)
                  = Inr sF) \<and>
           sF = activateWorkspaceWithoutAnimation 2 sT \<and>
           activate_calls sF = activate_calls ?s @ [2] \<and>
           windows sF = map (set_showing 2) (windows sT) \<and>
           map frame_rect (windows sF) = map frame_rect (windows sT) \<and>
           map monitor (windows sF) = map monitor (windows sT) \<and>
           map workspace (windows sF) = map workspace (windows sT) \<and>
           monitorWorkspaceMap sF = monitorWorkspaceMap sT \<and>
           monitorWorkspaceMap sT =
             AList.update 1 0 (AList.update (primary_monitor ?s) 2 (monitorWorkspaceMap ?s)) \<and>
           (getMonitorAtPointer ?s = primary_monitor ?s \<and> workspace_switch_mode ?s \<noteq> ''warp'' \<longrightarrow>
              (\<forall>a. switchWorkspace 2 (?s\<lparr>active_workspace := a\<rparr>) =
                     Inr (switch_post_steps (fst (pointer ?s)) (snd (pointer ?s))
                            (primary_monitor ?s) 2 sF)))"
    by (rule external_change_swaps_without_activate)
       (simp_all add: ex_state_def get_n_monitors_def)
  then obtain sT sF where r:
      "onSystemWorkspaceChanged ?s = Inr sT"
      "activate_calls sT = activate_calls ?s"
      "activate_calls sF = activate_calls ?s @ [2]"
      "map frame_rect (windows sF) = map frame_rect (windows sT)"
      "monitorWorkspaceMap sF = monitorWorkspaceMap sT"
      "monitorWorkspaceMap sT =
         AList.update 1 0 (AList.update (primary_monitor ?s) 2 (monitorWorkspaceMap ?s))"
      "getMonitorAtPointer ?s = primary_monitor ?s \<and> workspace_switch_mode ?s \<noteq> ''warp'' \<longrightarrow>
         (\<forall>a. switchWorkspace 2 (?s\<lparr>active_workspace := a\<rparr>) =
             Inr (switch_post_steps (fst (pointer ?s)) (snd (pointer ?s)) (primary_monitor ?s) 2 sF))"
    by blast
  have "getMonitorAtPointer ?s = primary_monitor ?s \<and> workspace_switch_mode ?s \<noteq> ''warp''"
    by (simp add: ex_state_def getMonitorAtPointer_def point_in_def)
  with r(7) have "switchWorkspace 2 (?s\<lparr>active_workspace := 0\<rparr>) =
             Inr (switch_post_steps (fst (pointer ?s)) (snd (pointer ?s)) (primary_monitor ?s) 2 sF)"
    by blast
  moreover have "?s\<lparr>active_workspace := 0\<rparr> = ex_state\<lparr>pointer := (100, 100)\<rparr>"
    by (simp add: ex_state_def)
  ultimately have sw: "switchWorkspace 2 (ex_state\<lparr>pointer := (100, 100)\<rparr>) =
             Inr (switch_post_steps 100 100 0 2 sF)"
    by (simp add: ex_state_def)
  have "activate_calls sT = []" using r(2) by (simp add: ex_state_def)
  moreover have "activate_calls sF = [2]" using r(3) by (simp add: ex_state_def)
  moreover have "monitorWorkspaceMap sT = [(0, 2), (1, 0)]" using r(6) by (simp add: ex_state_def)
  ultimately show ?thesis using m r(1,4,5) sw by auto
qed


subsection \<open>Placement of a new window\<close>

lemma find_map_same_id:
  assumes "\<And>v. stable_sequence (f v) = stable_sequence v"
  shows "find (\<lambda>v. stable_sequence v = w') (map (\<lambda>v. if stable_sequence v = w then f v else v) ws)
         = (if w' = w then map_option f (find (\<lambda>v. stable_sequence v = w) ws)
            else find (\<lambda>v. stable_sequence v = w') ws)"
  by (induction ws) (auto simp add: assms)

lemma find_window_update_window:
  assumes "\<And>v. stable_sequence (f v) = stable_sequence v"
  shows "find_window (update_window w f s) w'
         = (if w' = w then map_option f (find_window s w) else find_window s w')"
  using find_map_same_id [of f w' w "windows s", OF assms]
  by (simp add: find_window_def update_window_def)

lemma find_window_calls [simp]:
  "find_window (move_frame w x y s) w'
     = (if w' = w
        then map_option (\<lambda>v. v\<lparr>frame_rect := (frame_rect v)\<lparr>rect_x := x, rect_y := y\<rparr>\<rparr>)
               (find_window s w)
        else find_window s w')"
  "find_window (move_resize_frame w x y wd ht s) w'
     = (if w' = w
        then map_option (\<lambda>v. v\<lparr>frame_rect :=
                 \<lparr>rect_x = x, rect_y = y, rect_width = wd, rect_height = ht\<rparr>\<rparr>)
               (find_window s w)
        else find_window s w')"
  "find_window (change_workspace w ws s) w'
     = (if w' = w then map_option (\<lambda>v. v\<lparr>workspace := Some ws\<rparr>) (find_window s w)
        else find_window s w')"
  "find_window (move_to_monitor w m s) w'
     = (if w' = w then map_option (\<lambda>v. v\<lparr>monitor := m\<rparr>) (find_window s w)
        else find_window s w')"
  by (simp_all add: move_frame_def move_resize_frame_def change_workspace_def
        move_to_monitor_def find_window_update_window)

lemma find_window_other_fields [simp]:
  "find_window (s\<lparr>windowsPendingPlacement := p\<rparr>) = find_window s"
  "find_window (s\<lparr>focus_window := fw\<rparr>) = find_window s"
  "find_window (s\<lparr>pointer := pt\<rparr>) = find_window s"
  "find_window (s\<lparr>timers := ts\<rparr>) = find_window s"
  "find_window (s\<lparr>recentlyProcessedWindows := rp\<rparr>) = find_window s"
  "find_window (s\<lparr>savedWindowPositions := sp\<rparr>) = find_window s"
  "find_window (s\<lparr>savedWindowsBeforeDisable := sb\<rparr>) = find_window s"
  by (simp_all add: find_window_def fun_eq_iff)


lemma host_call_fields [simp]:
  "primary_monitor (update_window w f s) = primary_monitor s"
  "active_workspace (update_window w f s) = active_workspace s"
  "n_workspaces (update_window w f s) = n_workspaces s"
  "windowsPendingPlacement (update_window w f s) = windowsPendingPlacement s"
  "warp_pointer_to_focus (update_window w f s) = warp_pointer_to_focus s"
  "monitors (update_window w f s) = monitors s"
  by (simp_all add: update_window_def)








text \<open>
  The placement returns whatever the coordinates are. For a target monitor of width
  zero and a window whose centre is on no monitor, the horizontal coordinate is \<^verbatim>\<open>NaN\<close>:
  the frame gets what the host makes of it, and the monitor, the workspace, the pending
  entry and the focus are set all the same.
\<close>

lemma moveWindowToMonitor_returns:
  "\<exists>t'. moveWindowToMonitor w M windowId t = Inr t'"
  by (simp add: moveWindowToMonitor_def Let_def split: option.splits)

lemma moveWindowToMonitor_nan_goes_on:
  "\<exists>s'. moveWindowToMonitor 1 1 (Some 1)
           (ex_state\<lparr>monitors := [\<lparr>rect_x = 0, rect_y = 0, rect_width = 1920, rect_height = 1080\<rparr>,
                                  \<lparr>rect_x = 1920, rect_y = 0, rect_width = 0, rect_height = 1080\<rparr>],
                      windows := [ex_window 1 5000 100 (Some 3)],
                      nan_coordinate := c,
                      windowsPendingPlacement := [1 \<mapsto> 1]\<rparr>) = Inr s' \<and>
         windowsPendingPlacement s' 1 = None \<and>
         map frame_rect (windows s') =
           [\<lparr>rect_x = c, rect_y = 100, rect_width = 800, rect_height = 600\<rparr>] \<and>
         map monitor (windows s') = [1] \<and>
         map workspace (windows s') = [Some 0] \<and>
         focus_window s' = Some 1"
  by (simp add: ex_state_def ex_window_def moveWindowToMonitor_def find_window_def Let_def
        get_monitor_geometry_def center_in_def js_rem_def js_coord_def
        move_frame_def move_to_monitor_def update_window_def assign_workspace_def
        change_workspace_def finishWindowPlacement_def focus_def)






subsection \<open>The relative-position cache\<close>

lemma window_ids_update_window:
  assumes "\<And>v. stable_sequence (f v) = stable_sequence v"
  shows "window_ids (update_window w f s) = window_ids s"
  by (simp add: window_ids_def update_window_def assms o_def cong: map_cong)

lemma window_ids_calls [simp]:
  "window_ids (move_frame w x y s) = window_ids s"
  "window_ids (move_resize_frame w x y wd ht s) = window_ids s"
  "window_ids (change_workspace w ws s) = window_ids s"
  "window_ids (move_to_monitor w m s) = window_ids s"
  by (simp_all add: move_frame_def move_resize_frame_def change_workspace_def
        move_to_monitor_def window_ids_update_window)

lemma find_window_in_ids: "find_window s w = Some v \<Longrightarrow> w \<in> set (window_ids s)"
  by (auto simp add: find_window_def window_ids_def find_Some_iff)

lemma foldE_append: "foldE f (xs @ ys) s = bind_err (foldE f xs s) (foldE f ys)"
proof (induction xs arbitrary: s)
  case Nil
  show ?case by simp
next
  case (Cons x xs)
  show ?case by (cases "f x s") (simp_all add: Cons.IH)
qed

lemma keeps_window_refl: "keeps_window w s s"
  by (simp add: keeps_window_def)

lemma keeps_window_trans: "keeps_window w a b \<Longrightarrow> keeps_window w b c \<Longrightarrow> keeps_window w a c"
  by (simp add: keeps_window_def)

lemma stash_other:
  assumes "x \<noteq> w"
  shows "\<exists>t'. stash_window (Some geo) prev (Some p) x t = Inr t' \<and> keeps_window w t t'"
proof (cases "find_window t x")
  case None
  then show ?thesis by (simp add: stash_window_def with_window_def keeps_window_refl)
next
  case (Some u)
  with assms show ?thesis
    by (simp add: stash_window_def with_window_def Let_def keeps_window_def)
       (simp add: change_workspace_def update_window_def window_ids_def find_window_def)
qed

lemma restore_other:
  assumes "x \<noteq> w"
  shows "\<exists>t'. restore_window (Some geo) W x t = Inr t' \<and> keeps_window w t t'"
  using assms
  by (auto simp add: restore_window_def keeps_window_def split: option.splits)
     (simp_all add: move_frame_def update_window_def window_ids_def find_window_def)

lemma stash_loop_other:
  assumes "w \<notin> set xs"
  shows "\<exists>t'. foldE (stash_window (Some geo) prev (Some p)) xs t = Inr t' \<and> keeps_window w t t'"
proof (rule foldE_returns [where P = "keeps_window w t"])
  fix x u
  assume "x \<in> set xs" and u: "keeps_window w t u"
  with assms have "x \<noteq> w" by auto
  from stash_other [OF this]
  obtain u' where "stash_window (Some geo) prev (Some p) x u = Inr u'" "keeps_window w u u'"
    by blast
  with u show "\<exists>u'. stash_window (Some geo) prev (Some p) x u = Inr u' \<and> keeps_window w t u'"
    using keeps_window_trans by blast
next
  show "keeps_window w t t" by (rule keeps_window_refl)
qed

lemma restore_loop_other:
  assumes "w \<notin> set xs"
  shows "\<exists>t'. foldE (restore_window (Some geo) W) xs t = Inr t' \<and> keeps_window w t t'"
proof (rule foldE_returns [where P = "keeps_window w t"])
  fix x u
  assume "x \<in> set xs" and u: "keeps_window w t u"
  with assms have "x \<noteq> w" by auto
  from restore_other [OF this]
  obtain u' where "restore_window (Some geo) W x u = Inr u'" "keeps_window w u u'"
    by blast
  with u show "\<exists>u'. restore_window (Some geo) W x u = Inr u' \<and> keeps_window w t u'"
    using keeps_window_trans by blast
next
  show "keeps_window w t t" by (rule keeps_window_refl)
qed

lemma restore_cached:
  assumes "savedWindowPositions t w = Some sp" and "sp_wsIndex sp = W"
      and "find_window t w = Some v"
  shows "\<exists>t'. restore_window (Some geo) W w t = Inr t' \<and>
           find_window t' w =
             Some (v\<lparr>frame_rect := (frame_rect v)\<lparr>rect_x := rect_x geo + sp_relX sp,
                                                  rect_y := rect_y geo + sp_relY sp\<rparr>\<rparr>) \<and>
           savedWindowPositions t' w = None \<and>
           n_workspaces t' = n_workspaces t \<and>
           monitors t' = monitors t \<and>
           window_ids t' = window_ids t"
  using assms
  by (simp add: restore_window_def)
     (simp add: move_frame_def update_window_def window_ids_def)

lemma getWindowsOnWorkspace_distinct:
  "distinct (window_ids s) \<Longrightarrow> distinct (getWindowsOnWorkspace s W)"
  by (simp add: getWindowsOnWorkspace_def window_ids_def distinct_map_filter
        split: option.splits)

lemma getWindowsOnWorkspace_member:
  assumes "find_window s w = Some v"
      and "win_type v = NORMAL" and "\<not> skip_taskbar v" and "\<not> on_all_workspaces v"
      and "workspace v = Some W" and "W < n_workspaces s"
  shows "w \<in> set (getWindowsOnWorkspace s W)"
proof -
  from assms(1) have "v \<in> set (windows s)" "stable_sequence v = w"
    by (auto simp add: find_window_def find_Some_iff)
  with assms(2-6) show ?thesis
    by (force simp add: getWindowsOnWorkspace_def get_workspace_by_index_def)
qed

lemma find_map_ids:
  assumes "\<And>v. stable_sequence (f v) = stable_sequence v"
  shows "find (\<lambda>v. stable_sequence v = w) (map f ws)
         = map_option f (find (\<lambda>v. stable_sequence v = w) ws)"
  by (induction ws) (simp_all add: assms)

lemma activate_window:
  "find_window (activateWorkspaceWithoutAnimation ws s) w
     = map_option (set_showing ws) (find_window s w)"
  "savedWindowPositions (activateWorkspaceWithoutAnimation ws s) = savedWindowPositions s"
  "n_workspaces (activateWorkspaceWithoutAnimation ws s) = n_workspaces s"
  "window_ids (activateWorkspaceWithoutAnimation ws s) = window_ids s"
  by (simp_all add: activateWorkspaceWithoutAnimation_def Let_def add_timeout_def
        workspace_activate_def show_workspace_def find_window_def find_map_ids
        window_ids_def o_def)

lemma show_workspace_window:
  "find_window (show_workspace ws s) w = map_option (set_showing ws) (find_window s w)"
  "savedWindowPositions (show_workspace ws s) = savedWindowPositions s"
  "n_workspaces (show_workspace ws s) = n_workspaces s"
  "monitors (show_workspace ws s) = monitors s"
  "window_ids (show_workspace ws s) = window_ids s"
  "active_workspace (show_workspace ws s) = ws"
  "primary_monitor (show_workspace ws s) = primary_monitor s"
  "monitorWorkspaceMap (show_workspace ws s) = monitorWorkspaceMap s"
  "isInternalSwitch (show_workspace ws s) = isInternalSwitch s"
  by (simp_all add: show_workspace_def find_window_def find_map_ids window_ids_def o_def)

text \<open>With distinct ids, the window object found for an id is the only one with it.\<close>

lemma find_window_unique:
  assumes "find_window s w = Some v" and "distinct (window_ids s)"
      and "u \<in> set (windows s)" and "stable_sequence u = w"
  shows "u = v"
proof -
  from assms(1) have "v \<in> set (windows s)" "stable_sequence v = w"
    by (auto simp add: find_window_def find_Some_iff)
  moreover from assms(2) have "inj_on stable_sequence (set (windows s))"
    by (simp add: window_ids_def distinct_map)
  ultimately show ?thesis using assms(3,4) by (auto dest: inj_onD)
qed

lemma getWindowsOnMonitor_geo:
  assumes "get_monitor_geometry s M = Some geo"
  shows "getWindowsOnMonitor s M False =
           Inr (map stable_sequence
                  (filter (\<lambda>v. center_in (frame_rect v) geo)
                     (filter (\<lambda>v. \<not> skip_taskbar v \<and> win_type v = NORMAL \<and> \<not> hidden v)
                        (windows s))))"
  using assms by (simp add: getWindowsOnMonitor_def)

lemma getWindowsOnMonitor_distinct:
  assumes "getWindowsOnMonitor s M False = Inr xs" and "distinct (window_ids s)"
  shows "distinct xs"
  using assms
  by (auto simp add: getWindowsOnMonitor_def Let_def window_ids_def distinct_map_filter
        split: option.splits if_splits)

lemma getWindowsOnMonitor_member:
  assumes "get_monitor_geometry s M = Some geo" and "find_window s w = Some v"
      and "win_type v = NORMAL" and "\<not> skip_taskbar v" and "\<not> hidden v"
      and "center_in (frame_rect v) geo"
  shows "\<exists>xs. getWindowsOnMonitor s M False = Inr xs \<and> w \<in> set xs"
proof -
  from assms(2) have "v \<in> set (windows s)" "stable_sequence v = w"
    by (auto simp add: find_window_def find_Some_iff)
  with assms(3-6) show ?thesis
    by (force simp add: getWindowsOnMonitor_geo [OF assms(1)])
qed

lemma getWindowsOnMonitor_hidden:
  assumes "get_monitor_geometry s M = Some geo" and "find_window s w = Some v"
      and "hidden v" and "distinct (window_ids s)"
  shows "\<exists>xs. getWindowsOnMonitor s M False = Inr xs \<and> w \<notin> set xs"
  using find_window_unique [OF assms(2,4)] assms(3)
  by (auto simp add: getWindowsOnMonitor_geo [OF assms(1)])

lemma getWindowsOnWorkspace_other:
  assumes "find_window s w = Some v" and "workspace v \<noteq> Some W" and "distinct (window_ids s)"
  shows "w \<notin> set (getWindowsOnWorkspace s W)"
  using find_window_unique [OF assms(1,3)] assms(2)
  by (auto simp add: getWindowsOnWorkspace_def get_workspace_by_index_def)

lemma stash_this:
  assumes "find_window t w = Some v"
  shows "\<exists>t'. stash_window (Some geo) prev (Some p) w t = Inr t' \<and>
           find_window t' w = Some (v\<lparr>workspace := Some p\<rparr>) \<and>
           savedWindowPositions t' w =
             Some \<lparr>sp_relX = rect_x (frame_rect v) - rect_x geo,
                   sp_relY = rect_y (frame_rect v) - rect_y geo, sp_wsIndex = prev\<rparr> \<and>
           n_workspaces t' = n_workspaces t \<and>
           monitors t' = monitors t \<and>
           window_ids t' = window_ids t"
proof -
  let ?sp = "\<lparr>sp_relX = rect_x (frame_rect v) - rect_x geo,
              sp_relY = rect_y (frame_rect v) - rect_y geo, sp_wsIndex = prev\<rparr>"
  define t' where "t' = change_workspace w p
      (t\<lparr>savedWindowPositions := (savedWindowPositions t)(w \<mapsto> ?sp)\<rparr>)"
  have r: "stash_window (Some geo) prev (Some p) w t = Inr t'"
    using assms by (simp add: stash_window_def with_window_def Let_def t'_def)
  have c: "savedWindowPositions t' w = Some ?sp" "n_workspaces t' = n_workspaces t"
      "monitors t' = monitors t"
    by (simp_all add: t'_def change_workspace_def update_window_def)
  have f: "find_window t' w = Some (v\<lparr>workspace := Some p\<rparr>)"
    using assms by (simp add: t'_def)
  have i: "window_ids t' = window_ids t"
    by (simp add: t'_def) (simp add: window_ids_def)
  from r c f i show ?thesis by blast
qed


text \<open>The stash loop stashes the window wherever it stands in the list.\<close>

lemma stash_loop_stashes:
  assumes f: "find_window t w = Some v"
      and m: "w \<in> set xs" and d: "distinct xs"
  shows "\<exists>t'. foldE (stash_window (Some geo) prev (Some p)) xs t = Inr t' \<and>
           find_window t' w = Some (v\<lparr>workspace := Some p\<rparr>) \<and>
           savedWindowPositions t' w =
             Some \<lparr>sp_relX = rect_x (frame_rect v) - rect_x geo,
                   sp_relY = rect_y (frame_rect v) - rect_y geo, sp_wsIndex = prev\<rparr> \<and>
           n_workspaces t' = n_workspaces t \<and>
           monitors t' = monitors t \<and>
           window_ids t' = window_ids t"
proof -
  let ?sp = "\<lparr>sp_relX = rect_x (frame_rect v) - rect_x geo,
              sp_relY = rect_y (frame_rect v) - rect_y geo, sp_wsIndex = prev\<rparr>"
  from m obtain pre post where xs: "xs = pre @ w # post"
    by (auto dest: split_list)
  with d have n: "w \<notin> set pre" "w \<notin> set post" by auto
  obtain t1 where t1: "foldE (stash_window (Some geo) prev (Some p)) pre t = Inr t1"
      "keeps_window w t t1"
    using stash_loop_other [OF n(1)] by blast
  have f1: "find_window t1 w = Some v"
    using t1(2) f by (simp add: keeps_window_def)
  obtain t2 where t2: "stash_window (Some geo) prev (Some p) w t1 = Inr t2"
      "find_window t2 w = Some (v\<lparr>workspace := Some p\<rparr>)"
      "savedWindowPositions t2 w = Some ?sp"
      "n_workspaces t2 = n_workspaces t1" "monitors t2 = monitors t1"
      "window_ids t2 = window_ids t1"
    using stash_this [OF f1] by blast
  obtain t3 where t3: "foldE (stash_window (Some geo) prev (Some p)) post t2 = Inr t3"
      "keeps_window w t2 t3"
    using stash_loop_other [OF n(2)] by blast
  have "foldE (stash_window (Some geo) prev (Some p)) xs t = Inr t3"
    by (simp add: xs foldE_append t1(1) t2(1) t3(1))
  moreover have "find_window t3 w = Some (v\<lparr>workspace := Some p\<rparr>)"
      "savedWindowPositions t3 w = Some ?sp"
      "n_workspaces t3 = n_workspaces t" "monitors t3 = monitors t"
      "window_ids t3 = window_ids t"
    using t3(2) t2(2-6) t1(2) by (simp_all add: keeps_window_def)
  ultimately show ?thesis by blast
qed

text \<open>The restore loop places the cached window wherever it stands in the list.\<close>

lemma restore_loop_places:
  assumes c: "savedWindowPositions t w = Some sp" "sp_wsIndex sp = W"
      and f: "find_window t w = Some v"
      and m: "w \<in> set xs" and d: "distinct xs"
  shows "\<exists>t'. foldE (restore_window (Some geo) W) xs t = Inr t' \<and>
           find_window t' w =
             Some (v\<lparr>frame_rect := (frame_rect v)\<lparr>rect_x := rect_x geo + sp_relX sp,
                                                  rect_y := rect_y geo + sp_relY sp\<rparr>\<rparr>) \<and>
           savedWindowPositions t' w = None \<and>
           n_workspaces t' = n_workspaces t \<and>
           monitors t' = monitors t \<and>
           window_ids t' = window_ids t"
proof -
  from m obtain pre post where xs: "xs = pre @ w # post"
    by (auto dest: split_list)
  with d have n: "w \<notin> set pre" "w \<notin> set post" by auto
  obtain t1 where t1: "foldE (restore_window (Some geo) W) pre t = Inr t1" "keeps_window w t t1"
    using restore_loop_other [OF n(1)] by blast
  have c1: "savedWindowPositions t1 w = Some sp" and f1: "find_window t1 w = Some v"
    using t1(2) c(1) f by (simp_all add: keeps_window_def)
  obtain t2 where t2: "restore_window (Some geo) W w t1 = Inr t2"
      "find_window t2 w =
         Some (v\<lparr>frame_rect := (frame_rect v)\<lparr>rect_x := rect_x geo + sp_relX sp,
                                              rect_y := rect_y geo + sp_relY sp\<rparr>\<rparr>)"
      "savedWindowPositions t2 w = None"
      "n_workspaces t2 = n_workspaces t1" "monitors t2 = monitors t1"
      "window_ids t2 = window_ids t1"
    using restore_cached [OF c1 c(2) f1] by blast
  obtain t3 where t3: "foldE (restore_window (Some geo) W) post t2 = Inr t3" "keeps_window w t2 t3"
    using restore_loop_other [OF n(2)] by blast
  have "foldE (restore_window (Some geo) W) xs t = Inr t3"
    by (simp add: xs foldE_append t1(1) t2(1) t3(1))
  moreover have "find_window t3 w =
         Some (v\<lparr>frame_rect := (frame_rect v)\<lparr>rect_x := rect_x geo + sp_relX sp,
                                              rect_y := rect_y geo + sp_relY sp\<rparr>\<rparr>)"
      "savedWindowPositions t3 w = None"
      "n_workspaces t3 = n_workspaces t" "monitors t3 = monitors t"
      "window_ids t3 = window_ids t"
    using t3(2) t2(2-6) t1(2) by (simp_all add: keeps_window_def)
  ultimately show ?thesis by blast
qed


text \<open>
  The stashing half. A window shown on monitor \<open>M\<close> is stashed by the simple switch away
  from workspace \<open>W\<close>: the cache holds its offset inside \<open>M\<close> tagged with \<open>W\<close>, the window
  is assigned to \<open>W\<close> with its frame as it was, and the host has hidden it.
\<close>

lemma simpleSwitch_Primary_stashes:
  assumes g: "get_monitor_geometry s M = Some geo"
      and f: "find_window s w = Some v"
      and e: "win_type v = NORMAL" "\<not> skip_taskbar v" "\<not> on_all_workspaces v" "\<not> hidden v"
      and c: "center_in (frame_rect v) geo"
      and n: "W < n_workspaces s" "W' < n_workspaces s" "W' \<noteq> W"
      and d: "distinct (window_ids s)"
  shows "\<exists>s1. simpleSwitch_Primary M W W' False s = Inr s1 \<and>
           savedWindowPositions s1 w =
             Some \<lparr>sp_relX = rect_x (frame_rect v) - rect_x geo,
                   sp_relY = rect_y (frame_rect v) - rect_y geo, sp_wsIndex = W\<rparr> \<and>
           find_window s1 w = Some (v\<lparr>workspace := Some W, hidden := True\<rparr>) \<and>
           n_workspaces s1 = n_workspaces s \<and>
           monitors s1 = monitors s \<and>
           window_ids s1 = window_ids s"
proof -
  let ?sp = "\<lparr>sp_relX = rect_x (frame_rect v) - rect_x geo,
              sp_relY = rect_y (frame_rect v) - rect_y geo, sp_wsIndex = W\<rparr>"
  obtain shown where sh: "getWindowsOnMonitor s M False = Inr shown" "w \<in> set shown"
    using getWindowsOnMonitor_member [OF g f e(1,2,4) c] by blast
  have ds: "distinct shown" using sh(1) d by (rule getWindowsOnMonitor_distinct)
  obtain t1 where t1: "foldE (stash_window (Some geo) W (Some W)) shown s = Inr t1"
      "find_window t1 w = Some (v\<lparr>workspace := Some W\<rparr>)"
      "savedWindowPositions t1 w = Some ?sp"
      "n_workspaces t1 = n_workspaces s" "monitors t1 = monitors s"
      "window_ids t1 = window_ids s"
    using stash_loop_stashes [OF f sh(2) ds] by blast
  have "w \<notin> set (getWindowsOnWorkspace t1 W')"
    using n(3) d t1(6) by (intro getWindowsOnWorkspace_other [OF t1(2)]) simp_all
  from restore_loop_other [OF this]
  obtain t2 where t2: "foldE (restore_window (Some geo) W') (getWindowsOnWorkspace t1 W') t1 = Inr t2"
      "keeps_window w t1 t2"
    by blast
  have k: "find_window t2 w = Some (v\<lparr>workspace := Some W\<rparr>)"
      "savedWindowPositions t2 w = Some ?sp"
      "n_workspaces t2 = n_workspaces s" "monitors t2 = monitors s"
      "window_ids t2 = window_ids s"
    using t2(2) t1(2-6) by (simp_all add: keeps_window_def)
  have obj: "get_workspace_by_index s W = Some W" "get_workspace_by_index t1 W' = Some W'"
    using n(1,2) t1(4) by (simp_all add: get_workspace_by_index_def)
  have r: "simpleSwitch_Primary M W W' False s = Inr (activateWorkspaceWithoutAnimation W' t2)"
    by (simp add: simpleSwitch_Primary_def Let_def g sh(1) obj t1(1) t2(1))
  have "set_showing W' (v\<lparr>workspace := Some W\<rparr>) = v\<lparr>workspace := Some W, hidden := True\<rparr>"
    using e(3) n(3) by (simp add: set_showing_def located_on_workspace_def)
  then have "find_window (activateWorkspaceWithoutAnimation W' t2) w
               = Some (v\<lparr>workspace := Some W, hidden := True\<rparr>)"
    by (simp add: activate_window k(1))
  with r k(2-5) show ?thesis by (simp add: activate_window)
qed


text \<open>
  The restoring half. The cache holds the offset \<open>(x, y)\<close> for window \<open>w\<close>, tagged with
  workspace \<open>W\<close>; \<open>w\<close> is a hidden normal window of workspace \<open>W\<close>. Then the simple switch
  of \<open>M\<close> from an existing workspace to \<open>W\<close> returns, leaves the frame of \<open>w\<close> at \<open>M\<close>'s
  origin plus \<open>(x, y)\<close>, and leaves no cache entry for \<open>w\<close>.
\<close>

lemma simpleSwitch_Primary_restores:
  assumes "savedWindowPositions s w = Some \<lparr>sp_relX = x, sp_relY = y, sp_wsIndex = W\<rparr>"
      and "get_monitor_geometry s M = Some geo"
      and "find_window s w = Some v"
      and "win_type v = NORMAL" and "\<not> skip_taskbar v" and "\<not> on_all_workspaces v"
      and "workspace v = Some W" and "hidden v"
      and "W < n_workspaces s" and "prev < n_workspaces s"
      and "distinct (window_ids s)"
  shows "\<exists>s' v'. simpleSwitch_Primary M prev W skipActivate s = Inr s' \<and>
           find_window s' w = Some v' \<and>
           frame_rect v' = (frame_rect v)\<lparr>rect_x := rect_x geo + x, rect_y := rect_y geo + y\<rparr> \<and>
           workspace v' = Some W \<and>
           savedWindowPositions s' w = None"
proof -
  let ?sp = "\<lparr>sp_relX = x, sp_relY = y, sp_wsIndex = W\<rparr>"
  let ?v = "v\<lparr>frame_rect := (frame_rect v)\<lparr>rect_x := rect_x geo + sp_relX ?sp,
                                              rect_y := rect_y geo + sp_relY ?sp\<rparr>\<rparr>"
  obtain shown where sh: "getWindowsOnMonitor s M False = Inr shown" "w \<notin> set shown"
    using getWindowsOnMonitor_hidden [OF assms(2,3,8,11)] by blast
  obtain s1 where s1: "foldE (stash_window (Some geo) prev (Some prev)) shown s = Inr s1"
      "keeps_window w s s1"
    using stash_loop_other [OF sh(2)] by blast
  have k: "find_window s1 w = Some v" "savedWindowPositions s1 w = Some ?sp"
      "n_workspaces s1 = n_workspaces s" "window_ids s1 = window_ids s"
    using s1(2) assms(1,3) by (simp_all add: keeps_window_def)
  have mem: "w \<in> set (getWindowsOnWorkspace s1 W)"
    using getWindowsOnWorkspace_member [OF k(1) assms(4-7)] assms(9) k(3) by simp
  have dis: "distinct (getWindowsOnWorkspace s1 W)"
    using assms(11) k(4) by (simp add: getWindowsOnWorkspace_distinct)
  obtain s2 where s2: "foldE (restore_window (Some geo) W) (getWindowsOnWorkspace s1 W) s1 = Inr s2"
      "find_window s2 w = Some ?v"
      "savedWindowPositions s2 w = None"
    using restore_loop_places [OF k(2) _ k(1) mem dis, where geo = geo] by auto
  have obj: "get_workspace_by_index s prev = Some prev" "get_workspace_by_index s1 W = Some W"
    using assms(9,10) k(3) by (simp_all add: get_workspace_by_index_def)
  show ?thesis
  proof (cases skipActivate)
    case True
    then have "simpleSwitch_Primary M prev W skipActivate s = Inr s2"
      by (simp add: simpleSwitch_Primary_def Let_def assms(2) sh(1) obj s1(1) s2(1))
    with s2(2,3) assms(7) show ?thesis by simp
  next
    case False
    then have "simpleSwitch_Primary M prev W skipActivate s
                 = Inr (activateWorkspaceWithoutAnimation W s2)"
      by (simp add: simpleSwitch_Primary_def Let_def assms(2) sh(1) obj s1(1) s2(1))
    with s2(2,3) assms(7) show ?thesis by (simp add: activate_window)
  qed
qed


text \<open>
  The loop of \<^verbatim>\<open>_saveWorkspaceWindowPositions\<close> changes the cache only: each window of the
  list that is there gets its offset, tagged with the workspace.
\<close>

lemma save_loop_saves:
  "\<exists>c. foldE (save_position (Some geo) i) xs t = Inr (t\<lparr>savedWindowPositions := c\<rparr>) \<and>
        (\<forall>w v. w \<in> set xs \<longrightarrow> find_window t w = Some v \<longrightarrow>
           c w = Some \<lparr>sp_relX = rect_x (frame_rect v) - rect_x geo,
                        sp_relY = rect_y (frame_rect v) - rect_y geo, sp_wsIndex = i\<rparr>) \<and>
        (\<forall>w. w \<notin> set xs \<longrightarrow> c w = savedWindowPositions t w)"
proof (induction xs arbitrary: t)
  case Nil
  have "t\<lparr>savedWindowPositions := savedWindowPositions t\<rparr> = t" by simp
  then show ?case by (intro exI [of _ "savedWindowPositions t"]) simp
next
  case (Cons a as)
  show ?case
  proof (cases "find_window t a")
    case None
    then have r: "save_position (Some geo) i a t = Inr t"
      by (simp add: save_position_def with_window_def)
    from Cons.IH [of t] obtain c where c:
        "foldE (save_position (Some geo) i) as t = Inr (t\<lparr>savedWindowPositions := c\<rparr>)"
        "\<forall>w v. w \<in> set as \<longrightarrow> find_window t w = Some v \<longrightarrow>
           c w = Some \<lparr>sp_relX = rect_x (frame_rect v) - rect_x geo,
                        sp_relY = rect_y (frame_rect v) - rect_y geo, sp_wsIndex = i\<rparr>"
        "\<forall>w. w \<notin> set as \<longrightarrow> c w = savedWindowPositions t w"
      by blast
    show ?thesis
      using None c by (intro exI [of _ c]) (auto simp add: r)
  next
    case (Some u)
    let ?e = "\<lparr>sp_relX = rect_x (frame_rect u) - rect_x geo,
                sp_relY = rect_y (frame_rect u) - rect_y geo, sp_wsIndex = i\<rparr>"
    define t1 where "t1 = t\<lparr>savedWindowPositions := (savedWindowPositions t)(a \<mapsto> ?e)\<rparr>"
    have r: "save_position (Some geo) i a t = Inr t1"
      using Some by (simp add: save_position_def with_window_def t1_def)
    have fw: "find_window t1 = find_window t"
      by (simp add: t1_def find_window_def fun_eq_iff)
    from Cons.IH [of t1] obtain c where c:
        "foldE (save_position (Some geo) i) as t1 = Inr (t1\<lparr>savedWindowPositions := c\<rparr>)"
        "\<forall>w v. w \<in> set as \<longrightarrow> find_window t1 w = Some v \<longrightarrow>
           c w = Some \<lparr>sp_relX = rect_x (frame_rect v) - rect_x geo,
                        sp_relY = rect_y (frame_rect v) - rect_y geo, sp_wsIndex = i\<rparr>"
        "\<forall>w. w \<notin> set as \<longrightarrow> c w = savedWindowPositions t1 w"
      by blast
    have same: "t1\<lparr>savedWindowPositions := c\<rparr> = t\<lparr>savedWindowPositions := c\<rparr>"
      by (simp add: t1_def)
    have "foldE (save_position (Some geo) i) (a # as) t = Inr (t\<lparr>savedWindowPositions := c\<rparr>)"
      by (simp add: r c(1) same)
    moreover have "c w = Some \<lparr>sp_relX = rect_x (frame_rect v) - rect_x geo,
                        sp_relY = rect_y (frame_rect v) - rect_y geo, sp_wsIndex = i\<rparr>"
      if "w \<in> set (a # as)" "find_window t w = Some v" for w v
    proof (cases "w \<in> set as")
      case True
      with c(2) that(2) show ?thesis by (simp add: fw)
    next
      case False
      with that(1) have "w = a" by simp
      with False c(3) that(2) Some show ?thesis by (simp add: t1_def)
    qed
    moreover have "c w = savedWindowPositions t w" if "w \<notin> set (a # as)" for w
      using that c(3) by (simp add: t1_def)
    ultimately show ?thesis by blast
  qed
qed

text \<open>
  The stash of an external change. The host goes from workspace \<open>W\<close>, which the primary
  monitor shows, to a workspace \<open>W'\<close> that no monitor shows, hiding the windows of \<open>W\<close>;
  the handler stashes each window of \<open>W\<close> with its offset inside the primary monitor,
  tagged with \<open>W\<close>.
\<close>

lemma onSystemWorkspaceChanged_stashes:
  assumes g: "get_monitor_geometry s (primary_monitor s) = Some geo"
      and f: "find_window s w = Some v"
      and e: "win_type v = NORMAL" "\<not> skip_taskbar v" "\<not> on_all_workspaces v"
      and ws: "workspace v = Some W"
      and n: "W < n_workspaces s" "W' \<noteq> W"
      and h: "\<not> isInternalSwitch s"
             "map_of (monitorWorkspaceMap s) (primary_monitor s) = Some W"
             "getMonitorForWorkspace (monitorWorkspaceMap s) W' = None"
  shows "\<exists>s1. onSystemWorkspaceChanged (show_workspace W' s) = Inr s1 \<and>
           savedWindowPositions s1 w =
             Some \<lparr>sp_relX = rect_x (frame_rect v) - rect_x geo,
                   sp_relY = rect_y (frame_rect v) - rect_y geo, sp_wsIndex = W\<rparr> \<and>
           find_window s1 w = Some (v\<lparr>hidden := True\<rparr>) \<and>
           n_workspaces s1 = n_workspaces s \<and>
           monitors s1 = monitors s \<and>
           window_ids s1 = window_ids s"
proof -
  let ?sH = "show_workspace W' s"
  have hv: "set_showing W' v = v\<lparr>hidden := True\<rparr>"
    using e(3) ws n(2) by (simp add: set_showing_def located_on_workspace_def)
  have fH: "find_window ?sH w = Some (v\<lparr>hidden := True\<rparr>)"
    by (simp add: show_workspace_window f hv)
  have gH: "get_monitor_geometry ?sH (primary_monitor s) = Some geo"
    using g by (simp add: get_monitor_geometry_def show_workspace_window split: if_splits)
  have mem: "w \<in> set (getWindowsOnWorkspace ?sH W)"
    using e ws n(1)
    by (intro getWindowsOnWorkspace_member [OF fH]) (simp_all add: show_workspace_window)
  obtain c where c:
      "foldE (save_position (Some geo) W) (getWindowsOnWorkspace ?sH W) ?sH
         = Inr (?sH\<lparr>savedWindowPositions := c\<rparr>)"
      "\<forall>w v. w \<in> set (getWindowsOnWorkspace ?sH W) \<longrightarrow> find_window ?sH w = Some v \<longrightarrow>
           c w = Some \<lparr>sp_relX = rect_x (frame_rect v) - rect_x geo,
                        sp_relY = rect_y (frame_rect v) - rect_y geo, sp_wsIndex = W\<rparr>"
    using save_loop_saves [of geo W "getWindowsOnWorkspace ?sH W" ?sH] by blast
  from c(2) mem fH
  have cw: "c w = Some \<lparr>sp_relX = rect_x (frame_rect v) - rect_x geo,
                        sp_relY = rect_y (frame_rect v) - rect_y geo, sp_wsIndex = W\<rparr>"
    by fastforce
  define s1 where "s1 = ?sH\<lparr>savedWindowPositions := c,
      monitorWorkspaceMap := AList.update (primary_monitor s) W' (monitorWorkspaceMap s)\<rparr>"
  have r: "onSystemWorkspaceChanged ?sH = Inr s1"
    using h n(2)
    by (simp add: onSystemWorkspaceChanged_def show_workspace_window
          saveWorkspaceWindowPositions_def gH c(1) s1_def)
  have "find_window s1 w = Some (v\<lparr>hidden := True\<rparr>)"
    using fH by (simp add: s1_def find_window_def)
  moreover have "savedWindowPositions s1 w = c w" "n_workspaces s1 = n_workspaces s"
      "monitors s1 = monitors s" "window_ids s1 = window_ids s"
    by (simp_all add: s1_def show_workspace_window window_ids_def)
       (simp add: show_workspace_def o_def)
  ultimately show ?thesis using r cw by simp
qed


text \<open>
  C3. Window \<open>w\<close> is shown on monitor \<open>M\<close>, which displays workspace \<open>W\<close>. The simple
  switch of \<open>M\<close> to another workspace \<open>W'\<close> stashes the offset of \<open>w\<close> inside \<open>M\<close>, tagged
  with \<open>W\<close>; the simple switch of \<open>M\<close> back to \<open>W\<close> made next, with or without the
  activation, then puts the frame of \<open>w\<close> at \<open>M\<close>'s origin plus the stashed offset, which
  is where it was, and leaves no cache entry for \<open>w\<close>. The same holds when the stash is
  the one made for an external change of the host from \<open>W\<close> to a workspace \<open>W'\<close> that no
  monitor shows, \<open>M\<close> being the primary monitor.
\<close>

theorem stash_restore_roundtrip:
  assumes "get_monitor_geometry s M = Some geo"
      and "find_window s w = Some v"
      and "win_type v = NORMAL" and "\<not> skip_taskbar v" and "\<not> on_all_workspaces v"
      and "\<not> hidden v"
      and "workspace v = Some W"
      and "center_in (frame_rect v) geo"
      and "W < n_workspaces s" and "W' < n_workspaces s" and "W' \<noteq> W"
      and "distinct (window_ids s)"
  shows "(\<exists>s1. simpleSwitch_Primary M W W' False s = Inr s1 \<and>
            savedWindowPositions s1 w =
              Some \<lparr>sp_relX = rect_x (frame_rect v) - rect_x geo,
                    sp_relY = rect_y (frame_rect v) - rect_y geo, sp_wsIndex = W\<rparr> \<and>
            (\<forall>skipActivate. \<exists>s2 v2.
               simpleSwitch_Primary M W' W skipActivate s1 = Inr s2 \<and>
               find_window s2 w = Some v2 \<and>
               rect_x (frame_rect v2) = rect_x geo + (rect_x (frame_rect v) - rect_x geo) \<and>
               rect_y (frame_rect v2) = rect_y geo + (rect_y (frame_rect v) - rect_y geo) \<and>
               frame_rect v2 = frame_rect v \<and>
               savedWindowPositions s2 w = None)) \<and>
         (M = primary_monitor s \<and> \<not> isInternalSwitch s \<and>
          map_of (monitorWorkspaceMap s) M = Some W \<and>
          getMonitorForWorkspace (monitorWorkspaceMap s) W' = None \<longrightarrow>
          (\<exists>s1. onSystemWorkspaceChanged (show_workspace W' s) = Inr s1 \<and>
             savedWindowPositions s1 w =
               Some \<lparr>sp_relX = rect_x (frame_rect v) - rect_x geo,
                     sp_relY = rect_y (frame_rect v) - rect_y geo, sp_wsIndex = W\<rparr> \<and>
             (\<forall>skipActivate. \<exists>s2 v2.
                simpleSwitch_Primary M W' W skipActivate s1 = Inr s2 \<and>
                find_window s2 w = Some v2 \<and>
                rect_x (frame_rect v2) = rect_x geo + (rect_x (frame_rect v) - rect_x geo) \<and>
                rect_y (frame_rect v2) = rect_y geo + (rect_y (frame_rect v) - rect_y geo) \<and>
                frame_rect v2 = frame_rect v \<and>
                savedWindowPositions s2 w = None)))"
proof -
  let ?sp = "\<lparr>sp_relX = rect_x (frame_rect v) - rect_x geo,
              sp_relY = rect_y (frame_rect v) - rect_y geo, sp_wsIndex = W\<rparr>"
  have again: "\<exists>s2 v2. simpleSwitch_Primary M W' W skipActivate s1 = Inr s2 \<and>
               find_window s2 w = Some v2 \<and>
               rect_x (frame_rect v2) = rect_x geo + (rect_x (frame_rect v) - rect_x geo) \<and>
               rect_y (frame_rect v2) = rect_y geo + (rect_y (frame_rect v) - rect_y geo) \<and>
               frame_rect v2 = frame_rect v \<and>
               savedWindowPositions s2 w = None"
    if c: "savedWindowPositions s1 w = Some ?sp"
      and f: "find_window s1 w = Some v1"
      and v1: "win_type v1 = NORMAL" "\<not> skip_taskbar v1" "\<not> on_all_workspaces v1"
              "workspace v1 = Some W" "hidden v1" "frame_rect v1 = frame_rect v"
      and k: "n_workspaces s1 = n_workspaces s" "monitors s1 = monitors s"
             "window_ids s1 = window_ids s"
    for s1 v1 skipActivate
  proof -
    have g1: "get_monitor_geometry s1 M = Some geo"
      using assms(1) k(2) by (simp add: get_monitor_geometry_def split: if_splits)
    have n1: "W < n_workspaces s1" "W' < n_workspaces s1" "distinct (window_ids s1)"
      using assms(9,10,12) k by simp_all
    from simpleSwitch_Primary_restores [OF c g1 f v1(1-5) n1, of skipActivate]
    obtain s2 v2 where r: "simpleSwitch_Primary M W' W skipActivate s1 = Inr s2"
        "find_window s2 w = Some v2"
        "frame_rect v2 = (frame_rect v1)\<lparr>rect_x := rect_x geo + (rect_x (frame_rect v) - rect_x geo),
                                          rect_y := rect_y geo + (rect_y (frame_rect v) - rect_y geo)\<rparr>"
        "savedWindowPositions s2 w = None"
      by blast
    from r(3) v1(6) have "frame_rect v2 = frame_rect v" by simp
    with r(1,2,4) show ?thesis by auto
  qed
  have internal: "\<exists>s1. simpleSwitch_Primary M W W' False s = Inr s1 \<and>
            savedWindowPositions s1 w = Some ?sp \<and>
            (\<forall>skipActivate. \<exists>s2 v2.
               simpleSwitch_Primary M W' W skipActivate s1 = Inr s2 \<and>
               find_window s2 w = Some v2 \<and>
               rect_x (frame_rect v2) = rect_x geo + (rect_x (frame_rect v) - rect_x geo) \<and>
               rect_y (frame_rect v2) = rect_y geo + (rect_y (frame_rect v) - rect_y geo) \<and>
               frame_rect v2 = frame_rect v \<and>
               savedWindowPositions s2 w = None)"
  proof -
    from simpleSwitch_Primary_stashes [OF assms(1-6,8-12)]
    obtain s1 where s1: "simpleSwitch_Primary M W W' False s = Inr s1"
        "savedWindowPositions s1 w = Some ?sp"
        "find_window s1 w = Some (v\<lparr>workspace := Some W, hidden := True\<rparr>)"
        "n_workspaces s1 = n_workspaces s" "monitors s1 = monitors s"
        "window_ids s1 = window_ids s"
      by blast
    have "\<exists>s2 v2. simpleSwitch_Primary M W' W skipActivate s1 = Inr s2 \<and>
               find_window s2 w = Some v2 \<and>
               rect_x (frame_rect v2) = rect_x geo + (rect_x (frame_rect v) - rect_x geo) \<and>
               rect_y (frame_rect v2) = rect_y geo + (rect_y (frame_rect v) - rect_y geo) \<and>
               frame_rect v2 = frame_rect v \<and>
               savedWindowPositions s2 w = None" for skipActivate
      using assms(3-5) by (intro again [OF s1(2,3) _ _ _ _ _ _ s1(4-6)]) simp_all
    with s1(1,2) show ?thesis by blast
  qed
  have external: "\<exists>s1. onSystemWorkspaceChanged (show_workspace W' s) = Inr s1 \<and>
             savedWindowPositions s1 w = Some ?sp \<and>
             (\<forall>skipActivate. \<exists>s2 v2.
                simpleSwitch_Primary M W' W skipActivate s1 = Inr s2 \<and>
                find_window s2 w = Some v2 \<and>
                rect_x (frame_rect v2) = rect_x geo + (rect_x (frame_rect v) - rect_x geo) \<and>
                rect_y (frame_rect v2) = rect_y geo + (rect_y (frame_rect v) - rect_y geo) \<and>
                frame_rect v2 = frame_rect v \<and>
                savedWindowPositions s2 w = None)"
    if p: "M = primary_monitor s" and h: "\<not> isInternalSwitch s"
      "map_of (monitorWorkspaceMap s) M = Some W"
      "getMonitorForWorkspace (monitorWorkspaceMap s) W' = None"
  proof -
    have gp: "get_monitor_geometry s (primary_monitor s) = Some geo"
      using assms(1) p by simp
    have hp: "map_of (monitorWorkspaceMap s) (primary_monitor s) = Some W"
      using h(2) p by simp
    from onSystemWorkspaceChanged_stashes [OF gp assms(2-5,7,9,11) h(1) hp h(3)]
    obtain s1 where s1: "onSystemWorkspaceChanged (show_workspace W' s) = Inr s1"
        "savedWindowPositions s1 w = Some ?sp"
        "find_window s1 w = Some (v\<lparr>hidden := True\<rparr>)"
        "n_workspaces s1 = n_workspaces s" "monitors s1 = monitors s"
        "window_ids s1 = window_ids s"
      by blast
    have "\<exists>s2 v2. simpleSwitch_Primary M W' W skipActivate s1 = Inr s2 \<and>
               find_window s2 w = Some v2 \<and>
               rect_x (frame_rect v2) = rect_x geo + (rect_x (frame_rect v) - rect_x geo) \<and>
               rect_y (frame_rect v2) = rect_y geo + (rect_y (frame_rect v) - rect_y geo) \<and>
               frame_rect v2 = frame_rect v \<and>
               savedWindowPositions s2 w = None" for skipActivate
      using assms(3-5,7) by (intro again [OF s1(2,3) _ _ _ _ _ _ s1(4-6)]) simp_all
    with s1(1,2) show ?thesis by blast
  qed
  from internal external show ?thesis by blast
qed

theorem stash_restore_roundtrip_witness:
  "get_monitor_geometry ex_right 1
     = Some \<lparr>rect_x = 1920, rect_y = 0, rect_width = 1920, rect_height = 1080\<rparr> \<and>
   find_window ex_right 1 = Some (ex_window 1 2000 100 (Some 2)) \<and>
   (\<exists>s1. simpleSwitch_Primary 1 2 3 False ex_right = Inr s1 \<and>
      savedWindowPositions s1 1 = Some \<lparr>sp_relX = 80, sp_relY = 100, sp_wsIndex = 2\<rparr> \<and>
      (\<exists>s2 v2. simpleSwitch_Primary 1 3 2 False s1 = Inr s2 \<and>
         find_window s2 1 = Some v2 \<and>
         frame_rect v2 = \<lparr>rect_x = 2000, rect_y = 100, rect_width = 800, rect_height = 600\<rparr> \<and>
         savedWindowPositions s2 1 = None)) \<and>
   (\<exists>s1. onSystemWorkspaceChanged (show_workspace 3 ex_right) = Inr s1 \<and>
      savedWindowPositions s1 1 = Some \<lparr>sp_relX = 80, sp_relY = 100, sp_wsIndex = 2\<rparr> \<and>
      (\<exists>s2 v2. simpleSwitch_Primary 1 3 2 False s1 = Inr s2 \<and>
         find_window s2 1 = Some v2 \<and>
         frame_rect v2 = \<lparr>rect_x = 2000, rect_y = 100, rect_width = 800, rect_height = 600\<rparr> \<and>
         savedWindowPositions s2 1 = None))"
proof -
  let ?v = "ex_window 1 2000 100 (Some 2)"
  let ?geo = "\<lparr>rect_x = 1920, rect_y = 0, rect_width = 1920, rect_height = 1080\<rparr>"
  let ?sp = "\<lparr>sp_relX = rect_x (frame_rect ?v) - rect_x ?geo,
              sp_relY = rect_y (frame_rect ?v) - rect_y ?geo, sp_wsIndex = 2\<rparr>"
  have h: "get_monitor_geometry ex_right 1 = Some ?geo"
      "find_window ex_right 1 = Some ?v"
      "win_type ?v = NORMAL" "\<not> skip_taskbar ?v" "\<not> on_all_workspaces ?v" "\<not> hidden ?v"
      "workspace ?v = Some 2"
      "center_in (frame_rect ?v) ?geo"
      "2 < n_workspaces ex_right" "3 < n_workspaces ex_right" "(3::nat) \<noteq> 2"
      "distinct (window_ids ex_right)"
    by (simp_all add: ex_right_def ex_state_def ex_window_def get_monitor_geometry_def
          find_window_def center_in_def window_ids_def)
  have e: "1 = primary_monitor ex_right \<and> \<not> isInternalSwitch ex_right \<and>
           map_of (monitorWorkspaceMap ex_right) 1 = Some 2 \<and>
           getMonitorForWorkspace (monitorWorkspaceMap ex_right) 3 = None"
    by (simp add: ex_right_def ex_state_def)
  note r = stash_restore_roundtrip [OF h]
  from r obtain s1 where s1: "simpleSwitch_Primary 1 2 3 False ex_right = Inr s1"
      "savedWindowPositions s1 1 = Some ?sp"
      "\<forall>skipActivate. \<exists>s2 v2.
         simpleSwitch_Primary 1 3 2 skipActivate s1 = Inr s2 \<and>
         find_window s2 1 = Some v2 \<and>
         rect_x (frame_rect v2) = rect_x ?geo + (rect_x (frame_rect ?v) - rect_x ?geo) \<and>
         rect_y (frame_rect v2) = rect_y ?geo + (rect_y (frame_rect ?v) - rect_y ?geo) \<and>
         frame_rect v2 = frame_rect ?v \<and>
         savedWindowPositions s2 1 = None"
    by blast
  from s1(3) obtain s2 v2 where s2: "simpleSwitch_Primary 1 3 2 False s1 = Inr s2"
      "find_window s2 1 = Some v2" "frame_rect v2 = frame_rect ?v"
      "savedWindowPositions s2 1 = None"
    by blast
  from r e obtain t1 where t1: "onSystemWorkspaceChanged (show_workspace 3 ex_right) = Inr t1"
      "savedWindowPositions t1 1 = Some ?sp"
      "\<forall>skipActivate. \<exists>s2 v2.
         simpleSwitch_Primary 1 3 2 skipActivate t1 = Inr s2 \<and>
         find_window s2 1 = Some v2 \<and>
         rect_x (frame_rect v2) = rect_x ?geo + (rect_x (frame_rect ?v) - rect_x ?geo) \<and>
         rect_y (frame_rect v2) = rect_y ?geo + (rect_y (frame_rect ?v) - rect_y ?geo) \<and>
         frame_rect v2 = frame_rect ?v \<and>
         savedWindowPositions s2 1 = None"
    by blast
  from t1(3) obtain t2 u2 where t2: "simpleSwitch_Primary 1 3 2 False t1 = Inr t2"
      "find_window t2 1 = Some u2" "frame_rect u2 = frame_rect ?v"
      "savedWindowPositions t2 1 = None"
    by blast
  have c: "savedWindowPositions s1 1 = Some \<lparr>sp_relX = 80, sp_relY = 100, sp_wsIndex = 2\<rparr>"
      "savedWindowPositions t1 1 = Some \<lparr>sp_relX = 80, sp_relY = 100, sp_wsIndex = 2\<rparr>"
    using s1(2) t1(2) by (simp_all add: ex_window_def)
  have fr: "frame_rect v2 = \<lparr>rect_x = 2000, rect_y = 100, rect_width = 800, rect_height = 600\<rparr>"
      "frame_rect u2 = \<lparr>rect_x = 2000, rect_y = 100, rect_width = 800, rect_height = 600\<rparr>"
    using s2(3) t2(3) by (simp_all add: ex_window_def)
  have a: "\<exists>s1. simpleSwitch_Primary 1 2 3 False ex_right = Inr s1 \<and>
      savedWindowPositions s1 1 = Some \<lparr>sp_relX = 80, sp_relY = 100, sp_wsIndex = 2\<rparr> \<and>
      (\<exists>s2 v2. simpleSwitch_Primary 1 3 2 False s1 = Inr s2 \<and>
         find_window s2 1 = Some v2 \<and>
         frame_rect v2 = \<lparr>rect_x = 2000, rect_y = 100, rect_width = 800, rect_height = 600\<rparr> \<and>
         savedWindowPositions s2 1 = None)"
    using s1(1) c(1) s2(1,2,4) fr(1) by blast
  have b: "\<exists>s1. onSystemWorkspaceChanged (show_workspace 3 ex_right) = Inr s1 \<and>
      savedWindowPositions s1 1 = Some \<lparr>sp_relX = 80, sp_relY = 100, sp_wsIndex = 2\<rparr> \<and>
      (\<exists>s2 v2. simpleSwitch_Primary 1 3 2 False s1 = Inr s2 \<and>
         find_window s2 1 = Some v2 \<and>
         frame_rect v2 = \<lparr>rect_x = 2000, rect_y = 100, rect_width = 800, rect_height = 600\<rparr> \<and>
         savedWindowPositions s2 1 = None)"
    using t1(1) c(2) t2(1,2,4) fr(2) by blast
  from h(1,2) a b show ?thesis by blast
qed

text \<open>
  On the concrete host, with the pointer on the primary monitor: the switch to workspace
  3 stashes the window and the host hides it, and the switch back to workspace 0 leaves
  the window, the cache and the map as they were at the start.
\<close>

lemma switchWorkspace_there_and_back:
  "\<exists>s1 s2. switchWorkspace 3 (ex_state\<lparr>pointer := (100, 100)\<rparr>) = Inr s1 \<and>
      savedWindowPositions s1 1 = Some \<lparr>sp_relX = 100, sp_relY = 100, sp_wsIndex = 0\<rparr> \<and>
      map hidden (windows s1) = [True] \<and>
      monitorWorkspaceMap s1 = [(0, 3), (1, 2)] \<and>
      switchWorkspace 0 s1 = Inr s2 \<and>
      windows s2 = [ex_window 1 100 100 (Some 0)] \<and>
      savedWindowPositions s2 1 = None \<and>
      monitorWorkspaceMap s2 = [(0, 0), (1, 2)]"
  by (simp add: ex_state_def ex_window_def switchWorkspace_def getMonitorAtPointer_def
        point_in_def Let_def ensureWorkspaceExists_eq simpleSwitch_Primary_def
        get_monitor_geometry_def getWindowsOnMonitor_def center_in_def
        get_workspace_by_index_def stash_window_def with_window_def find_window_def
        change_workspace_def update_window_def getWindowsOnWorkspace_def
        restore_window_def move_frame_def activateWorkspaceWithoutAnimation_def
        workspace_activate_def show_workspace_def set_showing_def located_on_workspace_def
        add_timeout_def switch_post_steps_def restorePointerPosition_def doPointerRestore_def)


subsection \<open>Disable\<close>

lemma disable_moves_refl: "disable_moves s s"
  by (simp add: disable_moves_def)

lemma disable_moves_trans: "disable_moves a b \<Longrightarrow> disable_moves b c \<Longrightarrow> disable_moves a c"
  by (cases a, cases b, cases c) (simp add: disable_moves_def window_ids_def)

lemma disable_moves_fields:
  assumes "disable_moves s s'"
  shows "monitors s' = monitors s" "primary_monitor s' = primary_monitor s"
        "monitorWorkspaceMap s' = monitorWorkspaceMap s"
        "active_workspace s' = active_workspace s"
        "savedWindowPositions s' = savedWindowPositions s"
        "lastWindowPerWorkspace s' = lastWindowPerWorkspace s"
        "windowsPendingPlacement s' = windowsPendingPlacement s"
        "recentlyProcessedWindows s' = recentlyProcessedWindows s"
proof -
  from assms have e:
    "s' = s\<lparr>windows := windows s', savedWindowsBeforeDisable := savedWindowsBeforeDisable s'\<rparr>"
    by (simp add: disable_moves_def)
  show "monitors s' = monitors s" by (subst e) simp
  show "primary_monitor s' = primary_monitor s" by (subst e) simp
  show "monitorWorkspaceMap s' = monitorWorkspaceMap s" by (subst e) simp
  show "active_workspace s' = active_workspace s" by (subst e) simp
  show "savedWindowPositions s' = savedWindowPositions s" by (subst e) simp
  show "lastWindowPerWorkspace s' = lastWindowPerWorkspace s" by (subst e) simp
  show "windowsPendingPlacement s' = windowsPendingPlacement s" by (subst e) simp
  show "recentlyProcessedWindows s' = recentlyProcessedWindows s" by (subst e) simp
qed

lemma set_update_subset: "set (AList.update k v al) \<subseteq> insert (k, v) (set al)"
  by (induction al) auto

lemma save_and_move_step:
  assumes "m \<noteq> primary_monitor t" and "m < get_n_monitors t" and "secondary_entries t"
      and "L = (case map_of (monitorWorkspaceMap t) m of Some ws \<Rightarrow> ws | None \<Rightarrow> 0)"
  shows "\<exists>t'. save_and_move (Some pgeo) (Some geo) m L w t = Inr t' \<and>
           disable_moves t t' \<and> secondary_entries t'"
proof (cases "find_window t w")
  case None
  with assms(3) show ?thesis
    by (simp add: save_and_move_def with_window_def disable_moves_refl)
next
  case (Some v)
  define info where "info = \<lparr>si_monitorIndex = m, si_logicalWs = L,
      si_relX = rect_x (frame_rect v) - rect_x geo, si_relY = rect_y (frame_rect v) - rect_y geo,
      si_width = rect_width (frame_rect v), si_height = rect_height (frame_rect v)\<rparr>"
  define t1 where
    "t1 = t\<lparr>savedWindowsBeforeDisable := AList.update w info (savedWindowsBeforeDisable t)\<rparr>"
  define t' where "t' = change_workspace w (active_workspace t1)
      (move_resize_frame w (rect_x pgeo + (rect_x (frame_rect v) - rect_x geo))
         (rect_y pgeo + (rect_y (frame_rect v) - rect_y geo))
         (rect_width (frame_rect v)) (rect_height (frame_rect v)) t1)"
  have r: "save_and_move (Some pgeo) (Some geo) m L w t = Inr t'"
    using Some by (simp add: save_and_move_def with_window_def Let_def t'_def t1_def info_def)
  have ids: "window_ids t' = window_ids t"
    by (simp add: t'_def) (simp add: t1_def window_ids_def)
  have dm: "disable_moves t t'"
    unfolding disable_moves_def
    using ids
    by (simp add: t'_def t1_def change_workspace_def move_resize_frame_def update_window_def)
  have snap: "savedWindowsBeforeDisable t' = AList.update w info (savedWindowsBeforeDisable t)"
    by (simp add: t'_def t1_def change_workspace_def move_resize_frame_def update_window_def)
  have env: "primary_monitor t' = primary_monitor t" "get_n_monitors t' = get_n_monitors t"
      "monitorWorkspaceMap t' = monitorWorkspaceMap t"
    using disable_moves_fields(1-3) [OF dm] by (simp_all add: get_n_monitors_def)
  have "secondary_entries t'"
    unfolding secondary_entries_def snap ids env list_all_iff
  proof
    fix e
    assume "e \<in> set (AList.update w info (savedWindowsBeforeDisable t))"
    then have "e = (w, info) \<or> e \<in> set (savedWindowsBeforeDisable t)"
      using set_update_subset by fastforce
    then show "fst e \<in> set (window_ids t) \<and> si_monitorIndex (snd e) \<noteq> primary_monitor t \<and>
                si_monitorIndex (snd e) < get_n_monitors t \<and>
                si_logicalWs (snd e) =
                  (case map_of (monitorWorkspaceMap t) (si_monitorIndex (snd e)) of
                     Some ws \<Rightarrow> ws | None \<Rightarrow> 0)"
    proof
      assume "e = (w, info)"
      with assms(1,2,4) find_window_in_ids [OF Some] show ?thesis by (simp add: info_def)
    next
      assume "e \<in> set (savedWindowsBeforeDisable t)"
      with assms(3) show ?thesis by (simp add: secondary_entries_def list_all_iff)
    qed
  qed
  with r dm show ?thesis by blast
qed

lemma save_loop_returns:
  assumes "m \<noteq> primary_monitor t" and "m < get_n_monitors t" and "secondary_entries t"
      and "L = (case map_of (monitorWorkspaceMap t) m of Some ws \<Rightarrow> ws | None \<Rightarrow> 0)"
  shows "\<exists>t'. foldE (save_and_move (Some pgeo) (Some geo) m L) ws t = Inr t' \<and>
           disable_moves t t' \<and> secondary_entries t'"
proof (rule foldE_returns [where P = "\<lambda>u. disable_moves t u \<and> secondary_entries u"])
  fix x u
  assume u: "disable_moves t u \<and> secondary_entries u"
  then have env: "m \<noteq> primary_monitor u" "m < get_n_monitors u"
      "L = (case map_of (monitorWorkspaceMap u) m of Some ws \<Rightarrow> ws | None \<Rightarrow> 0)"
    using assms(1,2,4) disable_moves_fields(1-3) [of t u] by (simp_all add: get_n_monitors_def)
  from save_and_move_step [OF env(1,2) _ env(3)] u
  obtain u' where "save_and_move (Some pgeo) (Some geo) m L x u = Inr u'"
      "disable_moves u u'" "secondary_entries u'"
    by blast
  with u show "\<exists>u'. save_and_move (Some pgeo) (Some geo) m L x u = Inr u' \<and>
                 disable_moves t u' \<and> secondary_entries u'"
    using disable_moves_trans by blast
next
  show "disable_moves t t \<and> secondary_entries t"
    using assms(3) by (simp add: disable_moves_refl)
qed

lemma save_monitor_returns:
  assumes "primary_monitor t < get_n_monitors t" and "m < get_n_monitors t"
      and "secondary_entries t"
  shows "\<exists>t'. save_monitor m t = Inr t' \<and> disable_moves t t' \<and> secondary_entries t'"
proof (cases "m = primary_monitor t")
  case True
  with assms(3) show ?thesis by (simp add: save_monitor_def disable_moves_refl)
next
  case False
  from assms(2) have "m < length (monitors t)" by (simp add: get_n_monitors_def)
  from getWindowsOnMonitor_returns [OF this]
  obtain ws where ws: "getWindowsOnMonitor t m False = Inr ws" by blast
  have g: "get_monitor_geometry t (primary_monitor t) = Some (monitors t ! primary_monitor t)"
      "get_monitor_geometry t m = Some (monitors t ! m)"
    using assms(1,2) by (simp_all add: get_monitor_geometry_def get_n_monitors_def)
  show ?thesis
    using False ws save_loop_returns [OF False assms(2,3) refl]
    by (simp add: save_monitor_def Let_def g)
qed

lemma restoreWindowsToLogicalWorkspaces_returns:
  assumes "primary_monitor s < get_n_monitors s"
  shows "\<exists>t. restoreWindowsToLogicalWorkspaces s = Inr t \<and>
           disable_moves s t \<and> secondary_entries t"
proof -
  define s0 where "s0 = s\<lparr>savedWindowsBeforeDisable := []\<rparr>"
  have d0: "disable_moves s s0" by (simp add: s0_def disable_moves_def window_ids_def)
  have e0: "secondary_entries s0" by (simp add: s0_def secondary_entries_def)
  have "\<exists>t. foldE save_monitor [0..<get_n_monitors s] s0 = Inr t \<and>
           (disable_moves s0 t \<and> secondary_entries t)"
  proof (rule foldE_returns [where P = "\<lambda>u. disable_moves s0 u \<and> secondary_entries u"])
    fix m u
    assume m: "m \<in> set [0..<get_n_monitors s]" and u: "disable_moves s0 u \<and> secondary_entries u"
    have same: "monitors u = monitors s" "primary_monitor u = primary_monitor s"
      using disable_moves_fields(1,2) [of s0 u] u by (simp_all add: s0_def)
    then have env: "primary_monitor u < get_n_monitors u" "m < get_n_monitors u"
      using assms m by (simp_all add: get_n_monitors_def)
    from save_monitor_returns [OF env] u
    obtain u' where "save_monitor m u = Inr u'" "disable_moves u u'" "secondary_entries u'"
      by blast
    with u show "\<exists>u'. save_monitor m u = Inr u' \<and> disable_moves s0 u' \<and> secondary_entries u'"
      using disable_moves_trans by blast
  next
    show "disable_moves s0 s0 \<and> secondary_entries s0"
      using e0 by (simp add: disable_moves_refl)
  qed
  then obtain t where t: "foldE save_monitor [0..<get_n_monitors s] s0 = Inr t"
      "disable_moves s0 t" "secondary_entries t"
    by blast
  from d0 t(2) have "disable_moves s t" by (rule disable_moves_trans)
  with t(1,3) show ?thesis
    by (simp add: restoreWindowsToLogicalWorkspaces_def s0_def)
qed

lemma foldE_append_Inr:
  assumes "foldE f (xs @ ys) s = Inr t"
  shows "\<exists>u. foldE f xs s = Inr u \<and> foldE f ys u = Inr t"
  using assms by (cases "foldE f xs s") (simp_all add: foldE_append)

lemma snapshot_grows_refl: "snapshot_grows w v s s"
  by (simp add: snapshot_grows_def)

lemma snapshot_grows_trans:
  "snapshot_grows w v a b \<Longrightarrow> snapshot_grows w v b c \<Longrightarrow> snapshot_grows w v a c"
  unfolding snapshot_grows_def by (auto split: if_splits)

lemma ids_find_window:
  assumes "w \<in> set (window_ids s)"
  shows "\<exists>u. find_window s w = Some u"
proof (cases "find_window s w")
  case None
  with assms show ?thesis
    by (auto simp add: find_window_def window_ids_def find_None_iff)
next
  case (Some u)
  then show ?thesis by blast
qed

text \<open>What one step of the loop does, and what it leaves alone.\<close>

lemma save_and_move_effect:
  assumes "save_and_move pg g m L x t = Inr t'"
  shows "disable_moves t t'"
    and "w \<noteq> x \<Longrightarrow> find_window t' w = find_window t w"
    and "w \<noteq> x \<Longrightarrow> map_of (savedWindowsBeforeDisable t') w = map_of (savedWindowsBeforeDisable t) w"
    and "snapshot_grows w v t t'"
    and "find_window t x = Some u \<Longrightarrow>
           \<exists>pgeo geo. pg = Some pgeo \<and> g = Some geo \<and>
             map_of (savedWindowsBeforeDisable t') x =
               Some \<lparr>si_monitorIndex = m, si_logicalWs = L,
                     si_relX = rect_x (frame_rect u) - rect_x geo,
                     si_relY = rect_y (frame_rect u) - rect_y geo,
                     si_width = rect_width (frame_rect u),
                     si_height = rect_height (frame_rect u)\<rparr> \<and>
             find_window t' x =
               Some (u\<lparr>frame_rect :=
                         \<lparr>rect_x = rect_x pgeo + (rect_x (frame_rect u) - rect_x geo),
                          rect_y = rect_y pgeo + (rect_y (frame_rect u) - rect_y geo),
                          rect_width = rect_width (frame_rect u),
                          rect_height = rect_height (frame_rect u)\<rparr>,
                       workspace := Some (active_workspace t)\<rparr>)"
proof -
  have all: "disable_moves t t' \<and>
      (w \<noteq> x \<longrightarrow> find_window t' w = find_window t w) \<and>
      (w \<noteq> x \<longrightarrow> map_of (savedWindowsBeforeDisable t') w = map_of (savedWindowsBeforeDisable t) w) \<and>
      snapshot_grows w v t t' \<and>
      (\<forall>u. find_window t x = Some u \<longrightarrow>
           (\<exists>pgeo geo. pg = Some pgeo \<and> g = Some geo \<and>
             map_of (savedWindowsBeforeDisable t') x =
               Some \<lparr>si_monitorIndex = m, si_logicalWs = L,
                     si_relX = rect_x (frame_rect u) - rect_x geo,
                     si_relY = rect_y (frame_rect u) - rect_y geo,
                     si_width = rect_width (frame_rect u),
                     si_height = rect_height (frame_rect u)\<rparr> \<and>
             find_window t' x =
               Some (u\<lparr>frame_rect :=
                         \<lparr>rect_x = rect_x pgeo + (rect_x (frame_rect u) - rect_x geo),
                          rect_y = rect_y pgeo + (rect_y (frame_rect u) - rect_y geo),
                          rect_width = rect_width (frame_rect u),
                          rect_height = rect_height (frame_rect u)\<rparr>,
                       workspace := Some (active_workspace t)\<rparr>)))"
  proof (cases "find_window t x")
    case None
    with assms have "t' = t" by (simp add: save_and_move_def with_window_def)
    with None show ?thesis by (simp add: disable_moves_refl snapshot_grows_refl)
  next
    case (Some u)
    with assms obtain pgeo geo where o: "pg = Some pgeo" "g = Some geo"
      by (cases pg; cases g) (simp_all add: save_and_move_def with_window_def need_def Let_def)
    define info where "info = \<lparr>si_monitorIndex = m, si_logicalWs = L,
        si_relX = rect_x (frame_rect u) - rect_x geo, si_relY = rect_y (frame_rect u) - rect_y geo,
        si_width = rect_width (frame_rect u), si_height = rect_height (frame_rect u)\<rparr>"
    define t1 where
      "t1 = t\<lparr>savedWindowsBeforeDisable := AList.update x info (savedWindowsBeforeDisable t)\<rparr>"
    have e: "t' = change_workspace x (active_workspace t1)
        (move_resize_frame x (rect_x pgeo + (rect_x (frame_rect u) - rect_x geo))
           (rect_y pgeo + (rect_y (frame_rect u) - rect_y geo))
           (rect_width (frame_rect u)) (rect_height (frame_rect u)) t1)"
      using assms Some o
      by (simp add: save_and_move_def with_window_def Let_def t1_def info_def)
    have snap: "savedWindowsBeforeDisable t' = AList.update x info (savedWindowsBeforeDisable t)"
      by (simp add: e t1_def change_workspace_def move_resize_frame_def update_window_def)
    have ids: "window_ids t' = window_ids t"
      by (simp add: e) (simp add: t1_def window_ids_def)
    have dm: "disable_moves t t'"
      unfolding disable_moves_def using ids
      by (simp add: e t1_def change_workspace_def move_resize_frame_def update_window_def)
    have other: "find_window t' w = find_window t w" if "w \<noteq> x" for w
      using that by (simp add: e) (simp add: t1_def find_window_def)
    have this_one: "find_window t' x =
               Some (u\<lparr>frame_rect :=
                         \<lparr>rect_x = rect_x pgeo + (rect_x (frame_rect u) - rect_x geo),
                          rect_y = rect_y pgeo + (rect_y (frame_rect u) - rect_y geo),
                          rect_width = rect_width (frame_rect u),
                          rect_height = rect_height (frame_rect u)\<rparr>,
                       workspace := Some (active_workspace t)\<rparr>)"
    proof -
      have "find_window t1 x = Some u" using Some by (simp add: t1_def find_window_def)
      then show ?thesis by (simp add: e) (simp add: t1_def)
    qed
    have grows: "snapshot_grows w v t t'"
      unfolding snapshot_grows_def snap
      using other by (auto simp add: update_conv' distinct_update)
    show ?thesis
      using Some o dm other this_one grows
      by (simp add: snap update_conv' info_def)
  qed
  from all show "disable_moves t t'" by blast
  from all show "w \<noteq> x \<Longrightarrow> find_window t' w = find_window t w" by blast
  from all show "w \<noteq> x \<Longrightarrow>
      map_of (savedWindowsBeforeDisable t') w = map_of (savedWindowsBeforeDisable t) w" by blast
  from all show "snapshot_grows w v t t'" by blast
  from all show "find_window t x = Some u \<Longrightarrow>
           \<exists>pgeo geo. pg = Some pgeo \<and> g = Some geo \<and>
             map_of (savedWindowsBeforeDisable t') x =
               Some \<lparr>si_monitorIndex = m, si_logicalWs = L,
                     si_relX = rect_x (frame_rect u) - rect_x geo,
                     si_relY = rect_y (frame_rect u) - rect_y geo,
                     si_width = rect_width (frame_rect u),
                     si_height = rect_height (frame_rect u)\<rparr> \<and>
             find_window t' x =
               Some (u\<lparr>frame_rect :=
                         \<lparr>rect_x = rect_x pgeo + (rect_x (frame_rect u) - rect_x geo),
                          rect_y = rect_y pgeo + (rect_y (frame_rect u) - rect_y geo),
                          rect_width = rect_width (frame_rect u),
                          rect_height = rect_height (frame_rect u)\<rparr>,
                       workspace := Some (active_workspace t)\<rparr>)" by blast
qed

lemma save_loop_effect:
  assumes "foldE (save_and_move pg g m L) xs t = Inr t'"
  shows "disable_moves t t'" and "snapshot_grows w v t t'"
    and "w \<notin> set xs \<Longrightarrow> untouched w t t'"
proof -
  have "disable_moves t t' \<and> snapshot_grows w v t t' \<and> (w \<notin> set xs \<longrightarrow> untouched w t t')"
    using assms
  proof (induction xs arbitrary: t)
    case Nil
    then show ?case by (simp add: disable_moves_refl snapshot_grows_refl untouched_def)
  next
    case (Cons x xs)
    from Cons.prems obtain t1 where t1: "save_and_move pg g m L x t = Inr t1"
        "foldE (save_and_move pg g m L) xs t1 = Inr t'"
      by (auto simp add: bind_err_def split: sum.splits)
    from Cons.IH [OF t1(2)] save_and_move_effect(1) [OF t1(1)]
      save_and_move_effect(2,3) [OF t1(1), of w] save_and_move_effect(4) [OF t1(1), of w v]
    show ?case
      by (auto simp add: untouched_def intro: disable_moves_trans snapshot_grows_trans)
  qed
  then show "disable_moves t t'" and "snapshot_grows w v t t'"
    and "w \<notin> set xs \<Longrightarrow> untouched w t t'" by blast+
qed


text \<open>A window of the list that the host holds has an entry after the loop.\<close>

lemma save_loop_enters:
  assumes "w \<in> set xs" and "w \<in> set (window_ids t)"
      and "foldE (save_and_move pg g m L) xs t = Inr t'"
  shows "map_of (savedWindowsBeforeDisable t') w \<noteq> None"
  using assms
proof (induction xs arbitrary: t)
  case Nil
  then show ?case by simp
next
  case (Cons x xs)
  from Cons.prems(3) obtain t1 where t1: "save_and_move pg g m L x t = Inr t1"
      "foldE (save_and_move pg g m L) xs t1 = Inr t'"
    by (auto simp add: bind_err_def split: sum.splits)
  show ?case
  proof (cases "x = w")
    case True
    from ids_find_window [OF Cons.prems(2)] obtain u where u: "find_window t w = Some u"
      by blast
    from save_and_move_effect(5) [OF t1(1), of u] u True
    have "map_of (savedWindowsBeforeDisable t1) w \<noteq> None" by auto
    with save_loop_effect(2) [OF t1(2), of w u] show ?thesis
      by (simp add: snapshot_grows_def split: if_splits)
  next
    case False
    with Cons.prems(1) have m: "w \<in> set xs" by simp
    have "window_ids t1 = window_ids t"
      using save_and_move_effect(1) [OF t1(1)] by (simp add: disable_moves_def)
    with Cons.prems(2) have "w \<in> set (window_ids t1)" by simp
    from Cons.IH [OF m this t1(2)] show ?thesis .
  qed
qed

lemma save_monitor_effect:
  assumes "save_monitor k t = Inr t'"
  shows "disable_moves t t'" and "snapshot_grows w v t t'"
proof -
  have "disable_moves t t' \<and> snapshot_grows w v t t'"
  proof (cases "k = primary_monitor t")
    case True
    with assms show ?thesis
      by (simp add: save_monitor_def disable_moves_refl snapshot_grows_refl)
  next
    case False
    with assms obtain ws where
      "foldE (save_and_move (get_monitor_geometry t (primary_monitor t))
                (get_monitor_geometry t k) k
                (case map_of (monitorWorkspaceMap t) k of Some ws \<Rightarrow> ws | None \<Rightarrow> 0)) ws t = Inr t'"
      by (auto simp add: save_monitor_def Let_def bind_err_def split: sum.splits)
    from save_loop_effect(1,2) [OF this] show ?thesis by blast
  qed
  then show "disable_moves t t'" and "snapshot_grows w v t t'" by blast+
qed

lemma monitors_loop_effect:
  assumes "foldE save_monitor ks t = Inr t'"
  shows "disable_moves t t'" and "snapshot_grows w v t t'"
proof -
  have "disable_moves t t' \<and> snapshot_grows w v t t'"
    using assms
  proof (induction ks arbitrary: t)
    case Nil
    then show ?case by (simp add: disable_moves_refl snapshot_grows_refl)
  next
    case (Cons k ks)
    from Cons.prems obtain t1 where t1: "save_monitor k t = Inr t1"
        "foldE save_monitor ks t1 = Inr t'"
      by (auto simp add: bind_err_def split: sum.splits)
    from Cons.IH [OF t1(2)] save_monitor_effect(1) [OF t1(1)]
      save_monitor_effect(2) [OF t1(1), of w v]
    show ?case by (auto intro: disable_moves_trans snapshot_grows_trans)
  qed
  then show "disable_moves t t'" and "snapshot_grows w v t t'" by blast+
qed

text \<open>
  A window whose centre is on the secondary monitor \<open>m\<close> when the monitor's turn comes has
  an entry afterwards.
\<close>

lemma save_monitor_enters:
  assumes "save_monitor m t = Inr t'" and "m \<noteq> primary_monitor t"
      and "find_window t w = Some v"
      and "win_type v = NORMAL" and "\<not> skip_taskbar v" and "\<not> hidden v"
      and "get_monitor_geometry t m = Some geo" and "center_in (frame_rect v) geo"
  shows "map_of (savedWindowsBeforeDisable t') w \<noteq> None"
proof -
  obtain ws where ws: "getWindowsOnMonitor t m False = Inr ws" "w \<in> set ws"
    using getWindowsOnMonitor_member [OF assms(7,3,4,5,6,8)] by blast
  with assms(1,2) have
    "foldE (save_and_move (get_monitor_geometry t (primary_monitor t))
              (get_monitor_geometry t m) m
              (case map_of (monitorWorkspaceMap t) m of Some ws \<Rightarrow> ws | None \<Rightarrow> 0)) ws t = Inr t'"
    by (simp add: save_monitor_def Let_def)
  from save_loop_enters [OF ws(2) find_window_in_ids [OF assms(3)] this] show ?thesis .
qed

text \<open>
  Completeness of the snapshot: every window that \<^verbatim>\<open>_getWindowsOnMonitor\<close> lists on a
  secondary monitor when disable starts has an entry when the loops end.
\<close>

lemma restore_enters:
  assumes r: "restoreWindowsToLogicalWorkspaces s = Inr t"
      and m: "m < get_n_monitors s" "m \<noteq> primary_monitor s"
      and f: "find_window s w = Some v"
      and e: "win_type v = NORMAL" "\<not> skip_taskbar v" "\<not> hidden v"
      and c: "center_in (frame_rect v) (monitors s ! m)"
  shows "map_of (savedWindowsBeforeDisable t) w \<noteq> None"
proof -
  define s0 where "s0 = s\<lparr>savedWindowsBeforeDisable := []\<rparr>"
  have split: "[0..<get_n_monitors s] = [0..<m] @ m # [Suc m..<get_n_monitors s]"
    using m(1) by (metis le0 upt_add_eq_append upt_conv_Cons le_add_diff_inverse less_imp_le_nat)
  from r have "foldE save_monitor ([0..<m] @ m # [Suc m..<get_n_monitors s]) s0 = Inr t"
    by (simp add: restoreWindowsToLogicalWorkspaces_def s0_def split [symmetric])
  from foldE_append_Inr [OF this]
  obtain u1 where u1: "foldE save_monitor [0..<m] s0 = Inr u1"
      "foldE save_monitor (m # [Suc m..<get_n_monitors s]) u1 = Inr t"
    by blast
  from u1(2) obtain u2 where u2: "save_monitor m u1 = Inr u2"
      "foldE save_monitor [Suc m..<get_n_monitors s] u2 = Inr t"
    by (auto simp add: bind_err_def split: sum.splits)
  have f0: "find_window s0 w = Some v" using f by (simp add: s0_def find_window_def)
  have env: "monitors u1 = monitors s" "primary_monitor u1 = primary_monitor s"
    using disable_moves_fields(1,2) [OF monitors_loop_effect(1) [OF u1(1)]]
    by (simp_all add: s0_def)
  have "map_of (savedWindowsBeforeDisable u1) w \<noteq> None \<or> find_window u1 w = Some v"
    using monitors_loop_effect(2) [OF u1(1), of w v] f0
    by (simp add: snapshot_grows_def split: if_splits)
  then have "map_of (savedWindowsBeforeDisable u2) w \<noteq> None"
  proof
    assume "map_of (savedWindowsBeforeDisable u1) w \<noteq> None"
    with save_monitor_effect(2) [OF u2(1), of w v] show ?thesis
      by (simp add: snapshot_grows_def split: if_splits)
  next
    assume f1: "find_window u1 w = Some v"
    have g1: "get_monitor_geometry u1 m = Some (monitors s ! m)"
      using m(1) env by (simp add: get_monitor_geometry_def get_n_monitors_def)
    from save_monitor_enters [OF u2(1) _ f1 e g1 c] m(2) env show ?thesis by simp
  qed
  with monitors_loop_effect(2) [OF u2(2), of w v] show ?thesis
    by (simp add: snapshot_grows_def split: if_splits)
qed

lemma restore_distinct_keys:
  assumes "restoreWindowsToLogicalWorkspaces s = Inr t"
  shows "distinct (map fst (savedWindowsBeforeDisable t))"
proof -
  from assms have "foldE save_monitor [0..<get_n_monitors s] (s\<lparr>savedWindowsBeforeDisable := []\<rparr>) = Inr t"
    by (simp add: restoreWindowsToLogicalWorkspaces_def)
  from monitors_loop_effect(2) [OF this] show ?thesis
    by (simp add: snapshot_grows_def split: if_splits)
qed


lemma untouched_refl: "untouched w s s"
  by (simp add: untouched_def)

lemma untouched_trans: "untouched w a b \<Longrightarrow> untouched w b c \<Longrightarrow> untouched w a c"
  by (simp add: untouched_def)

text \<open>A window whose centre is not on a monitor is not listed on it.\<close>

lemma not_listed:
  assumes "getWindowsOnMonitor t k False = Inr ws"
      and "find_window t w = Some v" and "distinct (window_ids t)"
      and "get_n_monitors t \<le> k \<or> \<not> center_in (frame_rect v) (monitors t ! k)"
  shows "w \<notin> set ws"
proof (cases "k < get_n_monitors t")
  case True
  then have g: "get_monitor_geometry t k = Some (monitors t ! k)"
    by (simp add: get_monitor_geometry_def get_n_monitors_def)
  from assms(4) True have "\<not> center_in (frame_rect v) (monitors t ! k)" by simp
  with assms(1) find_window_unique [OF assms(2,3)] show ?thesis
    by (auto simp add: getWindowsOnMonitor_geo [OF g])
next
  case False
  then have "get_monitor_geometry t k = None"
    by (simp add: get_monitor_geometry_def get_n_monitors_def)
  with assms(1) show ?thesis
    by (auto simp add: getWindowsOnMonitor_def Let_def split: if_splits)
qed

lemma save_monitor_untouched:
  assumes "save_monitor k t = Inr t'"
      and "find_window t w = Some v" and "distinct (window_ids t)"
      and "k = primary_monitor t \<or> get_n_monitors t \<le> k \<or>
           \<not> center_in (frame_rect v) (monitors t ! k)"
  shows "untouched w t t'"
proof (cases "k = primary_monitor t")
  case True
  with assms(1) show ?thesis by (simp add: save_monitor_def untouched_refl)
next
  case False
  with assms(1) obtain ws where ws: "getWindowsOnMonitor t k False = Inr ws"
    "foldE (save_and_move (get_monitor_geometry t (primary_monitor t))
              (get_monitor_geometry t k) k
              (case map_of (monitorWorkspaceMap t) k of Some ws \<Rightarrow> ws | None \<Rightarrow> 0)) ws t = Inr t'"
    by (auto simp add: save_monitor_def Let_def bind_err_def split: sum.splits)
  from assms(4) False
  have "get_n_monitors t \<le> k \<or> \<not> center_in (frame_rect v) (monitors t ! k)" by simp
  from not_listed [OF ws(1) assms(2,3) this] save_loop_effect(3) [OF ws(2)]
  show ?thesis by simp
qed

lemma monitors_loop_untouched:
  assumes "foldE save_monitor ks t = Inr t'"
      and "find_window t w = Some v" and "distinct (window_ids t)"
      and "\<forall>k\<in>set ks. k = primary_monitor t \<or> get_n_monitors t \<le> k \<or>
                        \<not> center_in (frame_rect v) (monitors t ! k)"
  shows "untouched w t t'"
  using assms
proof (induction ks arbitrary: t)
  case Nil
  then show ?case by (simp add: untouched_refl)
next
  case (Cons k ks)
  from Cons.prems(1) obtain t1 where t1: "save_monitor k t = Inr t1"
      "foldE save_monitor ks t1 = Inr t'"
    by (auto simp add: bind_err_def split: sum.splits)
  from Cons.prems(4)
  have k: "k = primary_monitor t \<or> get_n_monitors t \<le> k \<or>
           \<not> center_in (frame_rect v) (monitors t ! k)" by simp
  have u1: "untouched w t t1"
    using save_monitor_untouched [OF t1(1) Cons.prems(2,3) k] .
  have dm: "disable_moves t t1" using save_monitor_effect(1) [OF t1(1)] .
  have f1: "find_window t1 w = Some v"
    using u1 Cons.prems(2) by (simp add: untouched_def)
  have d1: "distinct (window_ids t1)"
    using dm Cons.prems(3) by (simp add: disable_moves_def)
  have rest: "\<forall>k\<in>set ks. k = primary_monitor t1 \<or> get_n_monitors t1 \<le> k \<or>
                        \<not> center_in (frame_rect v) (monitors t1 ! k)"
    using Cons.prems(4) disable_moves_fields(1,2) [OF dm] by (simp add: get_n_monitors_def)
  from Cons.IH [OF t1(2) f1 d1 rest] u1 show ?case by (rule untouched_trans [rotated])
qed

text \<open>The turn of the secondary monitor \<open>m\<close> that holds the centre of the window.\<close>

lemma save_monitor_records:
  assumes r: "save_monitor m t = Inr t'" and m: "m \<noteq> primary_monitor t"
      and f: "find_window t w = Some v"
      and e: "win_type v = NORMAL" "\<not> skip_taskbar v" "\<not> hidden v"
      and g: "get_monitor_geometry t m = Some geo" and c: "center_in (frame_rect v) geo"
      and d: "distinct (window_ids t)"
  shows "\<exists>pgeo. get_monitor_geometry t (primary_monitor t) = Some pgeo \<and>
           map_of (savedWindowsBeforeDisable t') w =
             Some \<lparr>si_monitorIndex = m,
                   si_logicalWs = (case map_of (monitorWorkspaceMap t) m of
                                     Some ws \<Rightarrow> ws | None \<Rightarrow> 0),
                   si_relX = rect_x (frame_rect v) - rect_x geo,
                   si_relY = rect_y (frame_rect v) - rect_y geo,
                   si_width = rect_width (frame_rect v),
                   si_height = rect_height (frame_rect v)\<rparr> \<and>
           find_window t' w =
             Some (v\<lparr>frame_rect :=
                       \<lparr>rect_x = rect_x pgeo + (rect_x (frame_rect v) - rect_x geo),
                        rect_y = rect_y pgeo + (rect_y (frame_rect v) - rect_y geo),
                        rect_width = rect_width (frame_rect v),
                        rect_height = rect_height (frame_rect v)\<rparr>,
                     workspace := Some (active_workspace t)\<rparr>)"
proof -
  let ?L = "case map_of (monitorWorkspaceMap t) m of Some ws \<Rightarrow> ws | None \<Rightarrow> 0"
  let ?f = "save_and_move (get_monitor_geometry t (primary_monitor t)) (Some geo) m ?L"
  obtain ws where ws: "getWindowsOnMonitor t m False = Inr ws" "w \<in> set ws"
    using getWindowsOnMonitor_member [OF g f e c] by blast
  have dw: "distinct ws" using ws(1) d by (rule getWindowsOnMonitor_distinct)
  from r m ws(1) g have l: "foldE ?f ws t = Inr t'"
    by (simp add: save_monitor_def Let_def)
  from ws(2) obtain pre post where xs: "ws = pre @ w # post"
    by (auto dest: split_list)
  with dw have n: "w \<notin> set pre" "w \<notin> set post" by auto
  from l xs foldE_append_Inr [of ?f pre "w # post" t t']
  obtain u1 where u1: "foldE ?f pre t = Inr u1" "foldE ?f (w # post) u1 = Inr t'"
    by auto
  from u1(2) obtain u2 where u2: "?f w u1 = Inr u2" "foldE ?f post u2 = Inr t'"
    by (auto simp add: bind_err_def split: sum.splits)
  have k1: "untouched w t u1" using save_loop_effect(3) [OF u1(1) n(1)] .
  have a1: "active_workspace u1 = active_workspace t"
    using disable_moves_fields(4) [OF save_loop_effect(1) [OF u1(1)]] .
  have f1: "find_window u1 w = Some v" using k1 f by (simp add: untouched_def)
  from save_and_move_effect(5) [OF u2(1) f1]
  obtain pgeo where p: "get_monitor_geometry t (primary_monitor t) = Some pgeo"
      "map_of (savedWindowsBeforeDisable u2) w =
             Some \<lparr>si_monitorIndex = m, si_logicalWs = ?L,
                   si_relX = rect_x (frame_rect v) - rect_x geo,
                   si_relY = rect_y (frame_rect v) - rect_y geo,
                   si_width = rect_width (frame_rect v),
                   si_height = rect_height (frame_rect v)\<rparr>"
      "find_window u2 w =
             Some (v\<lparr>frame_rect :=
                       \<lparr>rect_x = rect_x pgeo + (rect_x (frame_rect v) - rect_x geo),
                        rect_y = rect_y pgeo + (rect_y (frame_rect v) - rect_y geo),
                        rect_width = rect_width (frame_rect v),
                        rect_height = rect_height (frame_rect v)\<rparr>,
                     workspace := Some (active_workspace u1)\<rparr>)"
    by auto
  have k2: "untouched w u2 t'" using save_loop_effect(3) [OF u2(2) n(2)] .
  from p k2 a1 show ?thesis by (simp add: untouched_def)
qed


text \<open>
  What the snapshot records. Window \<open>w\<close> has its centre on the secondary monitor \<open>m\<close> and on
  no secondary monitor before \<open>m\<close>, and once moved to the primary monitor's coordinates
  its centre is on no secondary monitor after \<open>m\<close>. Then its entry records \<open>m\<close>, the
  workspace the map gives \<open>m\<close>, its offset inside \<open>m\<close> and its size, and the window stands
  at the same offset from the primary monitor's origin, on the active workspace.
\<close>

lemma restore_records:
  assumes r: "restoreWindowsToLogicalWorkspaces s = Inr t"
      and m: "m < get_n_monitors s" "m \<noteq> primary_monitor s"
      and f: "find_window s w = Some v"
      and e: "win_type v = NORMAL" "\<not> skip_taskbar v" "\<not> hidden v"
      and c: "center_in (frame_rect v) (monitors s ! m)"
      and d: "distinct (window_ids s)"
      and moved: "moved =
             \<lparr>rect_x = rect_x (monitors s ! primary_monitor s)
                         + (rect_x (frame_rect v) - rect_x (monitors s ! m)),
              rect_y = rect_y (monitors s ! primary_monitor s)
                         + (rect_y (frame_rect v) - rect_y (monitors s ! m)),
              rect_width = rect_width (frame_rect v),
              rect_height = rect_height (frame_rect v)\<rparr>"
      and first: "\<forall>k\<in>set [0..<m]. k = primary_monitor s \<or>
                    \<not> center_in (frame_rect v) (monitors s ! k)"
      and later: "\<forall>k\<in>set [Suc m..<get_n_monitors s]. k = primary_monitor s \<or>
                    \<not> center_in moved (monitors s ! k)"
  shows "map_of (savedWindowsBeforeDisable t) w =
           Some \<lparr>si_monitorIndex = m,
                 si_logicalWs = (case map_of (monitorWorkspaceMap s) m of
                                   Some ws \<Rightarrow> ws | None \<Rightarrow> 0),
                 si_relX = rect_x (frame_rect v) - rect_x (monitors s ! m),
                 si_relY = rect_y (frame_rect v) - rect_y (monitors s ! m),
                 si_width = rect_width (frame_rect v),
                 si_height = rect_height (frame_rect v)\<rparr> \<and>
         find_window t w =
           Some (v\<lparr>frame_rect := moved, workspace := Some (active_workspace s)\<rparr>)"
proof -
  define s0 where "s0 = s\<lparr>savedWindowsBeforeDisable := []\<rparr>"
  have split: "[0..<get_n_monitors s] = [0..<m] @ m # [Suc m..<get_n_monitors s]"
    using m(1) by (metis le0 upt_add_eq_append upt_conv_Cons le_add_diff_inverse less_imp_le_nat)
  from r have "foldE save_monitor ([0..<m] @ m # [Suc m..<get_n_monitors s]) s0 = Inr t"
    by (simp add: restoreWindowsToLogicalWorkspaces_def s0_def split [symmetric])
  from foldE_append_Inr [OF this]
  obtain u1 where u1: "foldE save_monitor [0..<m] s0 = Inr u1"
      "foldE save_monitor (m # [Suc m..<get_n_monitors s]) u1 = Inr t"
    by blast
  from u1(2) obtain u2 where u2: "save_monitor m u1 = Inr u2"
      "foldE save_monitor [Suc m..<get_n_monitors s] u2 = Inr t"
    by (auto simp add: bind_err_def split: sum.splits)
  have f0: "find_window s0 w = Some v" and d0: "distinct (window_ids s0)"
    using f d by (simp_all add: s0_def find_window_def window_ids_def)
  have first0: "\<forall>k\<in>set [0..<m]. k = primary_monitor s0 \<or> get_n_monitors s0 \<le> k \<or>
                    \<not> center_in (frame_rect v) (monitors s0 ! k)"
    using first by (auto simp add: s0_def)
  have k1: "untouched w s0 u1"
    using monitors_loop_untouched [OF u1(1) f0 d0 first0] .
  have dm1: "disable_moves s0 u1" using monitors_loop_effect(1) [OF u1(1)] .
  have env1: "monitors u1 = monitors s" "primary_monitor u1 = primary_monitor s"
      "monitorWorkspaceMap u1 = monitorWorkspaceMap s" "active_workspace u1 = active_workspace s"
    using disable_moves_fields(1-4) [OF dm1] by (simp_all add: s0_def)
  have f1: "find_window u1 w = Some v" using k1 f0 by (simp add: untouched_def)
  have d1: "distinct (window_ids u1)" using dm1 d0 by (simp add: disable_moves_def)
  have g1: "get_monitor_geometry u1 m = Some (monitors s ! m)"
    using m(1) env1 by (simp add: get_monitor_geometry_def get_n_monitors_def)
  have m1: "m \<noteq> primary_monitor u1" using m(2) env1 by simp
  from save_monitor_records [OF u2(1) m1 f1 e g1 c d1]
  obtain pgeo where p: "get_monitor_geometry u1 (primary_monitor u1) = Some pgeo"
      "map_of (savedWindowsBeforeDisable u2) w =
             Some \<lparr>si_monitorIndex = m,
                   si_logicalWs = (case map_of (monitorWorkspaceMap u1) m of
                                     Some ws \<Rightarrow> ws | None \<Rightarrow> 0),
                   si_relX = rect_x (frame_rect v) - rect_x (monitors s ! m),
                   si_relY = rect_y (frame_rect v) - rect_y (monitors s ! m),
                   si_width = rect_width (frame_rect v),
                   si_height = rect_height (frame_rect v)\<rparr>"
      "find_window u2 w =
             Some (v\<lparr>frame_rect :=
                       \<lparr>rect_x = rect_x pgeo + (rect_x (frame_rect v) - rect_x (monitors s ! m)),
                        rect_y = rect_y pgeo + (rect_y (frame_rect v) - rect_y (monitors s ! m)),
                        rect_width = rect_width (frame_rect v),
                        rect_height = rect_height (frame_rect v)\<rparr>,
                     workspace := Some (active_workspace u1)\<rparr>)"
    by blast
  from p(1) env1 have pg: "pgeo = monitors s ! primary_monitor s"
    by (simp add: get_monitor_geometry_def split: if_splits)
  let ?v = "v\<lparr>frame_rect := moved, workspace := Some (active_workspace s)\<rparr>"
  have f2: "find_window u2 w = Some ?v"
    using p(3) by (simp add: pg moved env1)
  have dm2: "disable_moves u1 u2" using save_monitor_effect(1) [OF u2(1)] .
  have d2: "distinct (window_ids u2)" using dm2 d1 by (simp add: disable_moves_def)
  have later2: "\<forall>k\<in>set [Suc m..<get_n_monitors s]. k = primary_monitor u2 \<or>
                    get_n_monitors u2 \<le> k \<or> \<not> center_in (frame_rect ?v) (monitors u2 ! k)"
    using later disable_moves_fields(1,2) [OF dm2] env1 by auto
  have k2: "untouched w u2 t"
    using monitors_loop_untouched [OF u2(2) f2 d2 later2] .
  from k2 f2 p(2) env1 show ?thesis by (simp add: untouched_def)
qed

text \<open>
  C9, amended. On a host whose primary monitor is one of its monitors, disable returns.
  It empties the monitor-to-workspace map, the pending-placement set and the set of
  recently processed windows, and leaves the relative-position cache and the focus
  history as they were. The snapshot is not kept as it was but built anew, and not
  cleared afterwards: whatever it held before has no influence on the result, and it
  ends as \<^verbatim>\<open>_restoreWindowsToLogicalWorkspaces\<close> leaves it. Its keys are distinct; each
  entry is keyed by a window of the host and records a monitor of the host other than
  the primary one, with the workspace the map gave that monitor; and every normal
  window that is listed on a secondary monitor when disable starts has an entry. For
  such a window \<open>w\<close> on monitor \<open>m\<close>, when the window ids are distinct, \<open>m\<close> is the first
  secondary monitor that holds its centre and, once moved to the primary monitor's
  coordinates, its centre is on no later secondary monitor, the entry records \<open>m\<close>, the
  workspace of \<open>m\<close>, the offset of \<open>w\<close> inside \<open>m\<close> and its size, and \<open>w\<close> ends at that
  offset from the primary monitor's origin on the active workspace.
\<close>

theorem disable_clears_and_keeps:
  assumes "primary_monitor s < get_n_monitors s"
  shows "\<exists>s1 s'. restoreWindowsToLogicalWorkspaces s = Inr s1 \<and>
           disable s = Inr s' \<and>
           monitorWorkspaceMap s' = [] \<and>
           windowsPendingPlacement s' = Map.empty \<and>
           recentlyProcessedWindows s' = {} \<and>
           savedWindowPositions s' = savedWindowPositions s \<and>
           lastWindowPerWorkspace s' = lastWindowPerWorkspace s \<and>
           savedWindowsBeforeDisable s' = savedWindowsBeforeDisable s1 \<and>
           distinct (map fst (savedWindowsBeforeDisable s')) \<and>
           list_all (\<lambda>e. fst e \<in> set (window_ids s) \<and>
                          si_monitorIndex (snd e) \<noteq> primary_monitor s \<and>
                          si_monitorIndex (snd e) < get_n_monitors s \<and>
                          si_logicalWs (snd e) =
                            (case map_of (monitorWorkspaceMap s) (si_monitorIndex (snd e)) of
                               Some ws \<Rightarrow> ws | None \<Rightarrow> 0))
             (savedWindowsBeforeDisable s') \<and>
           (\<forall>w v m. find_window s w = Some v \<and> win_type v = NORMAL \<and> \<not> skip_taskbar v \<and>
                     \<not> hidden v \<and> m < get_n_monitors s \<and> m \<noteq> primary_monitor s \<and>
                     center_in (frame_rect v) (monitors s ! m) \<longrightarrow>
                map_of (savedWindowsBeforeDisable s') w \<noteq> None) \<and>
           (\<forall>w v m moved.
                find_window s w = Some v \<and> win_type v = NORMAL \<and> \<not> skip_taskbar v \<and>
                \<not> hidden v \<and> m < get_n_monitors s \<and> m \<noteq> primary_monitor s \<and>
                center_in (frame_rect v) (monitors s ! m) \<and>
                distinct (window_ids s) \<and>
                moved = \<lparr>rect_x = rect_x (monitors s ! primary_monitor s)
                                    + (rect_x (frame_rect v) - rect_x (monitors s ! m)),
                         rect_y = rect_y (monitors s ! primary_monitor s)
                                    + (rect_y (frame_rect v) - rect_y (monitors s ! m)),
                         rect_width = rect_width (frame_rect v),
                         rect_height = rect_height (frame_rect v)\<rparr> \<and>
                (\<forall>k\<in>set [0..<m]. k = primary_monitor s \<or>
                    \<not> center_in (frame_rect v) (monitors s ! k)) \<and>
                (\<forall>k\<in>set [Suc m..<get_n_monitors s]. k = primary_monitor s \<or>
                    \<not> center_in moved (monitors s ! k)) \<longrightarrow>
                map_of (savedWindowsBeforeDisable s') w =
                  Some \<lparr>si_monitorIndex = m,
                        si_logicalWs = (case map_of (monitorWorkspaceMap s) m of
                                          Some ws \<Rightarrow> ws | None \<Rightarrow> 0),
                        si_relX = rect_x (frame_rect v) - rect_x (monitors s ! m),
                        si_relY = rect_y (frame_rect v) - rect_y (monitors s ! m),
                        si_width = rect_width (frame_rect v),
                        si_height = rect_height (frame_rect v)\<rparr> \<and>
                find_window s' w =
                  Some (v\<lparr>frame_rect := moved, workspace := Some (active_workspace s)\<rparr>)) \<and>
           disable (s\<lparr>savedWindowsBeforeDisable := old\<rparr>) = Inr s'"
proof -
  obtain t where t: "restoreWindowsToLogicalWorkspaces s = Inr t"
      "disable_moves s t" "secondary_entries t"
    using restoreWindowsToLogicalWorkspaces_returns [OF assms] by blast
  define s' where "s' = t\<lparr>monitorWorkspaceMap := [], recentlyProcessedWindows := {},
      windowsPendingPlacement := Map.empty, interfaceSettings := False\<rparr>"
  have d: "disable s = Inr s'"
    using t(1) by (simp add: disable_def s'_def)
  have old: "restoreWindowsToLogicalWorkspaces (s\<lparr>savedWindowsBeforeDisable := old\<rparr>)
               = restoreWindowsToLogicalWorkspaces s"
    by (simp add: restoreWindowsToLogicalWorkspaces_def get_n_monitors_def)
  have d': "disable (s\<lparr>savedWindowsBeforeDisable := old\<rparr>) = Inr s'"
    using d by (simp add: disable_def old)
  have ids: "window_ids t = window_ids s"
    using t(2) by (simp add: disable_moves_def)
  have env: "primary_monitor t = primary_monitor s" "get_n_monitors t = get_n_monitors s"
      "monitorWorkspaceMap t = monitorWorkspaceMap s"
    using disable_moves_fields(1-3) [OF t(2)] by (simp_all add: get_n_monitors_def)
  have same: "savedWindowsBeforeDisable s' = savedWindowsBeforeDisable t"
    by (simp add: s'_def)
  have fw: "find_window s' = find_window t"
    by (simp add: s'_def find_window_def fun_eq_iff)
  have snap: "list_all (\<lambda>e. fst e \<in> set (window_ids s) \<and>
                          si_monitorIndex (snd e) \<noteq> primary_monitor s \<and>
                          si_monitorIndex (snd e) < get_n_monitors s \<and>
                          si_logicalWs (snd e) =
                            (case map_of (monitorWorkspaceMap s) (si_monitorIndex (snd e)) of
                               Some ws \<Rightarrow> ws | None \<Rightarrow> 0))
             (savedWindowsBeforeDisable s')"
    using t(3) by (simp add: secondary_entries_def ids env same)
  have keys: "distinct (map fst (savedWindowsBeforeDisable s'))"
    using restore_distinct_keys [OF t(1)] by (simp add: same)
  have kept: "savedWindowPositions s' = savedWindowPositions s"
      "lastWindowPerWorkspace s' = lastWindowPerWorkspace s"
    using disable_moves_fields(5,6) [OF t(2)] by (simp_all add: s'_def)
  have cleared: "monitorWorkspaceMap s' = []" "windowsPendingPlacement s' = Map.empty"
      "recentlyProcessedWindows s' = {}"
    by (simp_all add: s'_def)
  have enters: "map_of (savedWindowsBeforeDisable s') w \<noteq> None"
    if "find_window s w = Some v" "win_type v = NORMAL" "\<not> skip_taskbar v" "\<not> hidden v"
       "m < get_n_monitors s" "m \<noteq> primary_monitor s"
       "center_in (frame_rect v) (monitors s ! m)" for w v m
    using restore_enters [OF t(1) that(5,6,1,2,3,4,7)] by (simp add: same)
  have records: "map_of (savedWindowsBeforeDisable s') w =
                  Some \<lparr>si_monitorIndex = m,
                        si_logicalWs = (case map_of (monitorWorkspaceMap s) m of
                                          Some ws \<Rightarrow> ws | None \<Rightarrow> 0),
                        si_relX = rect_x (frame_rect v) - rect_x (monitors s ! m),
                        si_relY = rect_y (frame_rect v) - rect_y (monitors s ! m),
                        si_width = rect_width (frame_rect v),
                        si_height = rect_height (frame_rect v)\<rparr> \<and>
                find_window s' w =
                  Some (v\<lparr>frame_rect := moved, workspace := Some (active_workspace s)\<rparr>)"
    if "find_window s w = Some v" "win_type v = NORMAL" "\<not> skip_taskbar v" "\<not> hidden v"
       "m < get_n_monitors s" "m \<noteq> primary_monitor s"
       "center_in (frame_rect v) (monitors s ! m)"
       "distinct (window_ids s)"
       "moved = \<lparr>rect_x = rect_x (monitors s ! primary_monitor s)
                                    + (rect_x (frame_rect v) - rect_x (monitors s ! m)),
                         rect_y = rect_y (monitors s ! primary_monitor s)
                                    + (rect_y (frame_rect v) - rect_y (monitors s ! m)),
                         rect_width = rect_width (frame_rect v),
                         rect_height = rect_height (frame_rect v)\<rparr>"
       "\<forall>k\<in>set [0..<m]. k = primary_monitor s \<or> \<not> center_in (frame_rect v) (monitors s ! k)"
       "\<forall>k\<in>set [Suc m..<get_n_monitors s]. k = primary_monitor s \<or>
                    \<not> center_in moved (monitors s ! k)"
    for w v m moved
    using restore_records [OF t(1) that(5,6,1,2,3,4,7,8,9,10,11)] by (simp add: same fw)
  show ?thesis
    apply (rule exI [of _ t])
    apply (rule exI [of _ s'])
    apply (intro conjI allI impI)
    subgoal by (rule t(1))
    subgoal by (rule d)
    subgoal by (rule cleared(1))
    subgoal by (rule cleared(2))
    subgoal by (rule cleared(3))
    subgoal by (rule kept(1))
    subgoal by (rule kept(2))
    subgoal by (rule same)
    subgoal by (rule keys)
    subgoal by (rule snap)
    subgoal for w v m using enters [of w v m] by blast
    subgoal for w v m moved using records [of w v m moved] by blast
    subgoal for w v m moved using records [of w v m moved] by blast
    subgoal by (rule d')
    done
qed

text \<open>
  C9, as stated, fails: with a window on the secondary monitor and an empty snapshot,
  disable leaves a snapshot with an entry for that window, so the snapshot is not left
  unchanged; and the set of recently processed windows, which held window 7, is
  emptied along with the map and the pending-placement set.
\<close>

theorem disable_rebuilds_snapshot:
  "savedWindowsBeforeDisable ex_secondary = [] \<and>
   recentlyProcessedWindows ex_secondary = {7} \<and>
   (\<exists>s'. disable ex_secondary = Inr s' \<and>
      savedWindowsBeforeDisable s' =
        [(1, \<lparr>si_monitorIndex = 1, si_logicalWs = 2, si_relX = 80, si_relY = 100,
               si_width = 800, si_height = 600\<rparr>)] \<and>
      recentlyProcessedWindows s' = {})"
  by (simp add: ex_secondary_def ex_state_def ex_window_def disable_def
        restoreWindowsToLogicalWorkspaces_def get_n_monitors_def upt_rec [of 0] upt_rec [of 1]
        upt_rec [of 2] save_monitor_def getWindowsOnMonitor_def get_monitor_geometry_def
        center_in_def save_and_move_def with_window_def find_window_def Let_def
        change_workspace_def move_resize_frame_def update_window_def)

theorem disable_clears_and_keeps_witness:
  "primary_monitor ex_secondary < get_n_monitors ex_secondary \<and>
   find_window ex_secondary 1 = Some (ex_window 1 2000 100 (Some 0)) \<and>
   (\<exists>s'. disable ex_secondary = Inr s' \<and>
      monitorWorkspaceMap s' = [] \<and>
      windowsPendingPlacement s' = Map.empty \<and>
      recentlyProcessedWindows s' = {} \<and>
      savedWindowPositions s' = savedWindowPositions ex_secondary \<and>
      lastWindowPerWorkspace s' = lastWindowPerWorkspace ex_secondary \<and>
      distinct (map fst (savedWindowsBeforeDisable s')) \<and>
      list_all (\<lambda>e. fst e = 1 \<and> si_monitorIndex (snd e) = 1 \<and> si_logicalWs (snd e) = 2)
        (savedWindowsBeforeDisable s') \<and>
      map_of (savedWindowsBeforeDisable s') 1 =
        Some \<lparr>si_monitorIndex = 1, si_logicalWs = 2, si_relX = 80, si_relY = 100,
              si_width = 800, si_height = 600\<rparr> \<and>
      map_option frame_rect (find_window s' 1) =
        Some \<lparr>rect_x = 80, rect_y = 100, rect_width = 800, rect_height = 600\<rparr>)"
proof -
  let ?v = "ex_window 1 2000 100 (Some 0)"
  let ?moved = "\<lparr>rect_x = 80, rect_y = 100, rect_width = 800, rect_height = 600\<rparr>"
  have h: "primary_monitor ex_secondary < get_n_monitors ex_secondary"
    by (simp add: ex_secondary_def ex_state_def get_n_monitors_def)
  have f: "find_window ex_secondary 1 = Some ?v"
    by (simp add: ex_secondary_def ex_state_def find_window_def ex_window_def)
  from disable_clears_and_keeps [OF h, of "[]"]
  obtain s' where r: "disable ex_secondary = Inr s'"
      "monitorWorkspaceMap s' = []"
      "windowsPendingPlacement s' = Map.empty"
      "recentlyProcessedWindows s' = {}"
      "savedWindowPositions s' = savedWindowPositions ex_secondary"
      "lastWindowPerWorkspace s' = lastWindowPerWorkspace ex_secondary"
      "distinct (map fst (savedWindowsBeforeDisable s'))"
      "list_all (\<lambda>e. fst e \<in> set (window_ids ex_secondary) \<and>
                      si_monitorIndex (snd e) \<noteq> primary_monitor ex_secondary \<and>
                      si_monitorIndex (snd e) < get_n_monitors ex_secondary \<and>
                      si_logicalWs (snd e) =
                        (case map_of (monitorWorkspaceMap ex_secondary) (si_monitorIndex (snd e)) of
                           Some ws \<Rightarrow> ws | None \<Rightarrow> 0))
         (savedWindowsBeforeDisable s')"
      "\<forall>w v m moved.
          find_window ex_secondary w = Some v \<and> win_type v = NORMAL \<and> \<not> skip_taskbar v \<and>
          \<not> hidden v \<and> m < get_n_monitors ex_secondary \<and> m \<noteq> primary_monitor ex_secondary \<and>
          center_in (frame_rect v) (monitors ex_secondary ! m) \<and>
          distinct (window_ids ex_secondary) \<and>
          moved = \<lparr>rect_x = rect_x (monitors ex_secondary ! primary_monitor ex_secondary)
                              + (rect_x (frame_rect v) - rect_x (monitors ex_secondary ! m)),
                   rect_y = rect_y (monitors ex_secondary ! primary_monitor ex_secondary)
                              + (rect_y (frame_rect v) - rect_y (monitors ex_secondary ! m)),
                   rect_width = rect_width (frame_rect v),
                   rect_height = rect_height (frame_rect v)\<rparr> \<and>
          (\<forall>k\<in>set [0..<m]. k = primary_monitor ex_secondary \<or>
              \<not> center_in (frame_rect v) (monitors ex_secondary ! k)) \<and>
          (\<forall>k\<in>set [Suc m..<get_n_monitors ex_secondary]. k = primary_monitor ex_secondary \<or>
              \<not> center_in moved (monitors ex_secondary ! k)) \<longrightarrow>
          map_of (savedWindowsBeforeDisable s') w =
            Some \<lparr>si_monitorIndex = m,
                  si_logicalWs = (case map_of (monitorWorkspaceMap ex_secondary) m of
                                    Some ws \<Rightarrow> ws | None \<Rightarrow> 0),
                  si_relX = rect_x (frame_rect v) - rect_x (monitors ex_secondary ! m),
                  si_relY = rect_y (frame_rect v) - rect_y (monitors ex_secondary ! m),
                  si_width = rect_width (frame_rect v),
                  si_height = rect_height (frame_rect v)\<rparr> \<and>
          find_window s' w =
            Some (v\<lparr>frame_rect := moved, workspace := Some (active_workspace ex_secondary)\<rparr>)"
    by blast
  have a: "find_window ex_secondary 1 = Some ?v \<and> win_type ?v = NORMAL \<and> \<not> skip_taskbar ?v \<and>
          \<not> hidden ?v \<and> 1 < get_n_monitors ex_secondary \<and> 1 \<noteq> primary_monitor ex_secondary \<and>
          center_in (frame_rect ?v) (monitors ex_secondary ! 1) \<and>
          distinct (window_ids ex_secondary) \<and>
          ?moved = \<lparr>rect_x = rect_x (monitors ex_secondary ! primary_monitor ex_secondary)
                              + (rect_x (frame_rect ?v) - rect_x (monitors ex_secondary ! 1)),
                   rect_y = rect_y (monitors ex_secondary ! primary_monitor ex_secondary)
                              + (rect_y (frame_rect ?v) - rect_y (monitors ex_secondary ! 1)),
                   rect_width = rect_width (frame_rect ?v),
                   rect_height = rect_height (frame_rect ?v)\<rparr> \<and>
          (\<forall>k\<in>set [0..<1]. k = primary_monitor ex_secondary \<or>
              \<not> center_in (frame_rect ?v) (monitors ex_secondary ! k)) \<and>
          (\<forall>k\<in>set [Suc 1..<get_n_monitors ex_secondary]. k = primary_monitor ex_secondary \<or>
              \<not> center_in ?moved (monitors ex_secondary ! k))"
    by (simp add: ex_secondary_def ex_state_def ex_window_def find_window_def get_n_monitors_def
          center_in_def window_ids_def)
  from r(9) a
  have e: "map_of (savedWindowsBeforeDisable s') 1 =
            Some \<lparr>si_monitorIndex = 1,
                  si_logicalWs = (case map_of (monitorWorkspaceMap ex_secondary) 1 of
                                    Some ws \<Rightarrow> ws | None \<Rightarrow> 0),
                  si_relX = rect_x (frame_rect ?v) - rect_x (monitors ex_secondary ! 1),
                  si_relY = rect_y (frame_rect ?v) - rect_y (monitors ex_secondary ! 1),
                  si_width = rect_width (frame_rect ?v),
                  si_height = rect_height (frame_rect ?v)\<rparr> \<and>
          find_window s' 1 =
            Some (?v\<lparr>frame_rect := ?moved, workspace := Some (active_workspace ex_secondary)\<rparr>)"
    by blast
  have e1: "map_of (savedWindowsBeforeDisable s') 1 =
        Some \<lparr>si_monitorIndex = 1, si_logicalWs = 2, si_relX = 80, si_relY = 100,
              si_width = 800, si_height = 600\<rparr>"
    using e by (simp add: ex_secondary_def ex_state_def ex_window_def)
  have e2: "map_option frame_rect (find_window s' 1) = Some ?moved"
    using e by simp
  have "\<And>e. fst e \<in> set (window_ids ex_secondary) \<and>
             si_monitorIndex (snd e) \<noteq> primary_monitor ex_secondary \<and>
             si_monitorIndex (snd e) < get_n_monitors ex_secondary \<and>
             si_logicalWs (snd e) =
               (case map_of (monitorWorkspaceMap ex_secondary) (si_monitorIndex (snd e)) of
                  Some ws \<Rightarrow> ws | None \<Rightarrow> 0)
             \<Longrightarrow> fst e = 1 \<and> si_monitorIndex (snd e) = 1 \<and> si_logicalWs (snd e) = 2"
    by (auto simp add: ex_secondary_def ex_state_def ex_window_def window_ids_def
          get_n_monitors_def)
  with r(8) have l: "list_all (\<lambda>e. fst e = 1 \<and> si_monitorIndex (snd e) = 1 \<and>
                                  si_logicalWs (snd e) = 2)
                    (savedWindowsBeforeDisable s')"
    by (auto simp add: list_all_iff)
  from h f r(1-7) l e1 e2 show ?thesis by blast
qed

end
